(* ===== verification/Prelude.thy ===== *)
theory Prelude
  imports Main "HOL-Library.List_Lexorder" "HOL-Library.Char_ord" "HOL-Library.Sublist"
    "HOL-Library.Multiset" "HOL-Library.AList" "HOL-Library.Code_Target_Nat"
begin

text \<open>
  What the component theories share: the collections of simp rules the proofs use by name, the
  constants of Go's sized integers with two's complement wrap-around, byte strings ordered as
  Go orders them (lexicographically by byte value, so that the library function sort on lists
  is sort.Strings), and generic lemmas about lists that more than one component needs.
\<close>

named_theorems go_simps \<open>evaluation rules of the Go standard library functions that are modelled\<close>
named_theorems wire_simps \<open>rules about the bytes that are sent or received\<close>
named_theorems trace_simps \<open>rules that compute the trace of an operation\<close>

section \<open>Sized integers\<close>

text \<open>
  Go's int, int64 and time.Duration have 64 bits. A value is modelled as an integer, and
  every operation whose overflow the code can reach is followed by wrap64, the two's
  complement representative.
\<close>

definition MinInt64 :: int where "MinInt64 = - (2 ^ 63)"
definition MaxInt64 :: int where "MaxInt64 = 2 ^ 63 - 1"

definition wrap64 :: "int \<Rightarrow> int" where
  "wrap64 i = (i + 2 ^ 63) mod 2 ^ 64 - 2 ^ 63"

definition in_int64 :: "int \<Rightarrow> bool" where
  "in_int64 i \<longleftrightarrow> MinInt64 \<le> i \<and> i \<le> MaxInt64"

lemma in_int64_wrap64 [simp, intro]: "in_int64 (wrap64 i)"
proof -
  have "0 \<le> (i + 2 ^ 63) mod (2 ^ 64 :: int)" and "(i + 2 ^ 63) mod (2 ^ 64 :: int) < 2 ^ 64"
    by simp_all
  then show ?thesis by (simp add: in_int64_def wrap64_def MinInt64_def MaxInt64_def)
qed

lemma wrap64_id [simp]: "in_int64 i \<Longrightarrow> wrap64 i = i"
  by (simp add: in_int64_def wrap64_def MinInt64_def MaxInt64_def)

lemma wrap64_above: "2 ^ 63 \<le> i \<Longrightarrow> i < 2 ^ 63 + 2 ^ 64 \<Longrightarrow> wrap64 i = i - 2 ^ 64"
  using mod_add_self2 [of "i - 2 ^ 63" "2 ^ 64"] mod_pos_pos_trivial [of "i - 2 ^ 63" "2 ^ 64"]
  by (simp add: wrap64_def add.commute)

text \<open>Go's integer division truncates towards zero.\<close>

definition go_div :: "int \<Rightarrow> int \<Rightarrow> int" where
  "go_div a b = sgn a * sgn b * (\<bar>a\<bar> div \<bar>b\<bar>)"

lemma go_div_pos [simp]: "0 \<le> a \<Longrightarrow> 0 < b \<Longrightarrow> go_div a b = a div b"
  by (cases "a = 0") (auto simp: go_div_def)

section \<open>Lists\<close>

fun Join :: "string list \<Rightarrow> string \<Rightarrow> string" where
  "Join [] sep = []"
| "Join [x] sep = x"
| "Join (x # y # zs) sep = x @ sep @ Join (y # zs) sep"

lemma Join_Cons: "Join (x # xs) sep = (if xs = [] then x else x @ sep @ Join xs sep)"
  by (cases xs) auto

lemma Join_append:
  "Join (xs @ ys) sep =
     (if xs = [] then Join ys sep else if ys = [] then Join xs sep
      else Join xs sep @ sep @ Join ys sep)"
  by (induction xs) (auto simp: Join_Cons)

lemma set_Join: "set (Join xs sep) \<subseteq> \<Union> (set ` set xs) \<union> set sep"
  by (induction xs) (auto simp: Join_Cons)

text \<open>Splitting at every occurrence of one character.\<close>

fun split_on :: "char \<Rightarrow> string \<Rightarrow> string list" where
  "split_on c [] = [[]]"
| "split_on c (x # xs) =
     (if x = c then [] # split_on c xs
      else (x # hd (split_on c xs)) # tl (split_on c xs))"

lemma split_on_nonempty [simp]: "split_on c s \<noteq> []"
  by (induction s) auto

lemma split_on_append_sep:
  "c \<notin> set p \<Longrightarrow> split_on c (p @ c # s) = p # split_on c s"
  by (induction p) auto

lemma split_on_no_sep: "c \<notin> set p \<Longrightarrow> split_on c p = [p]"
  by (induction p) auto

lemma split_on_Join:
  assumes "xs \<noteq> []" and "\<forall>x \<in> set xs. c \<notin> set x"
  shows "split_on c (Join xs [c]) = xs"
  using assms
proof (induction xs rule: list_nonempty_induct)
  case (single x)
  then show ?case by (simp add: split_on_no_sep)
next
  case (cons x xs)
  then show ?case by (simp add: Join_Cons split_on_append_sep)
qed

lemma Join_pad:
  "Join (x # xs) (c # pad) = Join (x # map (\<lambda>y. pad @ y) xs) [c]"
  by (induction xs arbitrary: x) (auto simp: Join_Cons)

lemma set_tl_subset: "x \<in> set (tl xs) \<Longrightarrow> x \<in> set xs"
  by (cases xs) auto

lemma split_on_pieces: "p \<in> set (split_on c s) \<Longrightarrow> c \<notin> set p"
proof (induction s arbitrary: p)
  case (Cons x xs)
  have "hd (split_on c xs) \<in> set (split_on c xs)" by simp
  with Cons show ?case by (auto split: if_splits dest: set_tl_subset)
qed auto

lemma split_on_length: "p \<in> set (split_on c s) \<Longrightarrow> length p \<le> length s"
proof (induction s arbitrary: p)
  case (Cons x xs)
  have "hd (split_on c xs) \<in> set (split_on c xs)" by simp
  with Cons show ?case
    by (auto split: if_splits dest!: set_tl_subset intro: le_SucI)
qed auto

end
