(* ===== verification/GoStrconv.thy ===== *)
theory GoStrconv
  imports Prelude
begin

text \<open>
  The parts of Go's strconv and strings packages that the client uses: decimal printing
  (Itoa, FormatUint, FormatBool), decimal parsing with its two errors (ParseUint, ParseInt,
  Atoi; a range error is reported at the digit that overflows, before a later malformed
  character is seen), and HasPrefix, TrimSuffix, TrimSpace, ContainsRune.
\<close>

section \<open>strings\<close>

definition HasPrefix :: "string \<Rightarrow> string \<Rightarrow> bool" where
  "HasPrefix s p \<longleftrightarrow> take (length p) s = p"

definition HasSuffix :: "string \<Rightarrow> string \<Rightarrow> bool" where
  "HasSuffix s p \<longleftrightarrow> HasPrefix (rev s) (rev p)"

definition TrimSuffix :: "string \<Rightarrow> string \<Rightarrow> string" where
  "TrimSuffix s p = (if HasSuffix s p then take (length s - length p) s else s)"

definition ContainsRune :: "string \<Rightarrow> char \<Rightarrow> bool" where
  "ContainsRune s c \<longleftrightarrow> c \<in> set s"

text \<open>Cut splits around the first occurrence of a one-character separator.\<close>

definition Cut :: "string \<Rightarrow> char \<Rightarrow> string \<times> string \<times> bool" where
  "Cut s c = (let p = takeWhile (\<lambda>x. x \<noteq> c) s
              in if length p < length s then (p, drop (Suc (length p)) s, True) else (s, [], False))"

lemma Cut_append:
  assumes "c \<notin> set a"
  shows "Cut (a @ c # b) c = (a, b, True)"
proof -
  have "takeWhile (\<lambda>x. x \<noteq> c) (a @ c # b) = a" using assms by (induction a) auto
  then show ?thesis by (simp add: Cut_def)
qed

lemma Cut_absent: "c \<notin> set s \<Longrightarrow> Cut s c = (s, [], False)"
proof -
  assume "c \<notin> set s"
  then have "takeWhile (\<lambda>x. x \<noteq> c) s = s" by (induction s) auto
  then show "Cut s c = (s, [], False)" by (simp only: Cut_def Let_def less_irrefl if_False)
qed

text \<open>The UTF-8 encodings of the characters for which unicode.IsSpace holds.\<close>

definition space_seqs :: "string list" where
  "space_seqs =
     [[CHR 0x09], [CHR 0x0A], [CHR 0x0B], [CHR 0x0C], [CHR 0x0D], [CHR 0x20],
      [CHR 0xC2, CHR 0x85], [CHR 0xC2, CHR 0xA0], [CHR 0xE1, CHR 0x9A, CHR 0x80],
      [CHR 0xE2, CHR 0x80, CHR 0x80], [CHR 0xE2, CHR 0x80, CHR 0x81],
      [CHR 0xE2, CHR 0x80, CHR 0x82], [CHR 0xE2, CHR 0x80, CHR 0x83],
      [CHR 0xE2, CHR 0x80, CHR 0x84], [CHR 0xE2, CHR 0x80, CHR 0x85],
      [CHR 0xE2, CHR 0x80, CHR 0x86], [CHR 0xE2, CHR 0x80, CHR 0x87],
      [CHR 0xE2, CHR 0x80, CHR 0x88], [CHR 0xE2, CHR 0x80, CHR 0x89],
      [CHR 0xE2, CHR 0x80, CHR 0x8A], [CHR 0xE2, CHR 0x80, CHR 0xA8],
      [CHR 0xE2, CHR 0x80, CHR 0xA9], [CHR 0xE2, CHR 0x80, CHR 0xAF],
      [CHR 0xE2, CHR 0x81, CHR 0x9F], [CHR 0xE3, CHR 0x80, CHR 0x80]]"

fun strip_one :: "string list \<Rightarrow> string \<Rightarrow> string option" where
  "strip_one [] s = None"
| "strip_one (p # ps) s =
     (if p \<noteq> [] \<and> HasPrefix s p then Some (drop (length p) s) else strip_one ps s)"

lemma HasPrefix_drop_shorter:
  "HasPrefix s p \<Longrightarrow> p \<noteq> [] \<Longrightarrow> length s - length p < length s"
  by (cases s) (auto simp: HasPrefix_def)

lemma strip_one_shorter: "strip_one ps s = Some s' \<Longrightarrow> length s' < length s"
  by (induction ps) (auto simp: HasPrefix_drop_shorter split: if_splits)

function strip_all :: "string list \<Rightarrow> string \<Rightarrow> string" where
  "strip_all ps s = (case strip_one ps s of None \<Rightarrow> s | Some s' \<Rightarrow> strip_all ps s')"
  by pat_completeness auto
termination
  by (relation "measure (\<lambda>(ps, s). length s)") (auto dest: strip_one_shorter)

declare strip_all.simps [simp del]

definition TrimSpace :: "string \<Rightarrow> string" where
  "TrimSpace s =
     rev (strip_all (map rev space_seqs) (rev (strip_all space_seqs s)))"

lemma strip_one_None_iff:
  "strip_one ps s = None \<longleftrightarrow> (\<forall>p \<in> set ps. p \<noteq> [] \<longrightarrow> \<not> HasPrefix s p)"
  by (induction ps) auto

lemma strip_all_id:
  assumes "\<forall>p \<in> set ps. p \<noteq> [] \<longrightarrow> \<not> HasPrefix s p"
  shows "strip_all ps s = s"
  using assms by (subst strip_all.simps) (simp add: strip_one_None_iff [symmetric])

text \<open>A string of printable ASCII characters without a blank is already trimmed.\<close>

definition graphic :: "char \<Rightarrow> bool" where
  "graphic c \<longleftrightarrow> 33 \<le> (of_char c :: nat) \<and> (of_char c :: nat) < 127"

lemma graphic_not_prefix:
  assumes "list_all graphic s" and "p \<noteq> []" and "\<not> graphic (hd p)"
  shows "\<not> HasPrefix s p"
  using assms by (cases s; cases p) (auto simp: HasPrefix_def)

lemma space_seqs_not_graphic:
  "\<forall>p \<in> set space_seqs. \<not> graphic (hd p) \<and> \<not> graphic (hd (rev p))"
  by (simp add: space_seqs_def graphic_def)

lemma TrimSpace_graphic: "list_all graphic s \<Longrightarrow> TrimSpace s = s"
  using space_seqs_not_graphic graphic_not_prefix
  by (simp add: TrimSpace_def strip_all_id list_all_iff)

section \<open>Bytes and hexadecimal digits\<close>

definition byte :: "char \<Rightarrow> nat" where "byte c = of_char c"

definition in_range :: "nat \<Rightarrow> char \<Rightarrow> nat \<Rightarrow> bool" where
  "in_range lo c hi \<longleftrightarrow> lo \<le> byte c \<and> byte c \<le> hi"

lemma byte_shift:
  "97 \<le> byte c \<Longrightarrow> byte (char_of (byte c - 32)) = byte c - 32"
  "byte c \<le> 90 \<Longrightarrow> byte (char_of (byte c + 32)) = byte c + 32"
proof -
  have less: "byte c < 256" by (simp add: byte_def)
  have wrap: "byte (char_of n) = n mod 256" for n by (simp add: byte_def take_bit_nat_def)
  show "97 \<le> byte c \<Longrightarrow> byte (char_of (byte c - 32)) = byte c - 32"
    and "byte c \<le> 90 \<Longrightarrow> byte (char_of (byte c + 32)) = byte c + 32"
    using less by (simp_all add: wrap less_imp_diff_less)
qed

definition hex_val :: "char \<Rightarrow> nat option" where
  "hex_val c =
     (if in_range 48 c 57 then Some (byte c - 48)
      else if in_range 65 c 70 then Some (byte c - 55)
      else if in_range 97 c 102 then Some (byte c - 87)
      else None)"

section \<open>Printing decimals\<close>

definition digit_char :: "nat \<Rightarrow> char" where
  "digit_char d = char_of (48 + d)"

fun dec_of_nat :: "nat \<Rightarrow> string" where
  "dec_of_nat n =
     (if n < 10 then [digit_char n] else dec_of_nat (n div 10) @ [digit_char (n mod 10)])"

declare dec_of_nat.simps [simp del]

definition Itoa :: "int \<Rightarrow> string" where
  "Itoa i = (if i < 0 then CHR ''-'' # dec_of_nat (nat (- i)) else dec_of_nat (nat i))"

definition FormatBool :: "bool \<Rightarrow> string" where
  "FormatBool b = (if b then ''true'' else ''false'')"

section \<open>Parsing decimals\<close>

datatype num_error = ErrSyntax | ErrRange

definition digit_val :: "char \<Rightarrow> nat option" where
  "digit_val c = (let n = of_char c :: nat in if 48 \<le> n \<and> n \<le> 57 then Some (n - 48) else None)"

fun uint_loop :: "nat \<Rightarrow> nat \<Rightarrow> string \<Rightarrow> num_error + nat" where
  "uint_loop mx acc [] = Inr acc"
| "uint_loop mx acc (c # cs) =
     (case digit_val c of
        None \<Rightarrow> Inl ErrSyntax
      | Some d \<Rightarrow> if acc * 10 + d > mx then Inl ErrRange else uint_loop mx (acc * 10 + d) cs)"

definition ParseUint :: "string \<Rightarrow> nat \<Rightarrow> num_error + nat" where
  "ParseUint s bits = (if s = [] then Inl ErrSyntax else uint_loop (2 ^ bits - 1) 0 s)"

definition ParseInt64 :: "string \<Rightarrow> num_error + int" where
  "ParseInt64 s =
     (case s of
        [] \<Rightarrow> Inl ErrSyntax
      | c # cs \<Rightarrow>
         (let neg = (c = CHR ''-''); digits = (if c = CHR ''+'' \<or> c = CHR ''-'' then cs else s)
          in case ParseUint digits 64 of
               Inl ErrSyntax \<Rightarrow> Inl ErrSyntax
             | Inl ErrRange \<Rightarrow> Inl ErrRange
             | Inr un \<Rightarrow>
                (if \<not> neg \<and> un \<ge> 2 ^ 63 then Inl ErrRange
                 else if neg \<and> un > 2 ^ 63 then Inl ErrRange
                 else Inr (if neg then - int un else int un))))"

text \<open>On a 64-bit platform Atoi is ParseInt to 64 bits with a fast path of the same result.\<close>

definition Atoi :: "string \<Rightarrow> num_error + int" where
  "Atoi s = ParseInt64 s"

lemma Atoi_in_int64: "Atoi s = Inr n \<Longrightarrow> in_int64 n"
  by (auto simp: Atoi_def ParseInt64_def Let_def in_int64_def MinInt64_def MaxInt64_def
      split: list.splits sum.splits num_error.splits if_splits)

section \<open>Round trips\<close>

lemma digit_val_digit_char [simp]: "d < 10 \<Longrightarrow> digit_val (digit_char d) = Some d"
  by (simp add: digit_val_def digit_char_def)

lemma digit_char_graphic: "d < 10 \<Longrightarrow> graphic (digit_char d)"
  by (simp add: graphic_def digit_char_def)

lemma uint_loop_append:
  "uint_loop mx a (xs @ ys) =
     (case uint_loop mx a xs of Inl e \<Rightarrow> Inl e | Inr b \<Rightarrow> uint_loop mx b ys)"
  by (induction mx a xs rule: uint_loop.induct) (auto split: option.splits)

lemma dec_of_nat_nonempty [simp]: "dec_of_nat n \<noteq> []"
  by (subst dec_of_nat.simps) simp

lemma set_dec_of_nat: "set (dec_of_nat n) \<subseteq> digit_char ` {..<10}"
proof (induction n rule: dec_of_nat.induct)
  case (1 n)
  then show ?case by (subst dec_of_nat.simps) auto
qed

lemma digit_char_inj: "d < 10 \<Longrightarrow> digit_val (digit_char d) \<noteq> None"
  by simp

lemma dec_of_nat_digits: "c \<in> set (dec_of_nat n) \<Longrightarrow> digit_val c \<noteq> None"
  using set_dec_of_nat [of n] digit_char_inj by blast

lemma dec_of_nat_graphic: "list_all graphic (dec_of_nat n)"
  using set_dec_of_nat [of n] digit_char_graphic by (auto simp: list_all_iff)

lemma length_dec_of_nat_mono: "m \<le> n \<Longrightarrow> length (dec_of_nat m) \<le> length (dec_of_nat n)"
proof (induction n arbitrary: m rule: dec_of_nat.induct)
  case (1 n)
  show ?case
  proof (cases "n < 10 \<or> m < 10")
    case True
    with "1.prems" show ?thesis
      by (subst (1) dec_of_nat.simps) (auto simp: Suc_le_eq)
  next
    case False
    then have "length (dec_of_nat (m div 10)) \<le> length (dec_of_nat (n div 10))"
      using 1 by (simp add: div_le_mono)
    with False show ?thesis
      by (subst (1 2) dec_of_nat.simps) simp
  qed
qed

lemma uint_loop_dec_of_nat: "n \<le> mx \<Longrightarrow> uint_loop mx 0 (dec_of_nat n) = Inr n"
proof (induction n rule: dec_of_nat.induct)
  case (1 n)
  show ?case
  proof (cases "n < 10")
    case True
    with 1 show ?thesis by (subst dec_of_nat.simps) simp
  next
    case False
    with 1 have "uint_loop mx 0 (dec_of_nat (n div 10)) = Inr (n div 10)" by simp
    with False 1 show ?thesis
      by (subst dec_of_nat.simps) (simp add: uint_loop_append)
  qed
qed

lemma ParseUint_dec_of_nat: "n < 2 ^ b \<Longrightarrow> ParseUint (dec_of_nat n) b = Inr n"
  by (simp add: ParseUint_def uint_loop_dec_of_nat)

lemma uint_loop_bound: "uint_loop mx a s = Inr n \<Longrightarrow> a \<le> mx \<Longrightarrow> n \<le> mx"
  by (induction mx a s rule: uint_loop.induct) (auto split: option.splits if_splits)

lemma ParseUint_bound: "ParseUint s b = Inr n \<Longrightarrow> n < 2 ^ b"
proof -
  assume "ParseUint s b = Inr n"
  then have "n \<le> 2 ^ b - 1"
    using uint_loop_bound [of "2 ^ b - 1" 0 s n] by (simp add: ParseUint_def split: if_splits)
  moreover have "(0::nat) < 2 ^ b" by simp
  ultimately show "n < 2 ^ b" by linarith
qed

lemma dec_of_nat_inj [simp]: "dec_of_nat m = dec_of_nat n \<longleftrightarrow> m = n"
proof
  assume eq: "dec_of_nat m = dec_of_nat n"
  have "uint_loop (max m n) 0 (dec_of_nat m) = Inr m"
    and "uint_loop (max m n) 0 (dec_of_nat n) = Inr n"
    by (simp_all add: uint_loop_dec_of_nat)
  then show "m = n" unfolding eq by (metis sum.inject(2))
qed simp

lemma hd_dec_of_nat_not_sign:
  "hd (dec_of_nat n) \<noteq> CHR ''-''" "hd (dec_of_nat n) \<noteq> CHR ''+''"
proof -
  have "digit_val (hd (dec_of_nat n)) \<noteq> None"
    using dec_of_nat_digits [of "hd (dec_of_nat n)" n] by simp
  then show "hd (dec_of_nat n) \<noteq> CHR ''-''" "hd (dec_of_nat n) \<noteq> CHR ''+''"
    by (auto simp: digit_val_def)
qed

lemma Atoi_Itoa:
  assumes "in_int64 i"
  shows "Atoi (Itoa i) = Inr i"
proof (cases "i < 0")
  case True
  with assms have "nat (- i) < 2 ^ 64" and "nat (- i) \<le> 2 ^ 63"
    by (auto simp: in_int64_def MinInt64_def)
  with True show ?thesis
    by (simp add: Atoi_def ParseInt64_def Itoa_def ParseUint_dec_of_nat)
next
  case False
  with assms have b: "nat i < 2 ^ 64" "nat i < 2 ^ 63"
    by (auto simp: in_int64_def MaxInt64_def)
  obtain c cs where d: "dec_of_nat (nat i) = c # cs" by (cases "dec_of_nat (nat i)") auto
  with hd_dec_of_nat_not_sign [of "nat i"] have "c \<noteq> CHR ''-''" "c \<noteq> CHR ''+''" by simp_all
  with False b d ParseUint_dec_of_nat [OF b(1)] show ?thesis
    by (simp add: Atoi_def ParseInt64_def Itoa_def)
qed

lemma Itoa_graphic: "list_all graphic (Itoa i)"
  using dec_of_nat_graphic by (simp add: Itoa_def graphic_def)

lemma uint_loop_dec_of_nat_big: "mx < n \<Longrightarrow> uint_loop mx 0 (dec_of_nat n) = Inl ErrRange"
proof (induction n rule: dec_of_nat.induct)
  case (1 n)
  show ?case
  proof (cases "n < 10")
    case True
    with 1 show ?thesis by (subst dec_of_nat.simps) simp
  next
    case False
    then have "uint_loop mx 0 (dec_of_nat (n div 10)) =
        (if mx < n div 10 then Inl ErrRange else Inr (n div 10))"
      using 1 by (simp add: uint_loop_dec_of_nat)
    with False 1 show ?thesis
      by (subst dec_of_nat.simps) (simp add: uint_loop_append)
  qed
qed

lemma Atoi_dec_of_nat:
  "Atoi (dec_of_nat n) = (if int n \<le> MaxInt64 then Inr (int n) else Inl ErrRange)"
proof (cases "int n \<le> MaxInt64")
  case True
  then have "in_int64 (int n)" by (simp add: in_int64_def MinInt64_def)
  from Atoi_Itoa [OF this] True show ?thesis by (simp add: Itoa_def)
next
  case False
  then have n: "2 ^ 63 \<le> n" by (simp add: MaxInt64_def)
  obtain c cs where d: "dec_of_nat n = c # cs" by (cases "dec_of_nat n") auto
  with hd_dec_of_nat_not_sign [of n] have "c \<noteq> CHR ''-''" "c \<noteq> CHR ''+''" by simp_all
  moreover have "ParseUint (dec_of_nat n) 64 = (if n < 2 ^ 64 then Inr n else Inl ErrRange)"
    using uint_loop_dec_of_nat_big [of "2 ^ 64 - 1" n] ParseUint_dec_of_nat [of n 64]
    by (auto simp: ParseUint_def)
  ultimately show ?thesis using False n d by (simp add: Atoi_def ParseInt64_def)
qed

end
