(* ===== verification/Errors.thy ===== *)
theory Errors
  imports GoStrconv
begin

text \<open>
  errors.go without its JSON part (see ErrorBody): the Error struct, its constructors, the error
  codes, and the predicates callers classify errors with. An error value is a tree: an *Error
  with an optional cause, an error that fmt.Errorf made with the verb w around another one, or
  an error of the standard library, of which only the text is kept (in an abbreviated form).
  Predicates take an optional error, None being nil. The result of an operation that may also
  panic is Ok, Err or Panic.
\<close>

section \<open>Error values\<close>

type_synonym ErrorKind = string
type_synonym ErrorCode = string

datatype error =
    HError (Kind: ErrorKind) (Code: ErrorCode) (Status: int) (Message: string)
      (Cause: "error option")
  | ErrorString string
  | Wrapped string error

datatype 'a result = Ok 'a | Err error | Panic string

fun bind_result :: "'a result \<Rightarrow> ('a \<Rightarrow> 'b result) \<Rightarrow> 'b result" where
  "bind_result (Ok x) f = f x"
| "bind_result (Err e) f = Err e"
| "bind_result (Panic p) f = Panic p"

lemma bind_result_Ok_iff:
  "bind_result r f = Ok y \<longleftrightarrow> (\<exists>x. r = Ok x \<and> f x = Ok y)"
  by (cases r) auto

lemma bind_result_Panic_iff:
  "bind_result r f = Panic p \<longleftrightarrow> r = Panic p \<or> (\<exists>x. r = Ok x \<and> f x = Panic p)"
  by (cases r) auto

section \<open>Kinds and codes\<close>

definition ErrKindAPI :: ErrorKind where [simp]: "ErrKindAPI = ''API''"
definition ErrKindNetwork :: ErrorKind where [simp]: "ErrKindNetwork = ''Network''"
definition ErrKindParse :: ErrorKind where [simp]: "ErrKindParse = ''Parse''"
definition ErrKindAuth :: ErrorKind where [simp]: "ErrKindAuth = ''Auth''"
definition ErrKindPolicy :: ErrorKind where [simp]: "ErrKindPolicy = ''Policy''"
definition ErrKindValidation :: ErrorKind where [simp]: "ErrKindValidation = ''Validation''"

definition ErrUnauthorized :: ErrorCode where [simp]: "ErrUnauthorized = ''UNAUTHORIZED''"
definition ErrInvalidInput :: ErrorCode where [simp]: "ErrInvalidInput = ''INVALID_INPUT''"
definition ErrServerNotFound :: ErrorCode where [simp]: "ErrServerNotFound = ''SERVER_NOT_FOUND''"
definition ErrIPNotFound :: ErrorCode where [simp]: "ErrIPNotFound = ''IP_NOT_FOUND''"
definition ErrRateLimitExceeded :: ErrorCode where
  [simp]: "ErrRateLimitExceeded = ''RATE_LIMIT_EXCEEDED''"
definition ErrFirewallInProcess :: ErrorCode where
  [simp]: "ErrFirewallInProcess = ''FIREWALL_IN_PROCESS''"
definition ErrFirewallRuleLimitExceeded :: ErrorCode where
  [simp]: "ErrFirewallRuleLimitExceeded = ''FIREWALL_RULE_LIMIT_EXCEEDED''"
definition ErrDisallowedByClientPolicy :: ErrorCode where
  [simp]: "ErrDisallowedByClientPolicy = ''DISALLOWED_BY_CLIENT_POLICY''"
definition ErrUnknown :: ErrorCode where [simp]: "ErrUnknown = ''UNKNOWN''"

text \<open>The codes the package names, in the order of the source.\<close>

definition ErrorCodes :: "ErrorCode list" where
  "ErrorCodes =
     [''UNAUTHORIZED'', ''INVALID_INPUT'', ''INVALID_INPUT_SERVER_IP'',
      ''INVALID_INPUT_IP_ADDRESS'', ''SERVER_NOT_FOUND'', ''IP_NOT_FOUND'', ''IP_LOCKED'',
      ''INSUFFICIENT_PERMISSIONS'', ''RATE_LIMIT_EXCEEDED'', ''MAINTENANCE_MODE'',
      ''FIREWALL_IN_PROCESS'', ''FIREWALL_ALREADY_ACTIVE'', ''FIREWALL_ALREADY_DISABLED'',
      ''FIREWALL_CONFIG_INVALID'', ''FIREWALL_RULE_LIMIT_EXCEEDED'', ''BOOT_CONFIG_NOT_FOUND'',
      ''BOOT_ALREADY_ACTIVE'', ''RESCUE_NOT_ACTIVE'', ''RESCUE_ALREADY_ACTIVE'',
      ''RESET_NOT_AVAILABLE'', ''RESET_MANUAL_ACTIVE'', ''VNC_DISABLED'', ''VNC_NOT_AVAILABLE'',
      ''RDNS_NOT_FOUND'', ''RDNS_INVALID'', ''DISALLOWED_BY_CLIENT_POLICY'', ''UNKNOWN'']"

lemma ErrorCodes_distinct: "distinct ErrorCodes"
  by code_simp

section \<open>Constructors\<close>

definition NewAPIError :: "ErrorCode \<Rightarrow> string \<Rightarrow> error" where
  "NewAPIError code message = HError ErrKindAPI code 0 message None"

definition newAPIErrorWithStatus :: "ErrorCode \<Rightarrow> string \<Rightarrow> int \<Rightarrow> error" where
  "newAPIErrorWithStatus code message status = HError ErrKindAPI code status message None"

definition NewNetworkError :: "string \<Rightarrow> error option \<Rightarrow> error" where
  "NewNetworkError message cause = HError ErrKindNetwork [] 0 message cause"

definition NewParseError :: "string \<Rightarrow> error option \<Rightarrow> error" where
  "NewParseError message cause = HError ErrKindParse [] 0 message cause"

definition NewAuthError :: "string \<Rightarrow> error" where
  "NewAuthError message = HError ErrKindAuth [] 0 message None"

definition NewPolicyError :: "string \<Rightarrow> error" where
  "NewPolicyError operation =
     HError ErrKindPolicy ErrDisallowedByClientPolicy 451
       (operation @ '' is disallowed by client policy; perform this action via the Hetzner Robot UI'')
       None"

definition NewValidationError :: "ErrorCode \<Rightarrow> string \<Rightarrow> int \<Rightarrow> error" where
  "NewValidationError code message status = HError ErrKindValidation code status message None"

lemmas error_constructors =
  NewAPIError_def newAPIErrorWithStatus_def NewNetworkError_def NewParseError_def
  NewAuthError_def NewPolicyError_def NewValidationError_def

section \<open>Rendering and unwrapping\<close>

fun Error_str :: "error \<Rightarrow> string" where
  "Error_str (HError k c st m cause) =
     (let prefix = (if c \<noteq> [] then k @ ''['' @ c @ '']'' else k)
      in case cause of
           Some e \<Rightarrow> prefix @ '': '' @ m @ '': '' @ Error_str e
         | None \<Rightarrow> prefix @ '': '' @ m)"
| "Error_str (ErrorString s) = s"
| "Error_str (Wrapped p e) = p @ Error_str e"

fun Unwrap :: "error \<Rightarrow> error option" where
  "Unwrap (HError k c st m cause) = cause"
| "Unwrap (ErrorString s) = None"
| "Unwrap (Wrapped p e) = Some e"

text \<open>errors.As with a target of type **Error: the first *Error along the chain.\<close>

fun errors_As :: "error \<Rightarrow> error option" where
  "errors_As (HError k c st m cause) = Some (HError k c st m cause)"
| "errors_As (ErrorString s) = None"
| "errors_As (Wrapped p e) = errors_As e"

section \<open>Classification\<close>

definition IsAPIError :: "error option \<Rightarrow> ErrorCode \<Rightarrow> bool" where
  "IsAPIError err code =
     (case Option.bind err errors_As of
        None \<Rightarrow> False
      | Some e \<Rightarrow> Kind e = ErrKindAPI \<and> Code e = code)"

definition IsRateLimitError :: "error option \<Rightarrow> bool" where
  "IsRateLimitError err = IsAPIError err ErrRateLimitExceeded"

definition IsNotFoundError :: "error option \<Rightarrow> bool" where
  "IsNotFoundError err = (IsAPIError err ErrServerNotFound \<or> IsAPIError err ErrIPNotFound)"

definition IsFirewallInProcessError :: "error option \<Rightarrow> bool" where
  "IsFirewallInProcessError err = IsAPIError err ErrFirewallInProcess"

definition IsUnauthorizedError :: "error option \<Rightarrow> bool" where
  "IsUnauthorizedError err =
     (case Option.bind err errors_As of None \<Rightarrow> False | Some e \<Rightarrow> Code e = ErrUnauthorized)"

definition IsFirewallRuleLimitExceededError :: "error option \<Rightarrow> bool" where
  "IsFirewallRuleLimitExceededError err =
     (case Option.bind err errors_As of
        None \<Rightarrow> False
      | Some e \<Rightarrow> Code e = ErrFirewallRuleLimitExceeded)"

definition IsInvalidInputError :: "error option \<Rightarrow> bool" where
  "IsInvalidInputError err = IsAPIError err ErrInvalidInput"

definition IsPolicyError :: "error option \<Rightarrow> bool" where
  "IsPolicyError err =
     (case Option.bind err errors_As of None \<Rightarrow> False | Some e \<Rightarrow> Kind e = ErrKindPolicy)"

lemmas error_predicates =
  IsAPIError_def IsRateLimitError_def IsNotFoundError_def IsFirewallInProcessError_def
  IsUnauthorizedError_def IsFirewallRuleLimitExceededError_def IsInvalidInputError_def
  IsPolicyError_def

text \<open>
  The classes that go by a code exclude one another, and every class but the policy errors is told by
  a code that the package names.
\<close>

lemma code_classes_exclusive:
  "length (filter (\<lambda>P. P err)
     [IsRateLimitError, IsNotFoundError, IsFirewallInProcessError, IsInvalidInputError,
      IsUnauthorizedError, IsFirewallRuleLimitExceededError]) \<le> 1"
  by (cases "Option.bind err errors_As") (auto simp: error_predicates)

lemma classified_code:
  assumes "\<exists>P \<in> {IsRateLimitError, IsNotFoundError, IsFirewallInProcessError, IsInvalidInputError,
      IsUnauthorizedError, IsFirewallRuleLimitExceededError}. P err"
  shows "\<exists>e. Option.bind err errors_As = Some e \<and> Code e \<in> set ErrorCodes"
  using assms by (auto simp: error_predicates ErrorCodes_def split: option.splits)

text \<open>The first *Error of a chain is an *Error, and wrapping does not change which one it is.\<close>

lemma errors_As_is_HError: "errors_As e = Some h \<Longrightarrow> \<exists>k c st m ca. h = HError k c st m ca"
  by (induction e) auto

fun wrap_all :: "string list \<Rightarrow> error \<Rightarrow> error" where
  "wrap_all [] e = e"
| "wrap_all (p # ps) e = Wrapped p (wrap_all ps e)"

lemma errors_As_wrap_all [simp]: "errors_As (wrap_all ps e) = errors_As e"
  by (induction ps) auto

lemma Error_str_wrap_all: "Error_str (wrap_all ps e) = concat ps @ Error_str e"
  by (induction ps) auto

end
