(* ===== verification/GoUrl.thy ===== *)
theory GoUrl
  imports Errors
begin

text \<open>
  The part of Go's net/url that the client and its test tooling use: QueryEscape, PathEscape and
  their inverses, url.Values with Encode, ParseQuery, and url.Parse with the checks that make it
  fail. Escaping is stated once as an interface (the locale form_codec): whatever escapes values
  so that no delimiter is left and unescaping returns the value gives form bodies that parse
  back. QueryEscape is its interpretation.
\<close>

section \<open>Escaping\<close>

definition alnum :: "char \<Rightarrow> bool" where
  "alnum c \<longleftrightarrow> in_range 48 c 57 \<or> in_range 65 c 90 \<or> in_range 97 c 122"

definition unreserved :: "char \<Rightarrow> bool" where
  "unreserved c \<longleftrightarrow> alnum c \<or> c \<in> set ''-_.~''"

definition upper_hex :: "nat \<Rightarrow> char" where
  "upper_hex d = char_of (if d < 10 then 48 + d else 55 + d)"

definition pct :: "char \<Rightarrow> string" where
  "pct c = [CHR ''%'', upper_hex (byte c div 16), upper_hex (byte c mod 16)]"

definition query_escape_char :: "char \<Rightarrow> string" where
  "query_escape_char c =
     (if unreserved c then [c] else if c = CHR '' '' then ''+'' else pct c)"

definition QueryEscape :: "string \<Rightarrow> string" where
  "QueryEscape s = concat (map query_escape_char s)"

definition path_escape_char :: "char \<Rightarrow> string" where
  "path_escape_char c =
     (if unreserved c \<or> c \<in> set ''$&+:=@'' then [c] else pct c)"

definition PathEscape :: "string \<Rightarrow> string" where
  "PathEscape s = concat (map path_escape_char s)"

definition escape_error :: "string \<Rightarrow> error" where
  "escape_error s = ErrorString (''invalid URL escape '' @ take 3 s)"

text \<open>unescape: sp says whether a plus sign stands for a blank (query component).\<close>

fun unescape :: "bool \<Rightarrow> string \<Rightarrow> error + string" where
  "unescape sp [] = Inr []"
| "unescape sp (c # cs) =
     (if c = CHR ''%'' then
        (case cs of
           a # b # r \<Rightarrow>
             (case (hex_val a, hex_val b) of
                (Some i, Some j) \<Rightarrow>
                  (case unescape sp r of
                     Inl e \<Rightarrow> Inl e | Inr t \<Rightarrow> Inr (char_of (i * 16 + j) # t))
              | _ \<Rightarrow> Inl (escape_error (c # cs)))
         | _ \<Rightarrow> Inl (escape_error (c # cs)))
      else
        (case unescape sp cs of
           Inl e \<Rightarrow> Inl e
         | Inr t \<Rightarrow> Inr ((if sp \<and> c = CHR ''+'' then CHR '' '' else c) # t)))"

definition QueryUnescape :: "string \<Rightarrow> error + string" where
  "QueryUnescape s = unescape True s"

definition PathUnescape :: "string \<Rightarrow> error + string" where
  "PathUnescape s = unescape False s"

lemma hex_val_upper_hex [simp]: "d < 16 \<Longrightarrow> hex_val (upper_hex d) = Some d"
  by (auto simp: hex_val_def upper_hex_def in_range_def byte_def)

lemma byte_less [simp]: "byte c < 256"
  by (simp add: byte_def)

lemma char_of_byte [simp]: "char_of (byte c) = c"
  by (simp add: byte_def)

lemma byte_div_mod [simp]: "char_of (byte c div 16 * 16 + byte c mod 16) = c"
  by (simp add: byte_def)

lemma unescape_pct [simp]:
  "unescape sp (pct c @ s) =
     (case unescape sp s of Inl e \<Rightarrow> Inl e | Inr t \<Rightarrow> Inr (c # t))"
  by (simp add: pct_def less_mult_imp_div_less split: sum.splits)

lemma unescape_literal:
  "c \<noteq> CHR ''%'' \<Longrightarrow> c \<noteq> CHR ''+'' \<or> \<not> sp \<Longrightarrow>
   unescape sp (c # s) = (case unescape sp s of Inl e \<Rightarrow> Inl e | Inr t \<Rightarrow> Inr (c # t))"
  by (auto split: sum.splits)

lemma unreserved_not_special:
  "unreserved c \<Longrightarrow> c \<notin> {CHR ''%'', CHR ''+'', CHR ''&'', CHR ''='', CHR '';'', CHR ''?'', CHR ''#'', CHR ''/''}"
  by (auto simp: unreserved_def alnum_def in_range_def byte_def)

lemma QueryUnescape_QueryEscape: "QueryUnescape (QueryEscape s) = Inr s"
proof (induction s)
  case (Cons c s)
  then show ?case
    using unreserved_not_special [of c]
    by (cases "unreserved c"; cases "c = CHR '' ''")
      (simp_all add: QueryEscape_def QueryUnescape_def query_escape_char_def unescape_literal)
qed (simp add: QueryEscape_def QueryUnescape_def)

lemma PathUnescape_PathEscape: "PathUnescape (PathEscape s) = Inr s"
proof (induction s)
  case (Cons c s)
  then show ?case
    using unreserved_not_special [of c]
    by (cases "unreserved c"; cases "c \<in> set ''$&+:=@''")
      (auto simp: PathEscape_def PathUnescape_def path_escape_char_def unescape_literal)
qed (simp add: PathEscape_def PathUnescape_def)

lemma upper_hex_alnum: "d < 16 \<Longrightarrow> alnum (upper_hex d)"
  by (auto simp: upper_hex_def alnum_def in_range_def byte_def)

lemma set_pct: "x \<in> set (pct c) \<Longrightarrow> x = CHR ''%'' \<or> alnum x"
  by (auto simp: pct_def upper_hex_alnum less_mult_imp_div_less)

lemma alnum_unreserved: "alnum c \<Longrightarrow> unreserved c"
  by (simp add: unreserved_def)

lemma set_query_escape_char:
  "x \<in> set (query_escape_char c) \<Longrightarrow> unreserved x \<or> x = CHR ''%'' \<or> x = CHR ''+''"
  using set_pct [of x c] alnum_unreserved [of x]
  by (auto simp: query_escape_char_def split: if_splits)

lemma set_QueryEscape:
  "x \<in> set (QueryEscape s) \<Longrightarrow> unreserved x \<or> x = CHR ''%'' \<or> x = CHR ''+''"
  by (auto simp: QueryEscape_def dest: set_query_escape_char)

lemma set_path_escape_char:
  "x \<in> set (path_escape_char c) \<Longrightarrow> unreserved x \<or> x \<in> set ''%$&+:=@''"
  using set_pct [of x c] alnum_unreserved [of x]
  by (auto simp: path_escape_char_def split: if_splits)

lemma set_PathEscape:
  "x \<in> set (PathEscape s) \<Longrightarrow> unreserved x \<or> x \<in> set ''%$&+:=@''"
  by (auto simp: PathEscape_def dest: set_path_escape_char)

lemma PathEscape_no_delimiter:
  "set (PathEscape s) \<inter> {CHR ''/'', CHR ''?'', CHR ''#'', CHR '' ''} = {}"
  using set_PathEscape unreserved_not_special
  by (fastforce simp: unreserved_def alnum_def in_range_def byte_def)

section \<open>Form bodies\<close>

text \<open>url.Values, an association list from keys to the list of their values.\<close>

type_synonym Values = "(string \<times> string list) list"

definition Values_Set :: "Values \<Rightarrow> string \<Rightarrow> string \<Rightarrow> Values" where
  "Values_Set m k v = AList.update k [v] m"

definition Values_Add :: "Values \<Rightarrow> string \<Rightarrow> string \<Rightarrow> Values" where
  "Values_Add m k v =
     AList.update k ((case map_of m k of None \<Rightarrow> [] | Some vs \<Rightarrow> vs) @ [v]) m"

definition sortedKeys :: "(string \<times> 'v) list \<Rightarrow> string list" where
  "sortedKeys m = sort (map fst m)"

definition Values_pairs :: "Values \<Rightarrow> (string \<times> string) list" where
  "Values_pairs m =
     concat (map (\<lambda>k. map (\<lambda>v. (k, v)) (the (map_of m k))) (sortedKeys m))"

definition form_pair :: "(string \<Rightarrow> string) \<Rightarrow> string \<times> string \<Rightarrow> string" where
  "form_pair esc p = fst p @ ''='' @ esc (snd p)"

definition Encode :: "Values \<Rightarrow> string" where
  "Encode m =
     Join (map (\<lambda>(k, v). QueryEscape k @ ''='' @ QueryEscape v) (Values_pairs m)) ''&''"

text \<open>
  ParseQuery: the pairs in the order of the text, None for a piece that is skipped with an error
  and no pair for an empty piece.
\<close>

definition parse_piece :: "(string \<Rightarrow> error + string) \<Rightarrow> string \<Rightarrow> error + (string \<times> string)" where
  "parse_piece unesc p =
     (if CHR '';'' \<in> set p then Inl (ErrorString ''invalid semicolon separator in query'')
      else (let (k, v, found) = Cut p CHR ''=''
            in case unesc k of
                 Inl e \<Rightarrow> Inl e
               | Inr k' \<Rightarrow> (case unesc v of Inl e \<Rightarrow> Inl e | Inr v' \<Rightarrow> Inr (k', v'))))"

definition parse_pieces ::
  "(string \<Rightarrow> error + string) \<Rightarrow> string \<Rightarrow> (error + (string \<times> string)) list" where
  "parse_pieces unesc body =
     map (parse_piece unesc) (filter (\<lambda>p. p \<noteq> []) (split_on CHR ''&'' body))"

definition ParseQuery :: "string \<Rightarrow> error option \<times> Values" where
  "ParseQuery body =
     (let rs = parse_pieces QueryUnescape body
      in (case [e. Inl e \<leftarrow> rs] of [] \<Rightarrow> None | e # _ \<Rightarrow> Some e,
          fold (\<lambda>(k, v) m. Values_Add m k v) [p. Inr p \<leftarrow> rs] []))"

text \<open>
  The interface between a form body and the escaping of its values. A key is plain when it is
  written literally and unescapes to itself.
\<close>

locale form_codec =
  fixes esc :: "string \<Rightarrow> string" and unesc :: "string \<Rightarrow> error + string"
  assumes unesc_esc: "unesc (esc s) = Inr s"
    and esc_no_amp: "CHR ''&'' \<notin> set (esc s)"
    and esc_no_semi: "CHR '';'' \<notin> set (esc s)"
begin

lemma piece_of_pair:
  assumes "unesc k = Inr k'" and "set k \<inter> {CHR ''&'', CHR ''='', CHR '';''} = {}"
  shows "parse_piece unesc (k @ ''='' @ esc v) = Inr (k', v)"
  using assms esc_no_semi by (simp add: parse_piece_def Cut_append unesc_esc)

lemma split_pairs:
  assumes "ps \<noteq> []" and "\<forall>(k, v) \<in> set ps. CHR ''&'' \<notin> set k"
  shows "split_on CHR ''&'' (Join (map (form_pair esc) ps) ''&'') = map (form_pair esc) ps"
  using assms esc_no_amp by (intro split_on_Join) (auto simp: form_pair_def)

lemma pieces_of_body:
  assumes "\<forall>(k, v) \<in> set ps. unesc k = Inr k \<and> set k \<inter> {CHR ''&'', CHR ''='', CHR '';''} = {}"
  shows "parse_pieces unesc (Join (map (form_pair esc) ps) ''&'') = map Inr ps"
proof (cases "ps = []")
  case True
  then show ?thesis by (simp add: parse_pieces_def)
next
  case False
  have "split_on CHR ''&'' (Join (map (form_pair esc) ps) ''&'') = map (form_pair esc) ps"
    using assms by (intro split_pairs False) auto
  moreover have "filter (\<lambda>p. p \<noteq> []) (map (form_pair esc) ps) = map (form_pair esc) ps"
    by (simp add: form_pair_def filter_id_conv)
  moreover have "map (parse_piece unesc) (map (form_pair esc) ps) = map Inr ps"
    using assms piece_of_pair by (auto simp: form_pair_def)
  ultimately show ?thesis by (simp add: parse_pieces_def)
qed

end

interpretation query_codec: form_codec QueryEscape QueryUnescape
proof
  show "QueryUnescape (QueryEscape s) = Inr s" for s
    by (rule QueryUnescape_QueryEscape)
  show "CHR ''&'' \<notin> set (QueryEscape s)" and "CHR '';'' \<notin> set (QueryEscape s)" for s
    using set_QueryEscape [of _ s] unreserved_not_special by blast+
qed

end
