(* ===== verification/UrlParse.thy ===== *)
theory UrlParse
  imports GoUrl
begin

text \<open>
  url.Parse of Go 1.26, as far as the client uses it: which texts are rejected, and the
  scheme, user, host, path, query and fragment of the others. The text between the brackets of
  an IP literal host is not checked any further.
\<close>

record URL =
  Scheme :: string
  Opaque :: string
  User :: "(string \<times> string option) option"
  Host :: string
  Path :: string
  RawQuery :: string
  ForceQuery :: bool
  Fragment :: string
  RawFragment :: string

definition empty_URL :: URL where
  "empty_URL = \<lparr>Scheme = [], Opaque = [], User = None, Host = [], Path = [], RawQuery = [],
     ForceQuery = False, Fragment = [], RawFragment = []\<rparr>"

abbreviation url_error :: "string \<Rightarrow> error + 'a" where
  "url_error s \<equiv> Inl (ErrorString s)"

definition is_alpha :: "char \<Rightarrow> bool" where
  "is_alpha c \<longleftrightarrow> in_range 65 c 90 \<or> in_range 97 c 122"

definition to_lower :: "char \<Rightarrow> char" where
  "to_lower c = (if in_range 65 c 90 then char_of (byte c + 32) else c)"

definition ctl_byte :: "char \<Rightarrow> bool" where
  "ctl_byte c \<longleftrightarrow> byte c < 0x20 \<or> byte c = 0x7F"

text \<open>getScheme: the characters read so far are the first argument, in order.\<close>

fun scheme_loop :: "string \<Rightarrow> string \<Rightarrow> string \<Rightarrow> error + (string \<times> string)" where
  "scheme_loop seen [] whole = Inr ([], whole)"
| "scheme_loop seen (c # cs) whole =
     (if is_alpha c then scheme_loop (seen @ [c]) cs whole
      else if in_range 48 c 57 \<or> c \<in> set ''+-.'' then
        (if seen = [] then Inr ([], whole) else scheme_loop (seen @ [c]) cs whole)
      else if c = CHR '':'' then
        (if seen = [] then url_error ''missing protocol scheme'' else Inr (seen, cs))
      else Inr ([], whole))"

definition getScheme :: "string \<Rightarrow> error + (string \<times> string)" where
  "getScheme s = scheme_loop [] s s"

definition validOptionalPort :: "string \<Rightarrow> bool" where
  "validOptionalPort p =
     (case p of [] \<Rightarrow> True | c # cs \<Rightarrow> c = CHR '':'' \<and> list_all (\<lambda>d. in_range 48 d 57) cs)"

text \<open>The characters a host may hold unescaped, and the escapes allowed in it.\<close>

definition host_char :: "char \<Rightarrow> bool" where
  "host_char c \<longleftrightarrow> 0x80 \<le> byte c \<or> unreserved c
     \<or> c \<in> set ''!$&()*+,;=:[]<>'' \<or> c = CHR 0x27 \<or> c = CHR 0x22"

fun host_ok :: "string \<Rightarrow> bool" where
  "host_ok [] = True"
| "host_ok (c # cs) =
     (if c = CHR ''%'' then
        (case cs of
           a # b # r \<Rightarrow>
             (case (hex_val a, hex_val b) of
                (Some i, Some j) \<Rightarrow> (8 \<le> i \<or> (a = CHR ''2'' \<and> b = CHR ''5'')) \<and> host_ok r
              | _ \<Rightarrow> False)
         | _ \<Rightarrow> False)
      else host_char c \<and> host_ok cs)"

definition drop_until_last :: "char \<Rightarrow> string \<Rightarrow> string" where
  "drop_until_last c s = rev (takeWhile (\<lambda>x. x \<noteq> c) (rev s))"

definition parseHost :: "string \<Rightarrow> error + string" where
  "parseHost host =
     (if CHR ''['' \<in> set host then
        (if hd host \<noteq> CHR ''['' then url_error ''invalid IP-literal''
         else if CHR '']'' \<notin> set host then url_error ''missing ] in host''
         else if \<not> validOptionalPort (drop_until_last CHR '']'' host) then url_error ''invalid port after host''
         else if \<not> host_ok host then url_error ''invalid host''
         else unescape False host)
      else
        (let (h, p, colon) = Cut host CHR '':''
         in if colon \<and> \<not> validOptionalPort (CHR '':'' # p) then url_error ''invalid port after host''
            else if \<not> host_ok host then url_error ''invalid character in host name''
            else unescape False host))"

definition validUserinfo :: "string \<Rightarrow> bool" where
  "validUserinfo s = list_all (\<lambda>c. alnum c \<or> c \<in> set ''-._:~!$&()*+,;=%@'' \<or> c = CHR 0x27) s"

text \<open>parseAuthority splits at the last at sign.\<close>

definition parseAuthority ::
  "string \<Rightarrow> error + ((string \<times> string option) option \<times> string)" where
  "parseAuthority a =
     (if CHR ''@'' \<notin> set a then
        (case parseHost a of Inl e \<Rightarrow> Inl e | Inr h \<Rightarrow> Inr (None, h))
      else
        (let host = drop_until_last CHR ''@'' a;
             userinfo = take (length a - length host - 1) a
         in case parseHost host of
              Inl e \<Rightarrow> Inl e
            | Inr h \<Rightarrow>
               (if \<not> validUserinfo userinfo then url_error ''net/url: invalid userinfo''
                else
                  (let (u, p, colon) = Cut userinfo CHR '':''
                   in case unescape False u of
                        Inl e \<Rightarrow> Inl e
                      | Inr u' \<Rightarrow>
                         (if colon then
                            (case unescape False p of
                               Inl e \<Rightarrow> Inl e | Inr p' \<Rightarrow> Inr (Some (u', Some p'), h))
                          else Inr (Some (u', None), h))))))"

definition setPath :: "URL \<Rightarrow> string \<Rightarrow> error + URL" where
  "setPath u p = (case unescape False p of Inl e \<Rightarrow> Inl e | Inr q \<Rightarrow> Inr (u\<lparr>Path := q\<rparr>))"

definition fragment_escape :: "string \<Rightarrow> string" where
  "fragment_escape s =
     concat (map (\<lambda>c. if unreserved c \<or> c \<in> set ''$&+,/:;=?@!()*'' then [c] else pct c) s)"

definition setFragment :: "URL \<Rightarrow> string \<Rightarrow> error + URL" where
  "setFragment u f =
     (case unescape False f of
        Inl e \<Rightarrow> Inl e
      | Inr g \<Rightarrow> Inr (u\<lparr>Fragment := g, RawFragment := (if fragment_escape g = f then [] else f)\<rparr>))"

text \<open>What follows the scheme, once a query has been cut off.\<close>

definition parse_rest :: "URL \<Rightarrow> string \<Rightarrow> error + URL" where
  "parse_rest u rest =
     (if \<not> HasPrefix rest ''/'' \<and> Scheme u \<noteq> [] then Inr (u\<lparr>Opaque := rest\<rparr>)
      else if \<not> HasPrefix rest ''/'' \<and> CHR '':'' \<in> set (fst (Cut rest CHR ''/'')) then
        url_error ''first path segment in URL cannot contain colon''
      else if (Scheme u \<noteq> [] \<or> \<not> HasPrefix rest ''///'') \<and> HasPrefix rest ''//'' then
        (let (authority, path, slash) = Cut (drop 2 rest) CHR ''/''
         in case parseAuthority authority of
              Inl e \<Rightarrow> Inl e
            | Inr (user, host) \<Rightarrow>
               setPath (u\<lparr>User := user, Host := host\<rparr>) (if slash then CHR ''/'' # path else []))
      else setPath u rest)"

definition parse_no_fragment :: "string \<Rightarrow> error + URL" where
  "parse_no_fragment s =
     (if list_ex ctl_byte s then url_error ''net/url: invalid control character in URL''
      else if s = ''*'' then Inr (empty_URL\<lparr>Path := ''*''\<rparr>)
      else
        (case getScheme s of
           Inl e \<Rightarrow> Inl e
         | Inr (scheme, rest) \<Rightarrow>
            (let u = empty_URL\<lparr>Scheme := map to_lower scheme\<rparr>
             in if HasSuffix rest ''?'' \<and> count_list rest CHR ''?'' = 1
                then parse_rest (u\<lparr>ForceQuery := True\<rparr>) (take (length rest - 1) rest)
                else (let (r, q, found) = Cut rest CHR ''?''
                      in parse_rest (u\<lparr>RawQuery := q\<rparr>) r))))"

definition url_Parse :: "string \<Rightarrow> error + URL" where
  "url_Parse raw =
     (let (s, frag, found) = Cut raw CHR ''#''
      in case parse_no_fragment s of
           Inl e \<Rightarrow> Inl (Wrapped (''parse '' @ raw @ '': '') e)
         | Inr u \<Rightarrow> (if frag = [] then Inr u else setFragment u frag))"

end
