(* ===== verification/GoJson.thy ===== *)
theory GoJson
  imports Errors
begin

text \<open>
  The part of Go's encoding/json that the client uses. A document is first cut into tokens,
  then a pushdown automaton with an explicit stack of open arrays and objects (as the scanner of
  encoding/json) builds the value; nesting deeper than 10000 is an error, as in Go. A number keeps
  its literal. Decoding follows the target type: a decoder takes the value and what the target
  holds, because null and absent members leave a target unchanged. Members of a struct are
  matched by name up to case folding, and a later member overwrites an earlier one.
\<close>

section \<open>Bytes and UTF-8\<close>

definition cont :: "char \<Rightarrow> bool" where "cont c = in_range 0x80 c 0xBF"

text \<open>The length of the valid encoding at the head of a byte string, 0 if there is none.\<close>

definition utf8_seq :: "string \<Rightarrow> nat" where
  "utf8_seq s =
     (case s of [] \<Rightarrow> 0 | a # r \<Rightarrow>
       if in_range 0 a 0x7F then 1
       else (case r of [] \<Rightarrow> 0 | b # r2 \<Rightarrow>
         if in_range 0xC2 a 0xDF \<and> cont b then 2
         else (case r2 of [] \<Rightarrow> 0 | c # r3 \<Rightarrow>
           if in_range 0xE0 a 0xEF \<and> cont c \<and>
              in_range (if byte a = 0xE0 then 0xA0 else 0x80) b (if byte a = 0xED then 0x9F else 0xBF)
           then 3
           else (case r3 of [] \<Rightarrow> 0 | d # r4 \<Rightarrow>
             if in_range 0xF0 a 0xF4 \<and> cont c \<and> cont d \<and>
                in_range (if byte a = 0xF0 then 0x90 else 0x80) b (if byte a = 0xF4 then 0x8F else 0xBF)
             then 4 else 0))))"

definition replacement :: string where "replacement = [CHR 0xEF, CHR 0xBF, CHR 0xBD]"

definition utf8_enc :: "nat \<Rightarrow> string" where
  "utf8_enc n =
     (if n < 0x80 then [char_of n]
      else if n < 0x800 then [char_of (0xC0 + n div 64), char_of (0x80 + n mod 64)]
      else if n < 0x10000 then
        [char_of (0xE0 + n div 4096), char_of (0x80 + n div 64 mod 64), char_of (0x80 + n mod 64)]
      else [char_of (0xF0 + n div 262144), char_of (0x80 + n div 4096 mod 64),
            char_of (0x80 + n div 64 mod 64), char_of (0x80 + n mod 64)])"

definition hex4 :: "char \<Rightarrow> char \<Rightarrow> char \<Rightarrow> char \<Rightarrow> nat option" where
  "hex4 a b c d =
     (case (hex_val a, hex_val b, hex_val c, hex_val d) of
        (Some i, Some j, Some k, Some l) \<Rightarrow> Some (((i * 16 + j) * 16 + k) * 16 + l)
      | _ \<Rightarrow> None)"

section \<open>Tokens\<close>

datatype tok =
  TLBrace | TRBrace | TLBrack | TRBrack | TColon | TComma
| TStr string | TNum string | TNull | TTrue | TFalse

abbreviation (input) quote_char :: char where "quote_char \<equiv> CHR 0x22"
abbreviation (input) backslash :: char where "backslash \<equiv> CHR 0x5C"

definition simple_escape :: "char \<Rightarrow> char option" where
  "simple_escape c =
     map_of [(CHR ''b'', CHR 0x08), (CHR ''f'', CHR 0x0C), (CHR ''n'', CHR 0x0A),
             (CHR ''r'', CHR 0x0D), (CHR ''t'', CHR 0x09), (backslash, backslash),
             (CHR ''/'', CHR ''/''), (quote_char, quote_char)] c"

text \<open>The text between the quotes of a string literal, and what follows the closing quote.\<close>

fun lex_str :: "string \<Rightarrow> (string \<times> string) option" where
  "lex_str [] = None"
| "lex_str (c # cs) =
     (if c = quote_char then Some ([], cs)
      else if c = backslash then
        (case cs of
           [] \<Rightarrow> None
         | e # r \<Rightarrow>
            (if simple_escape e \<noteq> None then
               map_option (\<lambda>(t, r'). (c # e # t, r')) (lex_str r)
             else if e = CHR ''u'' then
               (case r of
                  h1 # h2 # h3 # h4 # r' \<Rightarrow>
                    (if hex4 h1 h2 h3 h4 \<noteq> None then
                       map_option (\<lambda>(t, q). (c # e # h1 # h2 # h3 # h4 # t, q)) (lex_str r')
                     else None)
                | _ \<Rightarrow> None)
             else None))
      else if byte c < 0x20 then None
      else map_option (\<lambda>(t, r). (c # t, r)) (lex_str cs))"

lemma lex_str_shorter: "lex_str s = Some (t, r) \<Longrightarrow> length r < length s"
proof (induction s arbitrary: t r rule: length_induct)
  case (1 s)
  show ?case
  proof (cases s)
    case (Cons c cs)
    with 1 show ?thesis
      by (auto split: if_splits list.splits) (fastforce simp: less_Suc_eq)+
  qed (use 1 in simp)
qed

text \<open>
  unquote: the bytes a string literal denotes. A lone surrogate, and each byte that is not part
  of valid UTF-8, becomes U+FFFD.
\<close>

fun unquote :: "string \<Rightarrow> string" where
  "unquote [] = []"
| "unquote (c # cs) =
     (if c = backslash then
        (case cs of
           [] \<Rightarrow> []
         | e # r \<Rightarrow>
            (case simple_escape e of
               Some d \<Rightarrow> d # unquote r
             | None \<Rightarrow>
                (case r of
                   h1 # h2 # h3 # h4 # r' \<Rightarrow>
                     (case hex4 h1 h2 h3 h4 of
                        None \<Rightarrow> unquote r'
                      | Some n \<Rightarrow>
                         (if 0xD800 \<le> n \<and> n < 0xDC00 then
                            (case r' of
                               b # u # k1 # k2 # k3 # k4 # r'' \<Rightarrow>
                                 (case hex4 k1 k2 k3 k4 of
                                    Some m \<Rightarrow>
                                      (if b = backslash \<and> u = CHR ''u'' \<and> 0xDC00 \<le> m \<and> m < 0xE000
                                       then utf8_enc (0x10000 + (n - 0xD800) * 0x400 + (m - 0xDC00))
                                              @ unquote r''
                                       else replacement @ unquote r')
                                  | None \<Rightarrow> replacement @ unquote r')
                             | _ \<Rightarrow> replacement @ unquote r')
                          else if 0xDC00 \<le> n \<and> n < 0xE000 then replacement @ unquote r'
                          else utf8_enc n @ unquote r'))
                 | _ \<Rightarrow> [])))
      else
        (case utf8_seq (c # cs) of
           0 \<Rightarrow> replacement @ unquote cs
         | Suc k \<Rightarrow> c # take k cs @ unquote (drop k cs)))"

section \<open>Numbers and the token list\<close>

definition is_digit :: "char \<Rightarrow> bool" where "is_digit c = in_range 48 c 57"

definition scan_digits :: "string \<Rightarrow> (string \<times> string) option" where
  "scan_digits s =
     (let d = takeWhile is_digit s in if d = [] then None else Some (d, drop (length d) s))"

definition scan_int :: "string \<Rightarrow> (string \<times> string) option" where
  "scan_int s =
     (case s of
        [] \<Rightarrow> None
      | c # cs \<Rightarrow> if c = CHR ''0'' then Some ([c], cs) else scan_digits s)"

definition scan_frac :: "string \<Rightarrow> (string \<times> string) option" where
  "scan_frac s =
     (case s of
        c # cs \<Rightarrow>
          if c = CHR ''.'' then map_option (\<lambda>(d, r). (c # d, r)) (scan_digits cs) else Some ([], s)
      | [] \<Rightarrow> Some ([], s))"

definition scan_exp :: "string \<Rightarrow> (string \<times> string) option" where
  "scan_exp s =
     (case s of
        c # cs \<Rightarrow>
          if c = CHR ''e'' \<or> c = CHR ''E'' then
            (case cs of
               g # r \<Rightarrow>
                 if g = CHR ''+'' \<or> g = CHR ''-''
                 then map_option (\<lambda>(d, q). (c # g # d, q)) (scan_digits r)
                 else map_option (\<lambda>(d, q). (c # d, q)) (scan_digits cs)
             | [] \<Rightarrow> None)
          else Some ([], s)
      | [] \<Rightarrow> Some ([], s))"

definition scan_unsigned :: "string \<Rightarrow> (string \<times> string) option" where
  "scan_unsigned s =
     (case scan_int s of None \<Rightarrow> None | Some (i, r1) \<Rightarrow>
       (case scan_frac r1 of None \<Rightarrow> None | Some (f, r2) \<Rightarrow>
         (case scan_exp r2 of None \<Rightarrow> None | Some (e, r3) \<Rightarrow> Some (i @ f @ e, r3))))"

definition scan_number :: "string \<Rightarrow> (string \<times> string) option" where
  "scan_number s =
     (case s of
        [] \<Rightarrow> None
      | c # cs \<Rightarrow>
         if c = CHR ''-'' then map_option (\<lambda>(n, r). (c # n, r)) (scan_unsigned cs)
         else scan_unsigned s)"

lemma scan_digits_shorter: "scan_digits s = Some (d, r) \<Longrightarrow> length r < length s"
  by (auto simp: scan_digits_def Let_def split: if_splits)
     (metis diff_less length_greater_0_conv takeWhile.simps(1))

lemma scan_unsigned_shorter: "scan_unsigned s = Some (d, r) \<Longrightarrow> length r < length s"
  by (auto simp: scan_unsigned_def scan_int_def scan_frac_def scan_exp_def
      split: option.splits list.splits if_splits dest!: scan_digits_shorter)

lemma scan_number_shorter: "scan_number s = Some (d, r) \<Longrightarrow> length r < length s"
  by (auto simp: scan_number_def split: list.splits if_splits dest!: scan_unsigned_shorter)

definition literals :: "(string \<times> tok) list" where
  "literals =
     [(''{'', TLBrace), (''}'', TRBrace), (''['', TLBrack), (CHR '']'' # [], TRBrack),
      ('':'', TColon), ('','', TComma), (''null'', TNull), (''true'', TTrue), (''false'', TFalse)]"

fun lex_literal :: "(string \<times> tok) list \<Rightarrow> string \<Rightarrow> (tok \<times> string) option" where
  "lex_literal [] s = None"
| "lex_literal ((w, t) # ws) s =
     (if w \<noteq> [] \<and> HasPrefix s w then Some (t, drop (length w) s) else lex_literal ws s)"

lemma lex_literal_shorter: "lex_literal ws s = Some (t, r) \<Longrightarrow> length r < length s"
  by (induction ws) (auto simp: HasPrefix_drop_shorter split: if_splits)

definition json_space :: "char \<Rightarrow> bool" where
  "json_space c \<longleftrightarrow> c \<in> set [CHR 0x20, CHR 0x09, CHR 0x0A, CHR 0x0D]"

definition lex_tok :: "string \<Rightarrow> (tok \<times> string) option" where
  "lex_tok s =
     (case s of
        [] \<Rightarrow> None
      | c # cs \<Rightarrow>
         if c = quote_char then map_option (\<lambda>(t, r). (TStr (unquote t), r)) (lex_str cs)
         else if is_digit c \<or> c = CHR ''-'' then map_option (\<lambda>(n, r). (TNum n, r)) (scan_number s)
         else lex_literal literals s)"

lemma lex_tok_shorter: "lex_tok s = Some (t, r) \<Longrightarrow> length r < length s"
  by (auto simp: lex_tok_def split: list.splits if_splits
      dest!: scan_number_shorter lex_literal_shorter lex_str_shorter)

function tokens :: "string \<Rightarrow> tok list option" where
  "tokens s =
     (case s of
        [] \<Rightarrow> Some []
      | c # cs \<Rightarrow>
         if json_space c then tokens cs
         else (case lex_tok s of
                 None \<Rightarrow> None
               | Some (t, r) \<Rightarrow> map_option ((#) t) (tokens r)))"
  by pat_completeness auto
termination
  by (relation "measure length") (auto dest: lex_tok_shorter)

declare tokens.simps [simp del]

section \<open>Values and the parser\<close>

datatype json =
  JNull | JBool bool | JNum string | JStr string | JArr "json list" | JObj "(string \<times> json) list"

text \<open>
  A frame is an open container: the elements so far, or the members so far and the key whose
  value is being read, both in reverse order. The mode says what may come next.
\<close>

datatype frame = FArr "json list" | FObj "(string \<times> json) list" string

datatype mode =
  MValue | MFirst | MElemEnd "json list" | MKeyOrEnd | MKey "(string \<times> json) list"
| MColon "(string \<times> json) list" string | MMemberEnd "(string \<times> json) list" | MEnd json

definition max_depth :: nat where "max_depth = 10000"

fun complete :: "json \<Rightarrow> frame list \<Rightarrow> mode \<times> frame list" where
  "complete v [] = (MEnd v, [])"
| "complete v (FArr xs # st) = (MElemEnd (v # xs), st)"
| "complete v (FObj ms k # st) = (MMemberEnd ((k, v) # ms), st)"

text \<open>
  MFirst follows an opening bracket and MKeyOrEnd an opening brace. The depth of the
  document is the length of the stack, plus one when the innermost container is held in the mode.
\<close>

fun start_value :: "tok \<Rightarrow> frame list \<Rightarrow> (mode \<times> frame list) option" where
  "start_value TNull st = Some (complete JNull st)"
| "start_value TTrue st = Some (complete (JBool True) st)"
| "start_value TFalse st = Some (complete (JBool False) st)"
| "start_value (TNum n) st = Some (complete (JNum n) st)"
| "start_value (TStr s) st = Some (complete (JStr s) st)"
| "start_value TLBrack st = (if length st < max_depth then Some (MFirst, st) else None)"
| "start_value TLBrace st = (if length st < max_depth then Some (MKeyOrEnd, st) else None)"
| "start_value _ st = None"

fun parse_step :: "tok \<Rightarrow> mode \<times> frame list \<Rightarrow> (mode \<times> frame list) option" where
  "parse_step t (MValue, st) = start_value t st"
| "parse_step t (MFirst, st) =
     (if t = TRBrack then Some (complete (JArr []) st) else start_value t (FArr [] # st))"
| "parse_step t (MElemEnd xs, st) =
     (if t = TRBrack then Some (complete (JArr (rev xs)) st)
      else if t = TComma then Some (MValue, FArr xs # st) else None)"
| "parse_step t (MKeyOrEnd, st) =
     (case t of TRBrace \<Rightarrow> Some (complete (JObj []) st)
      | TStr k \<Rightarrow> Some (MColon [] k, st) | _ \<Rightarrow> None)"
| "parse_step t (MKey ms, st) = (case t of TStr k \<Rightarrow> Some (MColon ms k, st) | _ \<Rightarrow> None)"
| "parse_step t (MColon ms k, st) = (if t = TColon then Some (MValue, FObj ms k # st) else None)"
| "parse_step t (MMemberEnd ms, st) =
     (if t = TRBrace then Some (complete (JObj (rev ms)) st)
      else if t = TComma then Some (MKey ms, st) else None)"
| "parse_step t (MEnd v, st) = None"

fun parse_run :: "tok list \<Rightarrow> mode \<times> frame list \<Rightarrow> (mode \<times> frame list) option" where
  "parse_run [] s = Some s"
| "parse_run (t # ts) s = Option.bind (parse_step t s) (parse_run ts)"

definition json_parse :: "string \<Rightarrow> json option" where
  "json_parse data =
     Option.bind (tokens data) (\<lambda>ts.
       case parse_run ts (MValue, []) of Some (MEnd v, []) \<Rightarrow> Some v | _ \<Rightarrow> None)"

section \<open>Raw messages and decoding\<close>

text \<open>
  A json.RawMessage or response payload: the bytes of the response, or the text of a value
  taken out of a parsed document, of which white space and escaping style are not recorded.
\<close>

datatype raw = Wire string | Sub json

definition raw_value :: "raw \<Rightarrow> json option" where
  "raw_value r = (case r of Wire data \<Rightarrow> json_parse data | Sub v \<Rightarrow> Some v)"

type_synonym 'a decoder = "json \<Rightarrow> 'a \<Rightarrow> 'a result"

definition syntax_error :: error where "syntax_error = ErrorString ''json: syntax error''"
definition type_error :: error where
  "type_error = ErrorString ''json: cannot unmarshal value into Go type''"

text \<open>json.Unmarshal: the document is checked as a whole before anything is decoded.\<close>

definition Unmarshal :: "'a decoder \<Rightarrow> raw \<Rightarrow> 'a \<Rightarrow> 'a result" where
  "Unmarshal dec r x = (case raw_value r of None \<Rightarrow> Err syntax_error | Some j \<Rightarrow> dec j x)"

fun dec_string :: "string decoder" where
  "dec_string (JStr s) x = Ok s"
| "dec_string JNull x = Ok x"
| "dec_string _ x = Err type_error"

fun dec_bool :: "bool decoder" where
  "dec_bool (JBool b) x = Ok b"
| "dec_bool JNull x = Ok x"
| "dec_bool _ x = Err type_error"

fun dec_int :: "int decoder" where
  "dec_int (JNum n) x = (case ParseInt64 n of Inr i \<Rightarrow> Ok i | Inl e \<Rightarrow> Err type_error)"
| "dec_int JNull x = Ok x"
| "dec_int _ x = Err type_error"

text \<open>A pointer: null makes it nil, anything else decodes into a fresh or the present target.\<close>

definition dec_ptr :: "'a \<Rightarrow> 'a decoder \<Rightarrow> 'a option decoder" where
  "dec_ptr zero dec j x =
     (if j = JNull then Ok None
      else bind_result (dec j (case x of None \<Rightarrow> zero | Some y \<Rightarrow> y)) (\<lambda>y. Ok (Some y)))"

fun dec_elems :: "'a \<Rightarrow> 'a decoder \<Rightarrow> json list \<Rightarrow> 'a list result" where
  "dec_elems zero dec [] = Ok []"
| "dec_elems zero dec (j # js) =
     bind_result (dec j zero) (\<lambda>y. bind_result (dec_elems zero dec js) (\<lambda>ys. Ok (y # ys)))"

text \<open>A slice; nil and the empty slice are the same list.\<close>

definition dec_list :: "'a \<Rightarrow> 'a decoder \<Rightarrow> 'a list decoder" where
  "dec_list zero dec j x =
     (case j of JArr js \<Rightarrow> dec_elems zero dec js | JNull \<Rightarrow> Ok [] | _ \<Rightarrow> Err type_error)"

text \<open>A map with string keys, as an association list without duplicate keys.\<close>

fun dec_members ::
  "'a \<Rightarrow> 'a decoder \<Rightarrow> (string \<times> json) list \<Rightarrow> (string \<times> 'a) list \<Rightarrow> (string \<times> 'a) list result" where
  "dec_members zero dec [] m = Ok m"
| "dec_members zero dec ((k, j) # ms) m =
     bind_result (dec j zero) (\<lambda>y. dec_members zero dec ms (AList.update k y m))"

definition dec_map :: "'a \<Rightarrow> 'a decoder \<Rightarrow> (string \<times> 'a) list decoder" where
  "dec_map zero dec j x =
     (case j of JObj ms \<Rightarrow> dec_members zero dec ms x | JNull \<Rightarrow> Ok [] | _ \<Rightarrow> Err type_error)"

text \<open>
  Case folding of member names: ASCII letters, and the two other characters that fold to
  ASCII letters (the long s and the Kelvin sign).
\<close>

fun fold_name :: "string \<Rightarrow> string" where
  "fold_name [] = []"
| "fold_name (c # cs) =
     (if HasPrefix (c # cs) [CHR 0xC5, CHR 0xBF] then CHR ''S'' # fold_name (drop 1 cs)
      else if HasPrefix (c # cs) [CHR 0xE2, CHR 0x84, CHR 0xAA] then CHR ''K'' # fold_name (drop 2 cs)
      else (if in_range 97 c 122 then char_of (byte c - 32) else c) # fold_name cs)"

type_synonym 'r fields = "(string \<times> (json \<Rightarrow> 'r \<Rightarrow> 'r result)) list"

definition fld ::
  "string \<Rightarrow> 'a decoder \<Rightarrow> ('r \<Rightarrow> 'a) \<Rightarrow> (('a \<Rightarrow> 'a) \<Rightarrow> 'r \<Rightarrow> 'r)
     \<Rightarrow> string \<times> (json \<Rightarrow> 'r \<Rightarrow> 'r result)" where
  "fld name dec get upd =
     (name, \<lambda>j r. bind_result (dec j (get r)) (\<lambda>x. Ok (upd (\<lambda>_. x) r)))"

fun find_field :: "'r fields \<Rightarrow> string \<Rightarrow> (json \<Rightarrow> 'r \<Rightarrow> 'r result) option" where
  "find_field [] k = None"
| "find_field ((n, f) # fs) k = (if fold_name n = fold_name k then Some f else find_field fs k)"

fun dec_fields :: "'r fields \<Rightarrow> (string \<times> json) list \<Rightarrow> 'r \<Rightarrow> 'r result" where
  "dec_fields fs [] r = Ok r"
| "dec_fields fs ((k, j) # ms) r =
     (case find_field fs k of
        None \<Rightarrow> dec_fields fs ms r
      | Some f \<Rightarrow> bind_result (f j r) (dec_fields fs ms))"

definition dec_struct :: "'r fields \<Rightarrow> 'r decoder" where
  "dec_struct fs j r =
     (case j of JObj ms \<Rightarrow> dec_fields fs ms r | JNull \<Rightarrow> Ok r | _ \<Rightarrow> Err type_error)"

text \<open>A map[string]T keeps the last of the members with one name.\<close>

definition obj_map :: "(string \<times> json) list \<Rightarrow> (string \<times> json) list" where
  "obj_map ms = fold (\<lambda>(k, v) m. AList.update k v m) ms []"

text \<open>For documents written out in a theory: a back quote stands for a double quote.\<close>

definition json_text :: "string \<Rightarrow> string" where
  "json_text s = map (\<lambda>c. if c = CHR 0x60 then quote_char else c) s"

end
