(* ===== verification/World.thy ===== *)
theory World
  imports UrlParse GoJson
begin

text \<open>
  What surrounds the client: the clock and the context of a call, the network, and the trace
  of what the client did. The network is an arbitrary function from the requests sent so far to
  an answer (so a server may keep any state), and an answer takes some time. The context is done
  from some instant on, or never; when a timer and the context become ready at the same instant
  the choice of Go's select is an arbitrary function too. http.ParseTime is the parameter
  parse_time. The trace lists, in order, the requests sent, the answers received, the response
  bodies closed, the sleeps started and the log records written.
\<close>

section \<open>Requests, responses, readers\<close>

text \<open>A reader: the bytes it yields, and the error it ends with, None for io.EOF.\<close>

type_synonym reader = "string \<times> error option"

definition ReadAll :: "reader \<Rightarrow> error + string" where
  "ReadAll r = (case snd r of None \<Rightarrow> Inr (fst r) | Some e \<Rightarrow> Inl e)"

text \<open>
  io.LimitReader with a budget of n bytes: a budget of 0 or less reads nothing, and an error after
  the budget is used up is not seen.
\<close>

definition LimitReader :: "reader \<Rightarrow> int \<Rightarrow> reader" where
  "LimitReader r n =
     (if int (length (fst r)) < n then r else (take (nat n) (fst r), None))"

type_synonym Header = "(string \<times> string list) list"

fun canon_loop :: "bool \<Rightarrow> string \<Rightarrow> string" where
  "canon_loop up [] = []"
| "canon_loop up (c # cs) =
     (if up \<and> in_range 97 c 122 then char_of (byte c - 32)
      else if \<not> up \<and> in_range 65 c 90 then char_of (byte c + 32) else c)
     # canon_loop (c = CHR ''-'') cs"

definition CanonicalHeaderKey :: "string \<Rightarrow> string" where
  "CanonicalHeaderKey k = canon_loop True k"

text \<open>Header.Get; the transport delivers headers under their canonical keys.\<close>

definition header_Get :: "Header \<Rightarrow> string \<Rightarrow> string" where
  "header_Get h k =
     (case map_of h (CanonicalHeaderKey k) of Some (v # vs) \<Rightarrow> v | _ \<Rightarrow> [])"

record request =
  Method :: string
  ReqURL :: string
  BasicAuth :: "string \<times> string"
  UserAgentHeader :: string
  ContentType :: "string option"
  ReqBody :: string

record response =
  StatusCode :: int
  RespHeader :: Header
  RespBody :: reader

definition MethodGet :: string where [simp]: "MethodGet = ''GET''"
definition MethodPost :: string where [simp]: "MethodPost = ''POST''"
definition MethodPut :: string where [simp]: "MethodPut = ''PUT''"
definition MethodDelete :: string where [simp]: "MethodDelete = ''DELETE''"

section \<open>The world of a call\<close>

text \<open>Durations and instants are nanoseconds.\<close>

definition Second :: int where "Second = 1000000000"
definition Millisecond :: int where "Millisecond = 1000000"

datatype log_record =
  LogRequest string string int int int
| LogRetry int int int int
| LogResponse int int

datatype event =
  ESend request | ERecv int | EFail | EClose | ESleep int | ELog log_record

record world =
  clock :: int
  done_at :: "int option"
  ctx_err :: error
  select_done :: "int \<Rightarrow> bool"
  transport :: "request list \<Rightarrow> nat \<times> (error + response)"
  parse_time :: "string \<Rightarrow> int option"
  trace :: "event list"

definition emit :: "event \<Rightarrow> world \<Rightarrow> world" where
  "emit e w = w\<lparr>trace := trace w @ [e]\<rparr>"

definition sent :: "event list \<Rightarrow> request list" where
  "sent tr = [r. ESend r \<leftarrow> tr]"

definition received :: "event list \<Rightarrow> nat" where
  "received tr = length [s. ERecv s \<leftarrow> tr]"

definition closed :: "event list \<Rightarrow> nat" where
  "closed tr = length [e. e \<leftarrow> tr, e = EClose]"

definition sleeps :: "event list \<Rightarrow> int list" where
  "sleeps tr = [d. ESleep d \<leftarrow> tr]"

definition logged :: "event list \<Rightarrow> log_record list" where
  "logged tr = [l. ELog l \<leftarrow> tr]"

definition ctx_done :: "world \<Rightarrow> bool" where
  "ctx_done w = (case done_at w of None \<Rightarrow> False | Some t \<Rightarrow> t \<le> clock w)"

text \<open>httpClient.Do: the answer may depend on every request sent before.\<close>

definition Do :: "request \<Rightarrow> world \<Rightarrow> (error + response) \<times> world" where
  "Do req w =
     (let (dt, out) = transport w (sent (trace w) @ [req])
      in (out, w\<lparr>clock := clock w + int dt,
             trace := trace w @ [ESend req, case out of Inl e \<Rightarrow> EFail | Inr r \<Rightarrow> ERecv (StatusCode r)]\<rparr>))"

text \<open>
  A timer of duration d against the context: true when the timer wins. The clock moves to the
  instant at which the select returns.
\<close>

definition wait_timer :: "int \<Rightarrow> world \<Rightarrow> bool \<times> world" where
  "wait_timer d w =
     (let fire = clock w + max d 0; w' = emit (ESleep d) w
      in case done_at w of
           None \<Rightarrow> (True, w'\<lparr>clock := fire\<rparr>)
         | Some t \<Rightarrow>
            (let dn = max t (clock w)
             in if fire < dn then (True, w'\<lparr>clock := fire\<rparr>)
                else if dn < fire then (False, w'\<lparr>clock := dn\<rparr>)
                else (\<not> select_done w fire, w'\<lparr>clock := fire\<rparr>)))"

section \<open>What an operation leaves alone\<close>

text \<open>The parameters of a world: everything but the clock and the trace.\<close>

definition same_env :: "world \<Rightarrow> world \<Rightarrow> bool" where
  "same_env w w' \<longleftrightarrow> done_at w' = done_at w \<and> ctx_err w' = ctx_err w \<and> select_done w' = select_done w
     \<and> transport w' = transport w \<and> parse_time w' = parse_time w"

definition new_events :: "world \<Rightarrow> world \<Rightarrow> event list" where
  "new_events w w' = drop (length (trace w)) (trace w')"

definition extends :: "world \<Rightarrow> world \<Rightarrow> event list \<Rightarrow> bool" where
  "extends w w' es \<longleftrightarrow> same_env w w' \<and> clock w \<le> clock w' \<and> trace w' = trace w @ es"

lemma extends_refl [simp, intro]: "extends w w []"
  by (simp add: extends_def same_env_def)

lemma extends_trans:
  "extends w1 w2 es \<Longrightarrow> extends w2 w3 es' \<Longrightarrow> extends w1 w3 (es @ es')"
  by (auto simp: extends_def same_env_def)

lemma extends_new_events: "extends w w' es \<Longrightarrow> new_events w w' = es"
  by (simp add: extends_def new_events_def)

lemma extends_emit: "extends w (emit e w) [e]"
  by (simp add: extends_def same_env_def emit_def)

lemma extends_Do:
  assumes "Do req w = (out, w')"
  shows "extends w w' [ESend req, case out of Inl e \<Rightarrow> EFail | Inr r \<Rightarrow> ERecv (StatusCode r)]"
  using assms by (auto simp: Do_def extends_def same_env_def split: prod.splits)

lemma extends_wait_timer: "wait_timer d w = (b, w') \<Longrightarrow> extends w w' [ESleep d]"
  by (auto simp: wait_timer_def extends_def same_env_def emit_def Let_def
      split: option.splits if_splits)

lemma trace_counts [simp]:
  "sent [] = []" "received [] = 0" "closed [] = 0" "sleeps [] = []" "logged [] = []"
  "sent (es @ es') = sent es @ sent es'"
  "received (es @ es') = received es + received es'"
  "closed (es @ es') = closed es + closed es'"
  "sleeps (es @ es') = sleeps es @ sleeps es'"
  "logged (es @ es') = logged es @ logged es'"
  "sent (e # es) = (case e of ESend r \<Rightarrow> [r] | _ \<Rightarrow> []) @ sent es"
  "received (e # es) = (case e of ERecv s \<Rightarrow> 1 | _ \<Rightarrow> 0) + received es"
  "closed (e # es) = (case e of EClose \<Rightarrow> 1 | _ \<Rightarrow> 0) + closed es"
  "sleeps (e # es) = (case e of ESleep d \<Rightarrow> [d] | _ \<Rightarrow> []) @ sleeps es"
  "logged (e # es) = (case e of ELog l \<Rightarrow> [l] | _ \<Rightarrow> []) @ logged es"
  by (auto simp: sent_def received_def closed_def sleeps_def logged_def split: event.splits)

end
