(* ===== verification/ErrorBody.thy ===== *)
theory ErrorBody
  imports World
begin

text \<open>
  Error responses: the JSON envelope of errors.go with its UnmarshalJSON method, and
  errorFromResponse and truncateForMessage of client.go. The method decodes into a pointer that
  a JSON null sets to nil, and then dereferences it; this is the Panic branch.
\<close>

section \<open>The error envelope\<close>

record APIErrorDetail =
  DetailStatus :: int
  DetailCode :: ErrorCode
  DetailMessage :: string

record APIErrorResponse =
  ErrorField :: APIErrorDetail

definition zero_APIErrorDetail :: APIErrorDetail where
  "zero_APIErrorDetail = \<lparr>DetailStatus = 0, DetailCode = [], DetailMessage = []\<rparr>"

definition zero_APIErrorResponse :: APIErrorResponse where
  "zero_APIErrorResponse = \<lparr>ErrorField = zero_APIErrorDetail\<rparr>"

text \<open>The auxiliary struct: the raw code (None when absent) beside the other fields.\<close>

record aux_detail =
  AuxCode :: "json option"
  AuxDetail :: APIErrorDetail

definition dec_raw :: "json option decoder" where "dec_raw j x = Ok (Some j)"

definition aux_detail_fields :: "aux_detail fields" where
  "aux_detail_fields =
     [fld ''code'' dec_raw AuxCode AuxCode_update,
      fld ''status'' dec_int (DetailStatus \<circ> AuxDetail) (AuxDetail_update \<circ> DetailStatus_update),
      fld ''message'' dec_string (DetailMessage \<circ> AuxDetail) (AuxDetail_update \<circ> DetailMessage_update)]"

definition APIErrorDetail_UnmarshalJSON :: "APIErrorDetail decoder" where
  "APIErrorDetail_UnmarshalJSON data d =
     (if data = JNull then Panic ''nil pointer dereference''
      else bind_result (dec_struct aux_detail_fields data \<lparr>AuxCode = None, AuxDetail = d\<rparr>)
        (\<lambda>aux. Ok ((AuxDetail aux)\<lparr>DetailCode :=
           (case AuxCode aux of
              Some (JStr s) \<Rightarrow> s
            | Some JNull \<Rightarrow> []
            | _ \<Rightarrow> ErrUnknown)\<rparr>)))"

definition dec_APIErrorResponse :: "APIErrorResponse decoder" where
  "dec_APIErrorResponse =
     dec_struct [fld ''error'' APIErrorDetail_UnmarshalJSON ErrorField ErrorField_update]"

section \<open>Quoting a body in a message\<close>

text \<open>strings.ToValidUTF8: each run of invalid bytes becomes one replacement.\<close>

fun to_valid :: "bool \<Rightarrow> string \<Rightarrow> string" where
  "to_valid in_run [] = []"
| "to_valid in_run (c # cs) =
     (case utf8_seq (c # cs) of
        0 \<Rightarrow> (if in_run then [] else replacement) @ to_valid True cs
      | Suc k \<Rightarrow> c # take k cs @ to_valid False (drop k cs))"

definition ToValidUTF8 :: "string \<Rightarrow> string" where "ToValidUTF8 s = to_valid False s"

definition maxErrorBodyBytes :: nat where "maxErrorBodyBytes = 1024"

definition truncateForMessage :: "string \<Rightarrow> string" where
  "truncateForMessage body =
     (if length body \<le> maxErrorBodyBytes then ToValidUTF8 body
      else ToValidUTF8 (take maxErrorBodyBytes body)
        @ ''... ('' @ dec_of_nat (length body - maxErrorBodyBytes) @ '' bytes truncated)'')"

definition errorFromResponse :: "int \<Rightarrow> string \<Rightarrow> error result" where
  "errorFromResponse statusCode body =
     (case Unmarshal dec_APIErrorResponse (Wire body) zero_APIErrorResponse of
        Err e \<Rightarrow>
          Ok (newAPIErrorWithStatus ErrUnknown
                (''HTTP '' @ Itoa statusCode @ '': '' @ truncateForMessage body) statusCode)
      | Panic p \<Rightarrow> Panic p
      | Ok apiErr \<Rightarrow>
          (let d = ErrorField apiErr;
               status = (if DetailStatus d = 0 then statusCode else DetailStatus d)
           in Ok (newAPIErrorWithStatus (DetailCode d) (DetailMessage d) status)))"

section \<open>Lemmas\<close>

lemma utf8_seq_le: "utf8_seq s \<le> length s"
  by (auto simp: utf8_seq_def split: list.splits)

lemma length_to_valid: "length (to_valid b s) \<le> 3 * length s"
proof (induction b s rule: to_valid.induct)
  case (2 b c cs)
  show ?case
  proof (cases "utf8_seq (c # cs)")
    case 0
    with 2 show ?thesis by (auto simp: replacement_def)
  next
    case (Suc k)
    with 2 have "length (to_valid False (drop k cs)) \<le> 3 * (length cs - k)" by simp
    moreover from Suc utf8_seq_le [of "c # cs"] have "k \<le> length cs" by simp
    ultimately show ?thesis using Suc by simp
  qed
qed simp

lemma length_truncateForMessage:
  "length (truncateForMessage body)
     \<le> 3 * maxErrorBodyBytes + 22 + length (dec_of_nat (length body))"
proof (cases "length body \<le> maxErrorBodyBytes")
  case True
  with length_to_valid [of False body] show ?thesis
    by (simp add: truncateForMessage_def ToValidUTF8_def)
next
  case False
  have "length (dec_of_nat (length body - maxErrorBodyBytes)) \<le> length (dec_of_nat (length body))"
    by (rule length_dec_of_nat_mono) simp
  with False length_to_valid [of False "take maxErrorBodyBytes body"] show ?thesis
    by (simp add: truncateForMessage_def ToValidUTF8_def)
qed

lemma errorFromResponse_API:
  "errorFromResponse st body = Ok e \<Longrightarrow> \<exists>code m s. e = newAPIErrorWithStatus code m s"
  by (auto simp: errorFromResponse_def Let_def split: result.splits)

end
