(* ===== verification/Client.thy ===== *)
theory Client
  imports ErrorBody
begin

text \<open>
  client.go: the configuration with its options, the checks before a request, the retry loop of
  doRequest, and handleResponse with the removal of Hetzner's response envelope. Every function
  that the code runs on a *Client takes the client and the world and returns them changed. The
  HTTP client and the logger are part of the world (its transport and its trace); the service
  pointers of the struct all point back to the client and are left out.
\<close>

section \<open>Configuration\<close>

definition DefaultBaseURL :: string where "DefaultBaseURL = ''https://robot-ws.your-server.de''"
definition UserAgent :: string where "UserAgent = ''hrobot-go/2.3.0''"
definition DefaultMaxRetryAfter :: int where "DefaultMaxRetryAfter = 30 * Second"
definition DefaultMaxResponseBytes :: int where "DefaultMaxResponseBytes = 33554432"
definition MaxFirewallInputRules :: int where "MaxFirewallInputRules = 10"

text \<open>Reset is None for the zero time, and otherwise the nanoseconds since the Unix epoch.\<close>

record RateLimit =
  Limit :: int
  Remaining :: int
  Reset :: "int option"

definition zero_RateLimit :: RateLimit where
  "zero_RateLimit = \<lparr>Limit = 0, Remaining = 0, Reset = None\<rparr>"

record client =
  baseURL :: string
  username :: string
  password :: string
  userAgent :: string
  baseURLErr :: "error option"
  rateLimit :: RateLimit
  maxFirewallInputRules :: int
  maxRetryAfter :: int
  maxResponseBytes :: int

type_synonym ClientOption = "client \<Rightarrow> client"

definition validateBaseURL :: "string \<Rightarrow> error option" where
  "validateBaseURL raw =
     (case url_Parse raw of
        Inl err \<Rightarrow> Some (NewValidationError ErrInvalidInput (''invalid base URL: '' @ Error_str err) 400)
      | Inr u \<Rightarrow>
         (if Scheme u \<noteq> ''http'' \<and> Scheme u \<noteq> ''https'' then
            Some (NewValidationError ErrInvalidInput ''invalid base URL: scheme must be http or https'' 400)
          else if Host u = [] then
            Some (NewValidationError ErrInvalidInput ''invalid base URL: missing host'' 400)
          else if User u \<noteq> None then
            Some (NewValidationError ErrInvalidInput
              ''invalid base URL: must not embed credentials; pass them to NewClient'' 400)
          else if RawQuery u \<noteq> [] \<or> ForceQuery u \<or> Fragment u \<noteq> [] \<or> RawFragment u \<noteq> [] then
            Some (NewValidationError ErrInvalidInput
              ''invalid base URL: must not contain a query or fragment'' 400)
          else None))"

definition WithBaseURL :: "string \<Rightarrow> ClientOption" where
  "WithBaseURL url c =
     (let b = TrimSuffix url ''/'' in c\<lparr>baseURL := b, baseURLErr := validateBaseURL b\<rparr>)"

definition WithEndpoint :: "string \<Rightarrow> ClientOption" where
  "WithEndpoint endpoint = WithBaseURL endpoint"

definition WithUserAgent :: "string \<Rightarrow> ClientOption" where
  "WithUserAgent ua c = c\<lparr>userAgent := ua\<rparr>"

definition WithApplication :: "string \<Rightarrow> string \<Rightarrow> ClientOption" where
  "WithApplication name version c =
     (if name = [] then c
      else if version \<noteq> [] then c\<lparr>userAgent := name @ ''/'' @ version @ '' '' @ UserAgent\<rparr>
      else c\<lparr>userAgent := name @ '' '' @ UserAgent\<rparr>)"

definition WithMaxFirewallInputRules :: "int \<Rightarrow> ClientOption" where
  "WithMaxFirewallInputRules n c = (if n > 0 then c\<lparr>maxFirewallInputRules := n\<rparr> else c)"

definition WithMaxRetryAfter :: "int \<Rightarrow> ClientOption" where
  "WithMaxRetryAfter d c = (if d > 0 then c\<lparr>maxRetryAfter := d\<rparr> else c)"

definition WithMaxResponseBytes :: "int \<Rightarrow> ClientOption" where
  "WithMaxResponseBytes n c = (if n > 0 then c\<lparr>maxResponseBytes := n\<rparr> else c)"

definition NewClient :: "string \<Rightarrow> string \<Rightarrow> ClientOption list \<Rightarrow> client" where
  "NewClient user pass opts =
     fold (\<lambda>opt c. opt c) opts
       \<lparr>baseURL = DefaultBaseURL, username = user, password = pass, userAgent = UserAgent,
        baseURLErr = None, rateLimit = zero_RateLimit,
        maxFirewallInputRules = MaxFirewallInputRules, maxRetryAfter = DefaultMaxRetryAfter,
        maxResponseBytes = DefaultMaxResponseBytes\<rparr>"

definition New :: "string \<Rightarrow> string \<Rightarrow> ClientOption list \<Rightarrow> client" where
  "New user pass opts = NewClient user pass opts"

definition LastRateLimit :: "client \<Rightarrow> RateLimit" where
  "LastRateLimit c = rateLimit c"

section \<open>Rate limits and delays\<close>

definition atoi_header :: "Header \<Rightarrow> string \<Rightarrow> int option" where
  "atoi_header h k =
     (let v = header_Get h k
      in if v = [] then None else (case Atoi v of Inr n \<Rightarrow> Some n | Inl e \<Rightarrow> None))"

text \<open>
  time.Unix(n, 0). A Time counts seconds from the year 1 in an int64, so the sum wraps around for n
  close to MaxInt64, as the documentation of the package warns.
\<close>

definition unixToInternal :: int where "unixToInternal = 62135596800"

definition time_Unix :: "int \<Rightarrow> int" where
  "time_Unix n = (wrap64 (n + unixToInternal) - unixToInternal) * Second"

definition updateRateLimit :: "Header \<Rightarrow> int \<Rightarrow> client \<Rightarrow> client" where
  "updateRateLimit h now c =
     (let lim = atoi_header h ''RateLimit-Limit'';
          rem = atoi_header h ''RateLimit-Remaining'';
          rst = atoi_header h ''RateLimit-Reset'';
          rl = \<lparr>Limit = (case lim of Some n \<Rightarrow> n | None \<Rightarrow> 0),
                Remaining = (case rem of Some n \<Rightarrow> n | None \<Rightarrow> 0),
                Reset = (case rst of None \<Rightarrow> None
                         | Some n \<Rightarrow> Some (if n < 1000000000 then now + wrap64 (n * Second)
                                             else time_Unix n))\<rparr>
      in if lim = None \<and> rem = None \<and> rst = None then c else c\<lparr>rateLimit := rl\<rparr>)"

text \<open>time.Until saturates at the ends of the int64 range.\<close>

definition time_Until :: "int \<Rightarrow> int \<Rightarrow> int" where
  "time_Until t now = max MinInt64 (min MaxInt64 (t - now))"

definition clamp_delay :: "int \<Rightarrow> int \<Rightarrow> int" where
  "clamp_delay d limit = (if d \<le> 0 then 0 else min d limit)"

definition retryAfter :: "world \<Rightarrow> Header \<Rightarrow> int \<Rightarrow> int" where
  "retryAfter w h limit =
     (let v = header_Get h ''Retry-After'';
          from_date = (case parse_time w v of Some t \<Rightarrow> time_Until t (clock w) | None \<Rightarrow> 0)
      in if v = [] then 0
         else case Atoi v of
                Inr n \<Rightarrow>
                  (if n \<ge> 0 then
                     (if n > go_div limit Second then limit
                      else clamp_delay (wrap64 (n * Second)) limit)
                   else clamp_delay from_date limit)
              | Inl e \<Rightarrow>
                  (if e = ErrRange \<and> \<not> HasPrefix v ''-'' then limit
                   else clamp_delay from_date limit))"

definition shouldRetry :: "string \<Rightarrow> int \<Rightarrow> nat \<Rightarrow> bool" where
  "shouldRetry method statusCode attempt =
     (if statusCode = 401 then attempt = 0
      else if statusCode = 429 then True
      else if statusCode \<ge> 500 then method \<noteq> MethodPost
      else False)"

definition validateCredentials :: "string \<Rightarrow> string \<Rightarrow> error option" where
  "validateCredentials user pass =
     (if user = [] \<or> pass = [] then
        Some (NewValidationError ErrUnauthorized ''missing credentials: username and password are required'' 401)
      else if ContainsRune user CHR '':'' then
        Some (NewValidationError ErrUnauthorized ''invalid username: must not contain a colon (RFC 7617)'' 401)
      else None)"

definition sleepCtx :: "int \<Rightarrow> world \<Rightarrow> error option \<times> world" where
  "sleepCtx d w =
     (let (fired, w') = wait_timer d w
      in (if fired then None else Some (NewNetworkError ''request cancelled'' (Some (ctx_err w))), w'))"

section \<open>The retry loop\<close>

definition maxRetries :: nat where "maxRetries = 3"

definition linear_delay :: "nat \<Rightarrow> int" where
  "linear_delay attempt = (int attempt + 1) * 500 * Millisecond"

text \<open>The pair of Go results: a response and an error, either of which may be nil.\<close>

type_synonym resp_err = "response option \<times> error option"

definition build_request :: "client \<Rightarrow> string \<Rightarrow> string \<Rightarrow> string \<Rightarrow> request" where
  "build_request c method reqURL bodyBytes =
     \<lparr>Method = method, ReqURL = reqURL, BasicAuth = (username c, password c),
      UserAgentHeader = userAgent c,
      ContentType = (if length bodyBytes > 0 then Some ''application/x-www-form-urlencoded'' else None),
      ReqBody = bodyBytes\<rparr>"

function attempt_loop ::
  "string \<Rightarrow> string \<Rightarrow> string \<Rightarrow> error option \<Rightarrow> nat \<Rightarrow> client \<Rightarrow> world
     \<Rightarrow> resp_err \<times> client \<times> world" where
  "attempt_loop method reqURL bodyBytes lastErr attempt c w =
     (if attempt < maxRetries then
        (if ctx_done w then
           ((None, Some (NewNetworkError ''request cancelled'' (Some (ctx_err w)))), c, w)
         else
           (case url_Parse reqURL of
              Inl err \<Rightarrow> ((None, Some (NewNetworkError ''failed to create request'' (Some err))), c, w)
            | Inr u \<Rightarrow>
               (let w1 = emit (ELog (LogRequest method reqURL (int attempt + 1) (int maxRetries)
                            (int (length bodyBytes)))) w;
                    (out, w2) = Do (build_request c method reqURL bodyBytes) w1
                in case out of
                     Inl err \<Rightarrow>
                       (let lastErr = NewNetworkError ''request failed'' (Some err)
                        in if method \<noteq> MethodPost \<and> attempt < maxRetries - 1 then
                             (case sleepCtx (linear_delay attempt) w2 of
                                (Some e, w3) \<Rightarrow> ((None, Some e), c, w3)
                              | (None, w3) \<Rightarrow>
                                  attempt_loop method reqURL bodyBytes (Some lastErr) (attempt + 1) c w3)
                           else ((None, Some lastErr), c, w2))
                   | Inr resp \<Rightarrow>
                       (let c1 = updateRateLimit (RespHeader resp) (clock w2) c
                        in if shouldRetry method (StatusCode resp) attempt \<and> attempt < maxRetries - 1 then
                             (let d = retryAfter w2 (RespHeader resp) (maxRetryAfter c);
                                  delay = (if d = 0 then linear_delay attempt else d);
                                  w3 = emit EClose w2;
                                  w4 = emit (ELog (LogRetry (StatusCode resp) delay (int attempt + 1)
                                               (int maxRetries))) w3
                              in case sleepCtx delay w4 of
                                   (Some e, w5) \<Rightarrow> ((None, Some e), c1, w5)
                                 | (None, w5) \<Rightarrow>
                                     attempt_loop method reqURL bodyBytes lastErr (attempt + 1) c1 w5)
                           else ((Some resp, None), c1, w2)))))
      else ((None, lastErr), c, w))"
  by pat_completeness auto
termination
  by (relation "measure (\<lambda>(m, u, b, l, attempt, c, w). maxRetries - attempt)")
    (auto simp: maxRetries_def)

declare attempt_loop.simps [simp del]

definition doRequest ::
  "client \<Rightarrow> world \<Rightarrow> string \<Rightarrow> string \<Rightarrow> reader option \<Rightarrow> resp_err \<times> client \<times> world" where
  "doRequest c w method path body =
     (case validateCredentials (username c) (password c) of
        Some err \<Rightarrow> ((None, Some err), c, w)
      | None \<Rightarrow>
         (case baseURLErr c of
            Some err \<Rightarrow> ((None, Some err), c, w)
          | None \<Rightarrow>
             (case (case body of None \<Rightarrow> Inr [] | Some r \<Rightarrow> ReadAll r) of
                Inl err \<Rightarrow> ((None, Some (NewNetworkError ''failed to read request body'' (Some err))), c, w)
              | Inr bodyBytes \<Rightarrow>
                  attempt_loop method (baseURL c @ path) bodyBytes None 0 c w)))"

section \<open>Reading and unwrapping a response\<close>

definition readBodyLimited :: "reader \<Rightarrow> int \<Rightarrow> error + string" where
  "readBodyLimited r limit =
     (let probe = wrap64 (limit + 1);
          probe = (if probe < 0 then MaxInt64 else probe)
      in case ReadAll (LimitReader r probe) of
           Inl err \<Rightarrow> Inl (NewNetworkError ''failed to read response body'' (Some err))
         | Inr data \<Rightarrow>
            (if int (length data) > limit then
               Inl (NewParseError (''response body exceeds the '' @ Itoa limit
                 @ '' byte limit; raise it with WithMaxResponseBytes if the response is legitimate'') None)
             else Inr data))"

fun is_container :: "json \<Rightarrow> bool" where
  "is_container (JArr xs) = True"
| "is_container (JObj ms) = True"
| "is_container _ = False"

text \<open>
  The elements of a []map[string]json.RawMessage: an element that is not an object leaves a
  nil map, and the error is ignored.
\<close>

definition elem_map :: "json \<Rightarrow> (string \<times> json) list" where
  "elem_map j = (case j of JObj ms \<Rightarrow> obj_map ms | _ \<Rightarrow> [])"

text \<open>
  The loop that looks for the key all elements share: None when the body is to be returned
  unchanged. The empty string is the code's "no key yet".
\<close>

fun common_key :: "string \<Rightarrow> (string \<times> json) list list \<Rightarrow> string option" where
  "common_key key [] = Some key"
| "common_key key ([(k, v)] # items) =
     (if \<not> is_container v then None
      else if key = [] then common_key k items
      else if k \<noteq> key then None
      else common_key key items)"
| "common_key key (item # items) = None"

definition unwrapResponse :: "string \<Rightarrow> error + raw" where
  "unwrapResponse data =
     (case data of
        [] \<Rightarrow> Inr (Wire data)
      | c # cs \<Rightarrow>
         (if c = CHR ''['' then
            (let arr = (case json_parse data of Some (JArr js) \<Rightarrow> map elem_map js | _ \<Rightarrow> [])
             in if arr = [] then Inr (Wire data)
                else (case common_key [] arr of
                        None \<Rightarrow> Inr (Wire data)
                      | Some key \<Rightarrow>
                          Inr (Sub (JArr (map (\<lambda>item. case map_of item key of
                                                       Some v \<Rightarrow> v | None \<Rightarrow> JNull) arr)))))
          else if c = CHR ''{'' then
            (case json_parse data of
               Some (JObj ms) \<Rightarrow>
                 (let top = obj_map ms
                  in if map_of top ''id'' \<noteq> None then Inr (Wire data)
                     else (case top of
                             [(k, v)] \<Rightarrow> if is_container v then Inr (Sub v) else Inr (Wire data)
                           | _ \<Rightarrow> Inr (Wire data)))
             | _ \<Rightarrow> Inl syntax_error)
          else Inr (Wire data)))"

text \<open>
  A target is what the caller passes as v: its zero value, and a decoder, or None for a nil v.
  The result is the target's value on success. The deferred Close runs on every path.
\<close>

type_synonym 'a target = "'a \<times> 'a decoder option"

definition handleResponse ::
  "client \<Rightarrow> world \<Rightarrow> response \<Rightarrow> 'a target \<Rightarrow> 'a result \<times> client \<times> world" where
  "handleResponse c w resp v =
     (case readBodyLimited (RespBody resp) (maxResponseBytes c) of
        Inl err \<Rightarrow> (Err err, c, emit EClose w)
      | Inr body \<Rightarrow>
         (let w1 = emit EClose (emit (ELog (LogResponse (StatusCode resp) (int (length body)))) w)
          in if StatusCode resp < 200 \<or> StatusCode resp \<ge> 300 then
               (bind_result (errorFromResponse (StatusCode resp) body) Err, c, w1)
             else if StatusCode resp = 204 \<or> body = [] then (Ok (fst v), c, w1)
             else
               (case unwrapResponse body of
                  Inl err \<Rightarrow> (Err (NewParseError ''failed to unwrap response'' (Some err)), c, w1)
                | Inr unwrapped \<Rightarrow>
                   (case snd v of
                      None \<Rightarrow> (Ok (fst v), c, w1)
                    | Some dec \<Rightarrow>
                       (case Unmarshal dec unwrapped (fst v) of
                          Ok x \<Rightarrow> (Ok x, c, w1)
                        | Err err \<Rightarrow>
                            (Err (NewParseError ''failed to unmarshal response'' (Some err)), c, w1)
                        | Panic p \<Rightarrow> (Panic p, c, w1))))))"

section \<open>The request methods\<close>

definition finish ::
  "resp_err \<times> client \<times> world \<Rightarrow> 'a target \<Rightarrow> 'a result \<times> client \<times> world" where
  "finish r v =
     (case r of
        ((resp, Some err), c, w) \<Rightarrow> (Err err, c, w)
      | ((Some resp, None), c, w) \<Rightarrow> handleResponse c w resp v
      | ((None, None), c, w) \<Rightarrow> (Panic ''nil response'', c, w))"

definition string_reader :: "string \<Rightarrow> reader" where "string_reader s = (s, None)"

definition form_reader :: "Values option \<Rightarrow> reader option" where
  "form_reader data = map_option (\<lambda>m. string_reader (Encode m)) data"

definition raw_reader :: "string \<Rightarrow> reader option" where
  "raw_reader data = (if data \<noteq> [] then Some (string_reader data) else None)"

definition client_Get ::
  "client \<Rightarrow> world \<Rightarrow> string \<Rightarrow> 'a target \<Rightarrow> 'a result \<times> client \<times> world" where
  "client_Get c w path v = finish (doRequest c w MethodGet path None) v"

definition client_Post ::
  "client \<Rightarrow> world \<Rightarrow> string \<Rightarrow> Values option \<Rightarrow> 'a target \<Rightarrow> 'a result \<times> client \<times> world" where
  "client_Post c w path data v = finish (doRequest c w MethodPost path (form_reader data)) v"

definition client_PostRaw ::
  "client \<Rightarrow> world \<Rightarrow> string \<Rightarrow> string \<Rightarrow> 'a target \<Rightarrow> 'a result \<times> client \<times> world" where
  "client_PostRaw c w path data v = finish (doRequest c w MethodPost path (raw_reader data)) v"

definition client_DeleteRaw ::
  "client \<Rightarrow> world \<Rightarrow> string \<Rightarrow> string \<Rightarrow> 'a target \<Rightarrow> 'a result \<times> client \<times> world" where
  "client_DeleteRaw c w path data v = finish (doRequest c w MethodDelete path (raw_reader data)) v"

definition client_Put ::
  "client \<Rightarrow> world \<Rightarrow> string \<Rightarrow> Values option \<Rightarrow> 'a target \<Rightarrow> 'a result \<times> client \<times> world" where
  "client_Put c w path data v = finish (doRequest c w MethodPut path (form_reader data)) v"

definition nil_target :: "unit target" where "nil_target = ((), None)"

definition client_Delete :: "client \<Rightarrow> world \<Rightarrow> string \<Rightarrow> unit result \<times> client \<times> world" where
  "client_Delete c w path = finish (doRequest c w MethodDelete path None) nil_target"

definition client_DeleteWithBody ::
  "client \<Rightarrow> world \<Rightarrow> string \<Rightarrow> Values option \<Rightarrow> 'a target \<Rightarrow> 'a result \<times> client \<times> world" where
  "client_DeleteWithBody c w path data v =
     finish (doRequest c w MethodDelete path (form_reader data)) v"

end
