(* ===== verification/RetryLoop.thy ===== *)
theory RetryLoop
  imports Client
begin

text \<open>
  The retry loop of doRequest, analysed. One turn of the loop (try_once) either stops with the
  pair the code returns or asks for another turn; attempt_loop is the iteration of turns. What a
  turn does to the world is one list of events, and the facts about the whole loop (how
  often a request is sent and with what, which answers are followed by another attempt, that
  every response but the returned one is closed) follow by induction over the turns.
\<close>

section \<open>Configuration and answers\<close>

text \<open>A call changes nothing of the client but the rate limit it last saw.\<close>

definition same_config :: "client \<Rightarrow> client \<Rightarrow> bool" where
  "same_config c c' \<longleftrightarrow> c' = c\<lparr>rateLimit := rateLimit c'\<rparr>"

lemma same_config_refl [simp, intro]: "same_config c c"
  by (simp add: same_config_def)

lemma same_configE:
  assumes "same_config c c'"
  obtains r where "c' = c\<lparr>rateLimit := r\<rparr>"
  using assms unfolding same_config_def by blast

lemma same_config_trans: "same_config c c' \<Longrightarrow> same_config c' c'' \<Longrightarrow> same_config c c''"
  by (elim same_configE) (simp add: same_config_def)

lemma same_config_fields:
  assumes "same_config c c'"
  shows "baseURL c' = baseURL c" "username c' = username c" "password c' = password c"
    "userAgent c' = userAgent c" "baseURLErr c' = baseURLErr c"
    "maxFirewallInputRules c' = maxFirewallInputRules c" "maxRetryAfter c' = maxRetryAfter c"
    "maxResponseBytes c' = maxResponseBytes c"
  using assms by (auto elim!: same_configE)

lemma same_config_build_request:
  "same_config c c' \<Longrightarrow> build_request c' m u b = build_request c m u b"
  by (auto simp: build_request_def elim!: same_configE)

lemma updateRateLimit_config [simp]: "same_config c (updateRateLimit h now c)"
  by (simp add: updateRateLimit_def same_config_def Let_def)

text \<open>The answers of a trace: a status, or None for a transport error.\<close>

definition answers :: "event list \<Rightarrow> int option list" where
  "answers es = concat (map (\<lambda>e. case e of ERecv s \<Rightarrow> [Some s] | EFail \<Rightarrow> [None] | _ \<Rightarrow> []) es)"

lemma answers_simps [simp]:
  "answers [] = []" "answers (es @ es') = answers es @ answers es'"
  "answers (e # es) = (case e of ERecv s \<Rightarrow> [Some s] | EFail \<Rightarrow> [None] | _ \<Rightarrow> []) @ answers es"
  by (simp_all add: answers_def)

text \<open>Which answer to the attempt with this number calls for another one.\<close>

definition retryable :: "string \<Rightarrow> nat \<Rightarrow> int option \<Rightarrow> bool" where
  "retryable method attempt ans =
     (case ans of None \<Rightarrow> method \<noteq> MethodPost | Some st \<Rightarrow> shouldRetry method st attempt)"

fun retried :: "string \<Rightarrow> nat \<Rightarrow> int option list \<Rightarrow> bool" where
  "retried m a (x # y # ys) = (retryable m a x \<and> retried m (Suc a) (y # ys))"
| "retried m a _ = True"

section \<open>One turn of the loop\<close>

datatype turn = Stop resp_err | Again "error option"

definition try_once ::
  "string \<Rightarrow> string \<Rightarrow> string \<Rightarrow> error option \<Rightarrow> nat \<Rightarrow> client \<Rightarrow> world \<Rightarrow> turn \<times> client \<times> world" where
  "try_once m u b lastErr a c w =
     (if ctx_done w then
        (Stop (None, Some (NewNetworkError ''request cancelled'' (Some (ctx_err w)))), c, w)
      else
        (case url_Parse u of
           Inl err \<Rightarrow> (Stop (None, Some (NewNetworkError ''failed to create request'' (Some err))), c, w)
         | Inr p \<Rightarrow>
            (case Do (build_request c m u b)
                   (emit (ELog (LogRequest m u (int a + 1) (int maxRetries) (int (length b)))) w) of
               (Inl err, w2) \<Rightarrow>
                 (let e1 = NewNetworkError ''request failed'' (Some err)
                  in if m \<noteq> MethodPost \<and> a < maxRetries - 1 then
                       (case sleepCtx (linear_delay a) w2 of
                          (Some e, w3) \<Rightarrow> (Stop (None, Some e), c, w3)
                        | (None, w3) \<Rightarrow> (Again (Some e1), c, w3))
                     else (Stop (None, Some e1), c, w2))
             | (Inr resp, w2) \<Rightarrow>
                 (let c1 = updateRateLimit (RespHeader resp) (clock w2) c
                  in if shouldRetry m (StatusCode resp) a \<and> a < maxRetries - 1 then
                       (let d = retryAfter w2 (RespHeader resp) (maxRetryAfter c);
                            delay = (if d = 0 then linear_delay a else d)
                        in case sleepCtx delay
                                  (emit (ELog (LogRetry (StatusCode resp) delay (int a + 1) (int maxRetries)))
                                    (emit EClose w2)) of
                             (Some e, w5) \<Rightarrow> (Stop (None, Some e), c1, w5)
                           | (None, w5) \<Rightarrow> (Again lastErr, c1, w5))
                     else (Stop (Some resp, None), c1, w2)))))"

lemma attempt_loop_unfold:
  "attempt_loop m u b l a c w =
     (if a < maxRetries then
        (case try_once m u b l a c w of
           (Stop r, c', w') \<Rightarrow> (r, c', w')
         | (Again l', c', w') \<Rightarrow> attempt_loop m u b l' (Suc a) c' w')
      else ((None, l), c, w))"
  by (subst attempt_loop.simps)
    (simp add: try_once_def Let_def split: sum.split prod.split option.split)

lemma sleepCtx_extends: "sleepCtx d w = (e, w') \<Longrightarrow> extends w w' [ESleep d]"
  by (auto simp: sleepCtx_def split: prod.splits if_splits dest: extends_wait_timer)

text \<open>The events of a request, up to its answer.\<close>

definition sending :: "client \<Rightarrow> string \<Rightarrow> string \<Rightarrow> string \<Rightarrow> nat \<Rightarrow> error + response \<Rightarrow> event list" where
  "sending c m u b a out =
     [ELog (LogRequest m u (int a + 1) (int maxRetries) (int (length b))),
      ESend (build_request c m u b),
      case out of Inl e \<Rightarrow> EFail | Inr r \<Rightarrow> ERecv (StatusCode r)]"

lemma sending_extends:
  assumes "Do (build_request c m u b)
             (emit (ELog (LogRequest m u (int a + 1) (int maxRetries) (int (length b)))) w) = (out, w2)"
  shows "extends w w2 (sending c m u b a out)"
  using extends_trans [OF extends_emit extends_Do [OF assms]] by (simp add: sending_def)

lemma sending_counts [simp]:
  "sent (sending c m u b a out) = [build_request c m u b]"
  "received (sending c m u b a out) = (case out of Inl e \<Rightarrow> 0 | Inr r \<Rightarrow> 1)"
  "closed (sending c m u b a out) = 0" "sleeps (sending c m u b a out) = []"
  "answers (sending c m u b a out) = [case out of Inl e \<Rightarrow> None | Inr r \<Rightarrow> Some (StatusCode r)]"
  by (auto simp: sending_def split: sum.splits)

section \<open>Delays\<close>

lemma clamp_delay_bounds: "0 < limit \<Longrightarrow> 0 \<le> clamp_delay d limit \<and> clamp_delay d limit \<le> limit"
  by (simp add: clamp_delay_def)

lemma retryAfter_bounds:
  assumes "0 < limit"
  shows "0 \<le> retryAfter w h limit" and "retryAfter w h limit \<le> limit"
  using clamp_delay_bounds [OF assms] assms
  by (auto simp: retryAfter_def Let_def split: sum.splits option.splits)

lemma Second_pos [simp]: "0 < Second" and Second_nonneg [simp]: "0 \<le> Second"
  by (simp_all add: Second_def)

text \<open>The seconds are compared with the limit before they are multiplied, so nothing overflows.\<close>

lemma seconds_no_overflow:
  assumes "0 \<le> n" and "n \<le> go_div limit Second" and "0 < limit" and "in_int64 limit"
  shows "n * Second \<le> limit" and "in_int64 (n * Second)"
proof -
  have "n * Second \<le> (limit div Second) * Second"
    using assms by (intro mult_right_mono) auto
  also have "\<dots> \<le> limit"
    using Second_pos by (simp add: minus_mod_eq_div_mult [symmetric])
  finally show le: "n * Second \<le> limit" .
  with assms show "in_int64 (n * Second)"
    by (auto simp: in_int64_def MinInt64_def intro: order_trans [of _ 0])
qed

lemma seconds_above_limit:
  assumes "go_div limit Second < n" and "0 < limit"
  shows "limit \<le> n * Second"
proof -
  have "limit < (limit div Second + 1) * Second"
    using Second_pos by (simp add: distrib_right minus_mod_eq_div_mult [symmetric])
  also have "\<dots> \<le> n * Second"
    using assms by (intro mult_right_mono) auto
  finally show ?thesis by simp
qed

lemma linear_delay_pos: "0 < linear_delay a"
  by (simp add: linear_delay_def Millisecond_def)

section \<open>The possible turns\<close>

definition delay_bound :: "client \<Rightarrow> nat \<Rightarrow> int" where
  "delay_bound c a = max (maxRetryAfter c) (linear_delay a)"

lemma try_once_cases:
  assumes "try_once m u b l a c w = (v, c', w')" and "0 < maxRetryAfter c"
  obtains
    (unsent) e where "v = Stop (None, Some e)" "c' = c" "w' = w"
  | (failed) err e where "v = Stop (None, Some e)" "c' = c"
      "extends w w' (sending c m u b a (Inl err))"
  | (failed_cancelled) err e where "v = Stop (None, Some e)" "c' = c" "retryable m a None" "a < 2"
      "extends w w' (sending c m u b a (Inl err) @ [ESleep (linear_delay a)])"
  | (failed_again) err e where "v = Again (Some e)" "c' = c" "retryable m a None" "a < 2"
      "extends w w' (sending c m u b a (Inl err) @ [ESleep (linear_delay a)])"
  | (answered) resp where "v = Stop (Some resp, None)" "same_config c c'"
      "extends w w' (sending c m u b a (Inr resp))"
  | (answered_cancelled) resp e lr d where "v = Stop (None, Some e)" "same_config c c'"
      "retryable m a (Some (StatusCode resp))" "a < 2" "0 < d" "d \<le> delay_bound c a"
      "extends w w' (sending c m u b a (Inr resp) @ [EClose, ELog lr, ESleep d])"
  | (answered_again) resp lr d where "v = Again l" "same_config c c'"
      "retryable m a (Some (StatusCode resp))" "a < 2" "0 < d" "d \<le> delay_bound c a"
      "extends w w' (sending c m u b a (Inr resp) @ [EClose, ELog lr, ESleep d])"
proof (cases "ctx_done w")
  case True
  with assms(1) show ?thesis by (intro unsent) (auto simp: try_once_def)
next
  case not_done: False
  show ?thesis
  proof (cases "url_Parse u")
    case (Inl err)
    with not_done assms(1) show ?thesis by (intro unsent) (auto simp: try_once_def)
  next
    case url: (Inr p)
    obtain out w2 where Do: "Do (build_request c m u b)
        (emit (ELog (LogRequest m u (int a + 1) (int maxRetries) (int (length b)))) w) = (out, w2)"
      by force
    note ext = sending_extends [OF Do]
    show ?thesis
    proof (cases out)
      case (Inl err)
      obtain se w3 where sl: "sleepCtx (linear_delay a) w2 = (se, w3)" by force
      note ext2 = extends_trans [OF ext sleepCtx_extends [OF sl]]
      show ?thesis
      proof (cases "m \<noteq> MethodPost \<and> a < maxRetries - 1")
        case True
        then have r: "retryable m a None" "a < 2" by (simp_all add: retryable_def maxRetries_def)
        show ?thesis
        proof (cases se)
          case None
          with True Inl assms(1) not_done url Do sl ext2 r show ?thesis
            by (intro failed_again [of "NewNetworkError ''request failed'' (Some err)"])
              (simp_all add: try_once_def Let_def)
        next
          case (Some e)
          with True Inl assms(1) not_done url Do sl ext2 r show ?thesis
            by (intro failed_cancelled [of e]) (simp_all add: try_once_def Let_def)
        qed
      next
        case False
        with Inl assms(1) not_done url Do ext show ?thesis
          by (intro failed [of "NewNetworkError ''request failed'' (Some err)"]) (auto simp: try_once_def Let_def)
      qed
    next
      case (Inr resp)
      let ?d = "retryAfter w2 (RespHeader resp) (maxRetryAfter c)"
      let ?delay = "if ?d = 0 then linear_delay a else ?d"
      let ?lr = "LogRetry (StatusCode resp) ?delay (int a + 1) (int maxRetries)"
      let ?w4 = "emit (ELog ?lr) (emit EClose w2)"
      show ?thesis
      proof (cases "shouldRetry m (StatusCode resp) a \<and> a < maxRetries - 1")
        case True
        then have r: "retryable m a (Some (StatusCode resp))" "a < 2"
          by (simp_all add: retryable_def maxRetries_def)
        have d: "0 < ?delay" "?delay \<le> delay_bound c a"
          using retryAfter_bounds [OF assms(2), of w2 "RespHeader resp"] linear_delay_pos [of a]
          by (auto simp: delay_bound_def)
        obtain se w5 where sl: "sleepCtx ?delay ?w4 = (se, w5)" by force
        have ext2: "extends w w5 (sending c m u b a (Inr resp) @ [EClose, ELog ?lr, ESleep ?delay])"
          using extends_trans [OF ext [unfolded Inr] extends_trans [OF extends_emit
                extends_trans [OF extends_emit sleepCtx_extends [OF sl]]]]
          by simp
        show ?thesis
        proof (cases se)
          case None
          with True Inr assms(1) not_done url Do sl have v: "v = Again l"
              "c' = updateRateLimit (RespHeader resp) (clock w2) c" "w' = w5"
            by (simp_all add: try_once_def Let_def)
          show ?thesis
            by (rule answered_again [OF v(1) _ r d]) (use v ext2 in simp_all)
        next
          case (Some e)
          with True Inr assms(1) not_done url Do sl have v: "v = Stop (None, Some e)"
              "c' = updateRateLimit (RespHeader resp) (clock w2) c" "w' = w5"
            by (simp_all add: try_once_def Let_def)
          show ?thesis
            by (rule answered_cancelled [OF v(1) _ r d]) (use v ext2 in simp_all)
        qed
      next
        case False
        with Inr assms(1) not_done url Do have v: "v = Stop (Some resp, None)"
            "c' = updateRateLimit (RespHeader resp) (clock w2) c" "w' = w2"
          by (auto simp: try_once_def Let_def)
        show ?thesis
          by (rule answered [OF v(1)]) (use v ext Inr in simp_all)
      qed
    qed
  qed
qed

section \<open>The whole loop\<close>

text \<open>What the code guarantees of a run of the loop that starts with attempt number a.\<close>

definition loop_events :: "client \<Rightarrow> string \<Rightarrow> string \<Rightarrow> string \<Rightarrow> nat \<Rightarrow> resp_err \<Rightarrow> event list \<Rightarrow> bool" where
  "loop_events c m u b a r es \<longleftrightarrow>
     (\<forall>q \<in> set (sent es). q = build_request c m u b)
     \<and> length (answers es) = length (sent es) \<and> length (sent es) \<le> 3 - a
     \<and> retried m a (answers es)
     \<and> received es = closed es + (if fst r = None then 0 else 1)
     \<and> length (sleeps es) \<le> 2 - a
     \<and> (\<forall>d \<in> set (sleeps es). 0 < d \<and> d \<le> max (maxRetryAfter c) (linear_delay 1))"

lemma loop_events_build:
  "same_config c c' \<Longrightarrow> loop_events c' m u b a r es = loop_events c m u b a r es"
  by (simp add: loop_events_def same_config_build_request same_config_fields)

lemma linear_delay_le: "a < 2 \<Longrightarrow> linear_delay a \<le> linear_delay 1"
  by (simp add: linear_delay_def Millisecond_def)

lemma delay_bound_le: "a < 2 \<Longrightarrow> d \<le> delay_bound c a \<Longrightarrow> d \<le> max (maxRetryAfter c) (linear_delay 1)"
  using linear_delay_le [of a] by (auto simp: delay_bound_def)

lemma loop_events_step:
  assumes "loop_events c m u b (Suc a) r es'" and "a < 2"
    and "retryable m a (case out of Inl e \<Rightarrow> None | Inr p \<Rightarrow> Some (StatusCode p))"
    and "0 < d" and "d \<le> max (maxRetryAfter c) (linear_delay 1)"
    and "mid = (case out of Inl e \<Rightarrow> [ESleep d] | Inr p \<Rightarrow> [EClose, ELog lr, ESleep d])"
  shows "loop_events c m u b a r ((sending c m u b a out @ mid) @ es')"
proof -
  have "retried m a (answers (sending c m u b a out @ mid @ es'))"
    using assms(1,3,6) unfolding loop_events_def
    by (cases "answers es'") (auto split: sum.splits)
  then show ?thesis
    using assms unfolding loop_events_def by (auto split: sum.splits)
qed

lemma attempt_loop_spec:
  assumes "attempt_loop m u b l a c w = (r, c', w')" and "0 < maxRetryAfter c" and "a < maxRetries"
  shows "same_config c c' \<and> (fst r = None) \<noteq> (snd r = None)
    \<and> (\<exists>es. extends w w' es \<and> loop_events c m u b a r es)"
  using assms
proof (induction "maxRetries - a" arbitrary: a l c w)
  case (Suc n)
  obtain v c1 w1 where t: "try_once m u b l a c w = (v, c1, w1)" by (metis prod_cases3)
  have run: "attempt_loop m u b l a c w =
      (case v of Stop r \<Rightarrow> (r, c1, w1) | Again l' \<Rightarrow> attempt_loop m u b l' (Suc a) c1 w1)"
    using Suc.prems(3) t by (subst attempt_loop_unfold) (simp split: turn.split)
  from t Suc.prems(2) show ?case
  proof (cases rule: try_once_cases)
    case (unsent e)
    with run Suc.prems(1) show ?thesis
      by (auto simp: loop_events_def intro!: exI [of _ "[]"])
  next
    case (failed err e)
    with run Suc.prems(1,3) show ?thesis
      by (auto simp: loop_events_def maxRetries_def)
  next
    case (failed_cancelled err e)
    with run Suc.prems(1) linear_delay_pos linear_delay_le [of a] show ?thesis
      by (auto simp: loop_events_def intro!: exI [of _ "sending c m u b a (Inl err) @ [ESleep (linear_delay a)]"])
  next
    case (failed_again err e)
    with run Suc.prems(1) have next_run: "attempt_loop m u b (Some e) (Suc a) c w1 = (r, c', w')" by simp
    have "Suc a < maxRetries" and "n = maxRetries - Suc a"
      using failed_again(4) Suc.hyps(2) by (simp_all add: maxRetries_def)
    with Suc.hyps(1) next_run Suc.prems(2) obtain es where IH:
      "same_config c c'" "(fst r = None) \<noteq> (snd r = None)" "extends w1 w' es"
      "loop_events c m u b (Suc a) r es" by blast
    have "loop_events c m u b a r ((sending c m u b a (Inl err) @ [ESleep (linear_delay a)]) @ es)"
      using failed_again IH(4) linear_delay_pos linear_delay_le [of a]
      by (intro loop_events_step [where out = "Inl err" and lr = "LogRetry 0 0 0 0"]) auto
    with IH extends_trans [OF failed_again(5) IH(3)] show ?thesis by blast
  next
    case (answered resp)
    with run Suc.prems(1,3) show ?thesis
      by (auto simp: loop_events_def maxRetries_def)
  next
    case (answered_cancelled resp e lr d)
    with run Suc.prems(1) delay_bound_le [of a d c] show ?thesis
      by (auto simp: loop_events_def
          intro!: exI [of _ "sending c m u b a (Inr resp) @ [EClose, ELog lr, ESleep d]"])
  next
    case (answered_again resp lr d)
    with run Suc.prems(1) have next_run: "attempt_loop m u b l (Suc a) c1 w1 = (r, c', w')" by simp
    have "Suc a < maxRetries" and "n = maxRetries - Suc a"
      using answered_again(4) Suc.hyps(2) by (simp_all add: maxRetries_def)
    with Suc.hyps(1) next_run Suc.prems(2) answered_again(2) obtain es where IH:
      "same_config c1 c'" "(fst r = None) \<noteq> (snd r = None)" "extends w1 w' es"
      "loop_events c1 m u b (Suc a) r es" by (metis same_config_fields(7))
    have "loop_events c m u b a r ((sending c m u b a (Inr resp) @ [EClose, ELog lr, ESleep d]) @ es)"
      using answered_again IH(4) delay_bound_le [of a d c]
      by (intro loop_events_step [where out = "Inr resp" and lr = lr])
        (auto simp: loop_events_build)
    with IH answered_again(2) extends_trans [OF answered_again(7) IH(3)] show ?thesis
      by (blast intro: same_config_trans)
  qed
qed simp

end
