(* ===== verification/ClientCalls.thy ===== *)
theory ClientCalls
  imports RetryLoop
begin

text \<open>
  What every call on the client guarantees, whatever the network answers: the configuration is
  unchanged, each request goes to the configured base URL with the configured credentials, at
  most a fixed number of requests is sent, and every response body that was received is closed.
  The locale api_call is this contract; it is closed under running one call after another
  (api_call_seq), so the services obtain it for their own operations from the request methods,
  which are interpretations here.
\<close>

section \<open>Well-formed clients\<close>

definition wf_client :: "client \<Rightarrow> bool" where
  "wf_client c \<longleftrightarrow> 0 < maxRetryAfter c \<and> 0 < maxResponseBytes c \<and> 0 < maxFirewallInputRules c
     \<and> baseURLErr c = validateBaseURL (baseURL c)"

text \<open>The options that change the modelled fields.\<close>

definition is_option :: "ClientOption \<Rightarrow> bool" where
  "is_option opt \<longleftrightarrow>
     (\<exists>u. opt = WithBaseURL u) \<or> (\<exists>u. opt = WithEndpoint u) \<or> (\<exists>u. opt = WithUserAgent u)
     \<or> (\<exists>n v. opt = WithApplication n v) \<or> (\<exists>n. opt = WithMaxFirewallInputRules n)
     \<or> (\<exists>d. opt = WithMaxRetryAfter d) \<or> (\<exists>n. opt = WithMaxResponseBytes n)"

lemma option_wf_client: "is_option opt \<Longrightarrow> wf_client c \<Longrightarrow> wf_client (opt c)"
  by (auto simp: is_option_def wf_client_def WithBaseURL_def WithEndpoint_def WithUserAgent_def
      WithApplication_def WithMaxFirewallInputRules_def WithMaxRetryAfter_def
      WithMaxResponseBytes_def Let_def)

lemma default_url_valid: "validateBaseURL DefaultBaseURL = None"
  by code_simp

lemma fold_options_wf:
  "list_all is_option opts \<Longrightarrow> wf_client c \<Longrightarrow> wf_client (fold (\<lambda>opt c. opt c) opts c)"
  by (induction opts arbitrary: c) (auto simp: option_wf_client)

lemma wf_NewClient: "list_all is_option opts \<Longrightarrow> wf_client (NewClient user pass opts)"
  unfolding NewClient_def
  by (rule fold_options_wf)
    (simp_all add: wf_client_def DefaultMaxRetryAfter_def DefaultMaxResponseBytes_def
      MaxFirewallInputRules_def default_url_valid Second_def)

lemma same_config_wf: "same_config c c' \<Longrightarrow> wf_client c \<Longrightarrow> wf_client c'"
  by (auto simp: wf_client_def elim!: same_configE)

section \<open>Credentials and URLs of requests\<close>

definition may_send :: "client \<Rightarrow> bool" where
  "may_send c \<longleftrightarrow> validateCredentials (username c) (password c) = None \<and> baseURLErr c = None"

definition own_request :: "client \<Rightarrow> request \<Rightarrow> bool" where
  "own_request c q \<longleftrightarrow> BasicAuth q = (username c, password c) \<and> UserAgentHeader q = userAgent c
     \<and> prefix (baseURL c) (ReqURL q)"

lemma own_request_config: "same_config c c' \<Longrightarrow> own_request c' q = own_request c q"
  by (simp add: own_request_def same_config_fields)

lemma may_send_config: "same_config c c' \<Longrightarrow> may_send c' = may_send c"
  by (simp add: may_send_def same_config_fields)

lemma own_build_request: "own_request c (build_request c m (baseURL c @ path) b)"
  by (simp add: own_request_def build_request_def)

lemma doRequest_spec:
  assumes "doRequest c w m path body = (r, c', w')" and "0 < maxRetryAfter c"
  shows "same_config c c' \<and> (fst r = None) \<noteq> (snd r = None)
    \<and> (\<exists>es b. extends w w' es \<and> loop_events c m (baseURL c @ path) b 0 r es
        \<and> (sent es \<noteq> [] \<longrightarrow> may_send c))"
proof (cases "may_send c \<and> (\<exists>b. (case body of None \<Rightarrow> Inr [] | Some r \<Rightarrow> ReadAll r) = Inr b)")
  case True
  then obtain b where "(case body of None \<Rightarrow> Inr [] | Some r \<Rightarrow> ReadAll r) = Inr b" by blast
  with True assms(1)
  have "attempt_loop m (baseURL c @ path) b None 0 c w = (r, c', w')"
    by (simp add: doRequest_def may_send_def)
  from attempt_loop_spec [OF this assms(2)] True show ?thesis by (auto simp: maxRetries_def)
next
  case False
  with assms(1) have "c' = c" "w' = w" "fst r = None" "snd r \<noteq> None"
    by (auto simp: doRequest_def may_send_def split: option.splits sum.splits)
  then show ?thesis
    by (auto intro!: exI [of _ "[]"] simp: loop_events_def)
qed

section \<open>handleResponse\<close>

definition quiet :: "event list \<Rightarrow> bool" where
  "quiet es \<longleftrightarrow> sent es = [] \<and> received es = 0 \<and> sleeps es = [] \<and> answers es = []"

lemma handleResponse_spec:
  assumes "handleResponse c w resp v = (r, c', w')"
  shows "c' = c \<and> (\<exists>es. extends w w' es \<and> quiet es \<and> closed es = 1)"
proof (cases "readBodyLimited (RespBody resp) (maxResponseBytes c)")
  case (Inl err)
  with assms extends_emit [of w EClose] show ?thesis
    by (auto simp: handleResponse_def quiet_def intro!: exI [of _ "[EClose]"])
next
  case (Inr body)
  let ?l = "ELog (LogResponse (StatusCode resp) (int (length body)))"
  have "extends w (emit EClose (emit ?l w)) [?l, EClose]"
    using extends_trans [OF extends_emit extends_emit] by simp
  moreover have "c' = c" "w' = emit EClose (emit ?l w)"
    using assms Inr
    by (auto simp: handleResponse_def Let_def split: if_splits sum.splits option.splits result.splits)
  ultimately show ?thesis by (auto simp: quiet_def intro!: exI [of _ "[?l, EClose]"])
qed

section \<open>The contract of a call\<close>

definition call_events :: "client \<Rightarrow> nat \<Rightarrow> event list \<Rightarrow> bool" where
  "call_events c n es \<longleftrightarrow> received es = closed es \<and> length (sent es) \<le> n
     \<and> (\<forall>q \<in> set (sent es). own_request c q) \<and> (sent es \<noteq> [] \<longrightarrow> may_send c)"

lemma call_events_Nil [simp]: "call_events c n []"
  by (simp add: call_events_def)

lemma call_events_append:
  "same_config c c' \<Longrightarrow> call_events c n es \<Longrightarrow> call_events c' k es' \<Longrightarrow> call_events c (n + k) (es @ es')"
  by (auto simp: call_events_def own_request_config may_send_config)

locale api_call =
  fixes call :: "client \<Rightarrow> world \<Rightarrow> 'a result \<times> client \<times> world" and bound :: nat
  assumes contract: "wf_client c \<Longrightarrow> call c w = (r, c', w') \<Longrightarrow>
    same_config c c' \<and> (\<exists>es. extends w w' es \<and> call_events c bound es)"
begin

lemma keeps_config: "wf_client c \<Longrightarrow> call c w = (r, c', w') \<Longrightarrow> same_config c c'"
  using contract by blast

lemma bodies_closed:
  assumes "wf_client c" and "call c w = (r, c', w')"
  shows "received (new_events w w') = closed (new_events w w')"
  using contract [OF assms] by (auto simp: call_events_def dest: extends_new_events)

lemma sends_at_most:
  assumes "wf_client c" and "call c w = (r, c', w')"
  shows "length (sent (new_events w w')) \<le> bound"
  using contract [OF assms] by (auto simp: call_events_def dest: extends_new_events)

lemma sends_own:
  assumes "wf_client c" and "call c w = (r, c', w')" and "q \<in> set (sent (new_events w w'))"
  shows "own_request c q \<and> may_send c"
  using contract [OF assms(1,2)] assms(3) by (auto simp: call_events_def dest: extends_new_events)

end

lemma api_call_finish:
  assumes "wf_client c" and "finish (doRequest c w m path body) v = (r, c', w')"
  shows "same_config c c' \<and> (\<exists>es. extends w w' es \<and> call_events c 3 es)"
proof -
  obtain resp err c1 w1 where d: "doRequest c w m path body = ((resp, err), c1, w1)"
    by (metis prod.exhaust)
  from doRequest_spec [OF d] assms(1) obtain es b where spec:
    "same_config c c1" "(resp = None) \<noteq> (err = None)" "extends w w1 es"
    "loop_events c m (baseURL c @ path) b 0 (resp, err) es" "sent es \<noteq> [] \<longrightarrow> may_send c"
    by (auto simp: wf_client_def)
  have own: "\<forall>q \<in> set (sent es). own_request c q"
    using spec(4) own_build_request by (auto simp: loop_events_def)
  show ?thesis
  proof (cases resp)
    case None
    with spec(2) assms(2) d have "c' = c1" "w' = w1" by (auto simp: finish_def)
    moreover have "call_events c 3 es"
      using None spec(4,5) own by (auto simp: call_events_def loop_events_def)
    ultimately show ?thesis using spec(1,3) by blast
  next
    case (Some p)
    with spec(2) assms(2) d have "handleResponse c1 w1 p v = (r, c', w')" by (simp add: finish_def)
    from handleResponse_spec [OF this] obtain es' where h:
      "c' = c1" "extends w1 w' es'" "quiet es'" "closed es' = 1" by blast
    have "call_events c 3 (es @ es')"
      using Some spec(4,5) own h(3,4) by (auto simp: call_events_def loop_events_def quiet_def)
    with h(1,2) spec(1) extends_trans [OF spec(3)] show ?thesis by blast
  qed
qed

interpretation get_call: api_call "\<lambda>c w. client_Get c w path v" 3 for path v
  by unfold_locales (unfold client_Get_def, rule api_call_finish)

interpretation post_call: api_call "\<lambda>c w. client_Post c w path data v" 3 for path data v
  by unfold_locales (unfold client_Post_def, rule api_call_finish)

interpretation post_raw_call: api_call "\<lambda>c w. client_PostRaw c w path data v" 3 for path data v
  by unfold_locales (unfold client_PostRaw_def, rule api_call_finish)

interpretation delete_raw_call: api_call "\<lambda>c w. client_DeleteRaw c w path data v" 3 for path data v
  by unfold_locales (unfold client_DeleteRaw_def, rule api_call_finish)

interpretation put_call: api_call "\<lambda>c w. client_Put c w path data v" 3 for path data v
  by unfold_locales (unfold client_Put_def, rule api_call_finish)

interpretation delete_call: api_call "\<lambda>c w. client_Delete c w path" 3 for path
  by unfold_locales (unfold client_Delete_def, rule api_call_finish)

interpretation delete_body_call: api_call "\<lambda>c w. client_DeleteWithBody c w path data v" 3 for path data v
  by unfold_locales (unfold client_DeleteWithBody_def, rule api_call_finish)

section \<open>Calls in sequence\<close>

text \<open>A call whose result feeds another; an error or a panic ends the sequence.\<close>

definition seq_call ::
  "(client \<Rightarrow> world \<Rightarrow> 'a result \<times> client \<times> world)
     \<Rightarrow> ('a \<Rightarrow> client \<Rightarrow> world \<Rightarrow> 'b result \<times> client \<times> world)
     \<Rightarrow> client \<Rightarrow> world \<Rightarrow> 'b result \<times> client \<times> world" where
  "seq_call f g c w =
     (case f c w of
        (Ok x, c1, w1) \<Rightarrow> g x c1 w1
      | (Err e, c1, w1) \<Rightarrow> (Err e, c1, w1)
      | (Panic p, c1, w1) \<Rightarrow> (Panic p, c1, w1))"

lemma api_call_weaken:
  assumes "api_call f n" and "n \<le> k"
  shows "api_call f k"
proof
  fix c w r c' w'
  assume "wf_client c" and "f c w = (r, c', w')"
  with api_call.contract [OF assms(1)] assms(2)
  show "same_config c c' \<and> (\<exists>es. extends w w' es \<and> call_events c k es)"
    by (force simp: call_events_def)
qed

lemma api_call_local: "api_call (\<lambda>c w. (r c, c, w)) 0"
  by unfold_locales auto

lemma api_call_seq:
  assumes "api_call f n" and "\<And>x. api_call (g x) k"
  shows "api_call (seq_call f g) (n + k)"
proof
  fix c w r c' w'
  assume wf: "wf_client c" and run: "seq_call f g c w = (r, c', w')"
  obtain r1 c1 w1 where f: "f c w = (r1, c1, w1)" by (metis prod_cases3)
  with api_call.contract [OF assms(1) wf] obtain es where 1:
    "same_config c c1" "extends w w1 es" "call_events c n es" by blast
  show "same_config c c' \<and> (\<exists>es. extends w w' es \<and> call_events c (n + k) es)"
  proof (cases r1)
    case (Ok x)
    with run f have "g x c1 w1 = (r, c', w')" by (simp add: seq_call_def)
    with api_call.contract [OF assms(2) same_config_wf [OF 1(1) wf]] obtain es' where
      "same_config c1 c'" "extends w1 w' es'" "call_events c1 k es'" by blast
    with 1 show ?thesis
      by (meson call_events_append extends_trans same_config_trans)
  qed (use run f 1 in \<open>auto simp: seq_call_def call_events_def\<close>)
qed

end
