(* ===== verification/Ports.thy ===== *)
theory Ports
  imports Errors "HOL-Library.Word"
begin

text \<open>
  Port ranges of types.go: the PortRange struct, its String method and ParsePortRange, which
  reads a single port, a range, or a comma-separated list of either. The recursion of
  ParsePortRange on the parts of a list is the code's own; it ends because a part of a split
  holds no comma.
\<close>

section \<open>Trimming and splitting\<close>

lemma strip_one_suffix: "strip_one ps s = Some s' \<Longrightarrow> suffix s' s"
  by (induction ps) (auto simp: suffix_drop split: if_splits)

lemma strip_all_suffix: "suffix (strip_all ps s) s"
proof (induction ps s rule: strip_all.induct)
  case (1 ps s)
  show ?case
  proof (cases "strip_one ps s")
    case None
    then show ?thesis by (subst strip_all.simps) simp
  next
    case (Some s')
    with 1 have "suffix (strip_all ps s') s'" by blast
    with Some strip_one_suffix show ?thesis
      by (subst strip_all.simps) (auto intro: suffix_order.trans)
  qed
qed

lemma suffix_count_le: "suffix s' s \<Longrightarrow> count_list s' c \<le> count_list s c"
  by (auto simp: suffix_def)

lemma count_TrimSpace: "count_list (TrimSpace s) c \<le> count_list s c"
proof -
  let ?left = "strip_all space_seqs s"
  have "count_list (TrimSpace s) c \<le> count_list (rev ?left) c"
    using suffix_count_le [OF strip_all_suffix, of "map rev space_seqs" "rev ?left" c]
    by (simp add: TrimSpace_def)
  also have "\<dots> \<le> count_list s c"
    by (simp add: suffix_count_le strip_all_suffix)
  finally show ?thesis .
qed

lemma length_split_on: "length (split_on c s) = Suc (count_list s c)"
  by (induction s) (auto simp: neq_Nil_conv)

lemma split_on_counts: "p \<in> set (split_on c s) \<Longrightarrow> count_list p c = 0"
  using split_on_pieces by (fastforce simp: count_list_0_iff)

section \<open>Port ranges\<close>

record PortRange =
  Start :: "16 word"
  End :: "16 word"

definition PortRange_String :: "PortRange \<Rightarrow> string" where
  "PortRange_String p =
     (if Start p = End p then dec_of_nat (unat (Start p))
      else dec_of_nat (unat (Start p)) @ ''-'' @ dec_of_nat (unat (End p)))"

definition SplitN2 :: "char \<Rightarrow> string \<Rightarrow> string \<times> string" where
  "SplitN2 c s = (let (a, b, found) = Cut s c in (a, b))"

definition parse_single :: "string \<Rightarrow> error + PortRange list" where
  "parse_single s =
     (if ContainsRune s CHR ''-'' then
        (let (a, b) = SplitN2 CHR ''-'' s
         in case ParseUint a 16 of
              Inl e \<Rightarrow> Inl (ErrorString (''invalid port start: '' @ a))
            | Inr start \<Rightarrow>
               (case ParseUint b 16 of
                  Inl e \<Rightarrow> Inl (ErrorString (''invalid port end: '' @ b))
                | Inr fin \<Rightarrow>
                   (if start > fin
                    then Inl (ErrorString (''inverted port range: '' @ a @ ''-'' @ b @ '' (start > end)''))
                    else Inr [\<lparr>Start = of_nat start, End = of_nat fin\<rparr>])))
      else
        (case ParseUint s 16 of
           Inl e \<Rightarrow> Inl (ErrorString (''invalid port: '' @ s))
         | Inr port \<Rightarrow> Inr [\<lparr>Start = of_nat port, End = of_nat port\<rparr>]))"

definition port_measure :: "string + string list \<Rightarrow> nat" where
  "port_measure x =
     (case x of Inl s \<Rightarrow> 3 * count_list s CHR '',''
      | Inr ps \<Rightarrow> (\<Sum>p \<leftarrow> ps. Suc (3 * count_list p CHR '','')))"

lemma port_measure_split:
  assumes "ContainsRune s CHR '',''"
  shows "port_measure (Inr (split_on CHR '','' s)) < port_measure (Inl s)"
proof -
  have "map (\<lambda>p. Suc (3 * count_list p CHR '','')) (split_on CHR '','' s)
          = map (\<lambda>p. 1) (split_on CHR '','' s)"
    using split_on_counts by (intro map_cong) auto
  then have "port_measure (Inr (split_on CHR '','' s)) = Suc (count_list s CHR '','')"
    unfolding port_measure_def sum.case
    by (simp only: sum_list_triv length_split_on) simp
  moreover have "0 < count_list s CHR '',''"
    using assms by (metis ContainsRune_def count_list_0_iff neq0_conv)
  ultimately show ?thesis by (simp add: port_measure_def)
qed

function ParsePortRange :: "string \<Rightarrow> error + PortRange list"
  and parse_parts :: "string list \<Rightarrow> error + PortRange list" where
  "ParsePortRange s =
     (if s = [] then Inr []
      else if ContainsRune s CHR '','' then parse_parts (split_on CHR '','' s)
      else parse_single s)"
| "parse_parts [] = Inr []"
| "parse_parts (part # parts) =
     (case ParsePortRange (TrimSpace part) of
        Inl e \<Rightarrow> Inl e
      | Inr rs \<Rightarrow>
         (case parse_parts parts of Inl e \<Rightarrow> Inl e | Inr rs' \<Rightarrow> Inr (rs @ rs')))"
  by pat_completeness auto
termination
proof (relation "measure port_measure", goal_cases)
  case (2 s)
  then show ?case using port_measure_split by simp
next
  case (3 part parts)
  then show ?case using count_TrimSpace [of part "CHR '',''"] by (simp add: port_measure_def)
qed (simp_all add: port_measure_def)

declare ParsePortRange.simps [simp del]

section \<open>Every parsed range is well formed\<close>

definition wf_range :: "PortRange \<Rightarrow> bool" where
  "wf_range p \<longleftrightarrow> Start p \<le> End p"

lemma unat_of_nat16: "n < 2 ^ 16 \<Longrightarrow> unat (of_nat n :: 16 word) = n"
  by (simp add: unat_of_nat take_bit_nat_eq_self)

lemma parse_single_wf: "parse_single s = Inr rs \<Longrightarrow> r \<in> set rs \<Longrightarrow> wf_range r"
  by (auto simp: parse_single_def wf_range_def Let_def word_le_nat_alt unat_of_nat16
      split: if_splits prod.splits sum.splits dest!: ParseUint_bound)

lemma parse_wf:
  "ParsePortRange s = Inr rs \<Longrightarrow> \<forall>r \<in> set rs. wf_range r"
  "parse_parts ps = Inr rs' \<Longrightarrow> \<forall>r \<in> set rs'. wf_range r"
proof (induction s and ps arbitrary: rs and rs' rule: ParsePortRange_parse_parts.induct)
  case (1 s)
  show ?case
  proof (cases "s = [] \<or> \<not> ContainsRune s CHR '',''")
    case True
    with "1.prems" show ?thesis
      by (subst (asm) ParsePortRange.simps) (auto split: if_splits dest: parse_single_wf)
  next
    case False
    with "1.prems" have "parse_parts (split_on CHR '','' s) = Inr rs"
      by (subst (asm) ParsePortRange.simps) simp
    with "1.IH" False show ?thesis by blast
  qed
qed (auto split: sum.splits)

section \<open>Printing and parsing\<close>

lemma PortRange_String_chars:
  "c \<in> set (PortRange_String p) \<Longrightarrow> digit_val c \<noteq> None \<or> c = CHR ''-''"
  by (auto simp: PortRange_String_def split: if_splits dest: dec_of_nat_digits)

lemma dash_not_digit: "digit_val CHR ''-'' = None" and comma_not_digit: "digit_val CHR '','' = None"
  by (simp_all add: digit_val_def)

lemma no_dash_dec_of_nat: "CHR ''-'' \<notin> set (dec_of_nat n)"
  using dec_of_nat_digits dash_not_digit by metis

lemma PortRange_String_no_comma: "CHR '','' \<notin> set (PortRange_String p)"
  using PortRange_String_chars comma_not_digit by fastforce

lemma PortRange_String_graphic: "list_all graphic (PortRange_String p)"
  using dec_of_nat_graphic by (simp add: PortRange_String_def graphic_def)

lemma PortRange_String_nonempty [simp]: "PortRange_String p \<noteq> []"
  by (simp add: PortRange_String_def)

lemma ParseUint_unat16: "ParseUint (dec_of_nat (unat (w :: 16 word))) 16 = Inr (unat w)"
  using unsigned_less [of w] by (intro ParseUint_dec_of_nat) simp

lemma parse_single_String:
  assumes "wf_range p"
  shows "parse_single (PortRange_String p) = Inr [p]"
proof (cases "Start p = End p")
  case True
  then show ?thesis
    by (simp add: parse_single_def PortRange_String_def ContainsRune_def no_dash_dec_of_nat
        ParseUint_unat16)
next
  case False
  with assms show ?thesis
    by (simp add: parse_single_def PortRange_String_def ContainsRune_def SplitN2_def
        Cut_append no_dash_dec_of_nat ParseUint_unat16 wf_range_def word_le_nat_alt not_less)
qed

lemma ParsePortRange_String: "wf_range p \<Longrightarrow> ParsePortRange (PortRange_String p) = Inr [p]"
  by (subst ParsePortRange.simps)
    (simp add: ContainsRune_def PortRange_String_no_comma parse_single_String)

lemma strip_all_blank: "strip_all space_seqs (CHR '' '' # s) = strip_all space_seqs s"
  by (subst strip_all.simps) (simp add: space_seqs_def HasPrefix_def)

lemma TrimSpace_blanks:
  assumes "list_all graphic s"
  shows "TrimSpace (replicate k CHR '' '' @ s) = s"
proof -
  have "TrimSpace (replicate k CHR '' '' @ s) = TrimSpace s"
    unfolding TrimSpace_def by (induction k) (simp_all add: strip_all_blank)
  with assms show ?thesis by (simp add: TrimSpace_graphic)
qed

lemma parse_parts_Strings:
  assumes "\<forall>p \<in> set ps. wf_range p"
  shows "parse_parts (map (\<lambda>p. replicate k CHR '' '' @ PortRange_String p) ps) = Inr ps"
  using assms
  by (induction ps)
    (simp_all add: TrimSpace_blanks PortRange_String_graphic ParsePortRange_String)

section \<open>Properties\<close>

text \<open>
  C37: printing a non-empty list of well-formed ranges, joined by a comma and any number of
  blanks, and parsing the text gives the list back.
\<close>

theorem ParsePortRange_roundtrip:
  assumes "ps \<noteq> []" and "\<forall>p \<in> set ps. wf_range p"
  shows "ParsePortRange (Join (map PortRange_String ps) (CHR '','' # replicate k CHR '' '')) = Inr ps"
proof (cases ps)
  case (Cons p qs)
  show ?thesis
  proof (cases "qs = []")
    case True
    with Cons assms show ?thesis by (simp add: ParsePortRange_String)
  next
    case False
    let ?parts = "PortRange_String p # map (\<lambda>q. replicate k CHR '' '' @ PortRange_String q) qs"
    have join: "Join (map PortRange_String ps) (CHR '','' # replicate k CHR '' '') = Join ?parts '',''"
      using Join_pad [of "PortRange_String p" "map PortRange_String qs" "CHR '',''"
          "replicate k CHR '' ''"] Cons
      by (simp add: comp_def)
    have "\<forall>x \<in> set ?parts. CHR '','' \<notin> set x"
      using PortRange_String_no_comma by auto
    then have split: "split_on CHR '','' (Join ?parts '','') = ?parts"
      by (intro split_on_Join) auto
    have "ContainsRune (Join ?parts '','') CHR '',''" and "Join ?parts '','' \<noteq> []"
      using False by (simp_all add: Join_Cons ContainsRune_def)
    then have "ParsePortRange (Join ?parts '','') = parse_parts ?parts"
      by (subst ParsePortRange.simps) (simp add: split)
    also have "\<dots> = Inr ps"
      using assms(2) Cons
      by (simp add: TrimSpace_graphic PortRange_String_graphic ParsePortRange_String parse_parts_Strings)
    finally show ?thesis by (simp add: join)
  qed
qed (use assms in simp)

theorem ParsePortRange_roundtrip_witness:
  "ParsePortRange (Join (map PortRange_String [\<lparr>Start = 80, End = 443\<rparr>, \<lparr>Start = 22, End = 22\<rparr>])
     '', '') = Inr [\<lparr>Start = 80, End = 443\<rparr>, \<lparr>Start = 22, End = 22\<rparr>]"
  using ParsePortRange_roundtrip [of "[\<lparr>Start = 80, End = 443\<rparr>, \<lparr>Start = 22, End = 22\<rparr>]" 1]
  by (simp add: wf_range_def)

text \<open>
  Every range ParsePortRange returns has its start at most its end, however the text is
  spelled; an inverted range is an error.
\<close>

theorem ParsePortRange_well_formed:
  assumes "ParsePortRange s = Inr rs"
  shows "list_all wf_range rs"
  using parse_wf(1) [OF assms] by (simp add: list_all_iff)

theorem ParsePortRange_well_formed_witness:
  "list_all wf_range [\<lparr>Start = 1, End = 2\<rparr>, \<lparr>Start = 5, End = 5\<rparr>]"
proof -
  have "ParsePortRange ''1-2, 5'' = Inr [\<lparr>Start = 1, End = 2\<rparr>, \<lparr>Start = 5, End = 5\<rparr>]"
    by (simp add: ParsePortRange.simps parse_single_def ContainsRune_def SplitN2_def Cut_def
        ParseUint_def digit_val_def TrimSpace_def strip_all.simps space_seqs_def HasPrefix_def)
  then show ?thesis by (rule ParsePortRange_well_formed)
qed

end
