(* ===== verification/ClientProps.thy ===== *)
theory ClientProps
  imports ClientCalls Ports
begin

text \<open>
  The properties of client.go: how often and with what a request is sent, which answers lead to
  another attempt, how long the client waits, what becomes of the response body, and when a call
  may succeed. The retry loop is also compared with an abstract description: without a
  cancellation it is a search for the first answer that needs no retry.
\<close>

section \<open>The abstract retry loop\<close>

text \<open>The k-th answer a world gives to a request that is repeated.\<close>

definition answer_at :: "world \<Rightarrow> request \<Rightarrow> nat \<Rightarrow> error + response" where
  "answer_at w q k = snd (transport w (sent (trace w) @ replicate (Suc k) q))"

definition status_of :: "error + response \<Rightarrow> int option" where
  "status_of out = (case out of Inl e \<Rightarrow> None | Inr r \<Rightarrow> Some (StatusCode r))"

fun final_attempt :: "string \<Rightarrow> (nat \<Rightarrow> error + response) \<Rightarrow> nat \<Rightarrow> nat \<Rightarrow> nat" where
  "final_attempt m ans a 0 = a"
| "final_attempt m ans a (Suc n) =
     (if retryable m a (status_of (ans a)) then final_attempt m ans (Suc a) n else a)"

definition outcome :: "error + response \<Rightarrow> resp_err" where
  "outcome out =
     (case out of Inl e \<Rightarrow> (None, Some (NewNetworkError ''request failed'' (Some e)))
      | Inr r \<Rightarrow> (Some r, None))"

lemma sleepCtx_uncancelled:
  "sleepCtx d w = (se, w') \<Longrightarrow> done_at w = None \<Longrightarrow> se = None"
  by (auto simp: sleepCtx_def wait_timer_def Let_def)

lemma Do_answer:
  assumes "Do q w1 = (out, w2)" and "extends w w1 es" and "sent es = []"
  shows "out = snd (transport w (sent (trace w) @ [q]))"
  using assms by (auto simp: Do_def extends_def same_env_def split: prod.splits)

lemma try_once_uncancelled:
  assumes "done_at w = None" and "url_Parse u = Inr p" and "q = build_request c m u b"
    and "ans = snd (transport w (sent (trace w) @ [q]))"
  shows "\<exists>v c' w'. try_once m u b l a c w = (v, c', w') \<and>
    (if retryable m a (status_of ans) \<and> a < 2 then \<exists>l'. v = Again l' else v = Stop (outcome ans))"
proof -
  let ?w1 = "emit (ELog (LogRequest m u (int a + 1) (int maxRetries) (int (length b)))) w"
  obtain out w2 where Do: "Do q ?w1 = (out, w2)" by force
  have out: "ans = out"
    using Do_answer [OF Do extends_emit] assms(4) by simp
  have live: "done_at w2 = None"
    using extends_Do [OF Do] assms(1) by (simp add: extends_def same_env_def emit_def)
  have sl: "sleepCtx d (emit e1 (emit e2 w2)) = (se, w') \<Longrightarrow> se = None"
    "sleepCtx d w2 = (se, w') \<Longrightarrow> se = None" for d e1 e2 se w'
    using sleepCtx_uncancelled live by (fastforce simp: emit_def)+
  from assms(1) have "\<not> ctx_done w" by (simp add: ctx_done_def)
  with Do assms(2,3) out show ?thesis
    by (cases out)
      (auto simp: try_once_def retryable_def status_of_def outcome_def maxRetries_def Let_def
        split: prod.splits option.splits dest!: sl)
qed

lemma try_once_again:
  assumes "try_once m u b l a c w = (Again l', c', w')" and "0 < maxRetryAfter c"
  shows "same_config c c' \<and> (\<exists>es. extends w w' es \<and> sent es = [build_request c m u b])"
  using assms by (cases rule: try_once_cases) (auto intro!: exI)

lemma try_once_stop_sent:
  assumes "try_once m u b l a c w = (Stop r, c', w')" and "0 < maxRetryAfter c"
    and "\<not> ctx_done w" and "url_Parse u = Inr p"
  shows "\<exists>es. extends w w' es \<and> sent es = [build_request c m u b]"
  using assms(1,2)
proof (cases rule: try_once_cases)
  case (unsent e)
  obtain out w2 where Do: "Do (build_request c m u b)
      (emit (ELog (LogRequest m u (int a + 1) (int maxRetries) (int (length b)))) w) = (out, w2)"
    by force
  from sending_extends [OF Do] have "length (trace w) < length (trace w2)"
    by (simp add: extends_def sending_def)
  moreover have "length (trace w2) \<le> length (trace w')"
    using assms Do
    by (auto simp: try_once_def Let_def extends_def emit_def split: sum.splits if_splits prod.splits option.splits
        dest!: sleepCtx_extends)
  ultimately show ?thesis using unsent by (simp add: extends_def)
qed (auto intro!: exI)

lemma answer_at_next:
  assumes "extends w w' es" and "sent es = [q]"
  shows "answer_at w' q k = answer_at w q (Suc k)"
  using assms by (simp add: answer_at_def extends_def same_env_def)

lemma attempt_loop_uncancelled:
  assumes "attempt_loop m u b l a c w = (r, c', w')" and "0 < maxRetryAfter c" and "a + n = 2"
    and "done_at w = None" and "url_Parse u = Inr p" and "q = build_request c m u b"
    and "\<And>k. ans (a + k) = answer_at w q k" and "K = final_attempt m ans a n"
  shows "r = outcome (ans K) \<and> a \<le> K \<and> (\<exists>es. extends w w' es \<and> sent es = replicate (Suc K - a) q)"
  using assms
proof (induction n arbitrary: a l c w)
  case 0
  obtain v c1 w1 where t: "try_once m u b l a c w = (v, c1, w1)" by (metis prod_cases3)
  have an: "ans a = snd (transport w (sent (trace w) @ [q]))"
    using "0.prems"(7) [of 0] by (simp add: answer_at_def)
  from try_once_uncancelled [OF "0.prems"(4-6) an, of l a] t "0.prems"(3)
  have v: "v = Stop (outcome (ans a))" by simp
  moreover have "attempt_loop m u b l a c w = (outcome (ans a), c1, w1)"
    using t v "0.prems"(3) by (subst attempt_loop_unfold) (simp add: maxRetries_def)
  moreover have "\<not> ctx_done w" using "0.prems"(4) by (simp add: ctx_done_def)
  ultimately show ?case
    using try_once_stop_sent [of m u b l a c w] t "0.prems" by auto
next
  case (Suc n)
  obtain v c1 w1 where t: "try_once m u b l a c w = (v, c1, w1)" by (metis prod_cases3)
  have an: "ans a = snd (transport w (sent (trace w) @ [q]))"
    using Suc.prems(7) [of 0] by (simp add: answer_at_def)
  note step = try_once_uncancelled [OF Suc.prems(4-6) an, of l a]
  have a: "a < 2" using Suc.prems(3) by simp
  show ?case
  proof (cases "retryable m a (status_of (ans a))")
    case False
    with step t have v: "v = Stop (outcome (ans a))" by simp
    moreover have "attempt_loop m u b l a c w = (outcome (ans a), c1, w1)"
      using t v a by (subst attempt_loop_unfold) (simp add: maxRetries_def)
    moreover have "\<not> ctx_done w" using Suc.prems(4) by (simp add: ctx_done_def)
    ultimately show ?thesis
      using try_once_stop_sent [of m u b l a c w] t Suc.prems False by auto
  next
    case True
    with step t a obtain l' where v: "v = Again l'" by auto
    from try_once_again t v Suc.prems(2) obtain es where es:
      "same_config c c1" "extends w w1 es" "sent es = [q]" using Suc.prems(6) by blast
    have run: "attempt_loop m u b l' (Suc a) c1 w1 = (r, c', w')"
      using t v a Suc.prems(1) by (subst (asm) attempt_loop_unfold) (simp add: maxRetries_def)
    have "r = outcome (ans K) \<and> Suc a \<le> K
        \<and> (\<exists>es. extends w1 w' es \<and> sent es = replicate (Suc K - Suc a) q)"
    proof (rule Suc.IH [OF run])
      show "ans (Suc a + k) = answer_at w1 q k" for k
        using Suc.prems(7) [of "Suc k"] answer_at_next [OF es(2,3)] by simp
      show "done_at w1 = None"
        using es(2) Suc.prems(4) by (simp add: extends_def same_env_def)
    qed (use es(1) Suc.prems True in \<open>auto simp: same_config_fields same_config_build_request\<close>)
    then obtain es' where es': "r = outcome (ans K)" "Suc a \<le> K" "extends w1 w' es'"
      "sent es' = replicate (Suc K - Suc a) q" by blast
    from extends_trans [OF es(2) es'(3)] es(3) es'(2,4) have
      "extends w w' (es @ es') \<and> sent (es @ es') = replicate (Suc K - a) q"
      by (simp add: Suc_diff_le flip: replicate_Suc)
    with es' show ?thesis by (meson Suc_leD)
  qed
qed

section \<open>A laboratory world\<close>

text \<open>
  The world of the witnesses: the n-th request is answered by the n-th element of a list (the last
  one again and again), each answer takes 5 nanoseconds, and the context is never cancelled.
\<close>

definition lab_client :: client where "lab_client = NewClient ''robot'' ''secret'' []"

definition lab_world :: "(error + response) list \<Rightarrow> world" where
  "lab_world script =
     \<lparr>clock = 0, done_at = None, ctx_err = ErrorString ''context canceled'',
      select_done = (\<lambda>t. False),
      transport = (\<lambda>rs. (5, script ! (min (length rs) (length script) - 1))),
      parse_time = (\<lambda>v. None), trace = []\<rparr>"

definition reply :: "int \<Rightarrow> Header \<Rightarrow> string \<Rightarrow> error + response" where
  "reply st h body = Inr \<lparr>StatusCode = st, RespHeader = h, RespBody = (body, None)\<rparr>"

lemma lab_client_wf: "wf_client lab_client"
  unfolding lab_client_def by (rule wf_NewClient) simp

section \<open>Construction\<close>

lemma options_keep_credentials:
  "list_all is_option opts \<Longrightarrow>
   username (fold (\<lambda>opt c. opt c) opts c) = username c \<and> password (fold (\<lambda>opt c. opt c) opts c) = password c"
  by (induction opts arbitrary: c)
    (auto simp: is_option_def WithBaseURL_def WithEndpoint_def WithUserAgent_def WithApplication_def
      WithMaxFirewallInputRules_def WithMaxRetryAfter_def WithMaxResponseBytes_def Let_def)

text \<open>
  C39: a client built with any of the package's options, in any order and any number, is well formed: its
  limits are positive, and its stored base URL error is the verdict of the validation on the base
  URL it really has. The credentials are the ones given. The last option of a kind decides: a base URL
  replaces the earlier one and its verdict, and a limit replaces the earlier one unless it is not positive, in
  which case the earlier one stands.
\<close>

theorem NewClient_wf:
  assumes "list_all is_option opts"
  shows "wf_client (New user pass opts) \<and> username (New user pass opts) = user \<and> password (New user pass opts) = pass
    \<and> (let c = New user pass (opts @ [WithBaseURL url])
        in baseURL c = TrimSuffix url ''/'' \<and> baseURLErr c = validateBaseURL (TrimSuffix url ''/''))
    \<and> maxRetryAfter (New user pass (opts @ [WithMaxRetryAfter n]))
        = (if n > 0 then n else maxRetryAfter (New user pass opts))
    \<and> maxResponseBytes (New user pass (opts @ [WithMaxResponseBytes n]))
        = (if n > 0 then n else maxResponseBytes (New user pass opts))
    \<and> maxFirewallInputRules (New user pass (opts @ [WithMaxFirewallInputRules n]))
        = (if n > 0 then n else maxFirewallInputRules (New user pass opts))"
  using wf_NewClient [OF assms] options_keep_credentials [OF assms]
  by (simp add: New_def NewClient_def WithBaseURL_def WithMaxRetryAfter_def WithMaxResponseBytes_def
      WithMaxFirewallInputRules_def Let_def)

theorem NewClient_wf_witness:
  "wf_client (New ''u'' ''p'' [WithMaxRetryAfter (- 1), WithBaseURL ''ftp://h''])
   \<and> maxRetryAfter (New ''u'' ''p'' [WithMaxRetryAfter (- 1), WithBaseURL ''ftp://h'', WithMaxRetryAfter 5]) = 5"
proof -
  have "list_all is_option [WithMaxRetryAfter (- 1), WithBaseURL ''ftp://h'']"
    by (auto simp: is_option_def)
  from NewClient_wf [OF this, of "''u''" "''p''" _ 5] show ?thesis by simp
qed

section \<open>Requests and retries\<close>

lemma run_events:
  assumes "wf_client c" and "doRequest c w m path body = (r, c', w')"
  shows "same_config c c' \<and> (fst r = None) \<noteq> (snd r = None)
    \<and> (\<exists>b. loop_events c m (baseURL c @ path) b 0 r (new_events w w'))
    \<and> (sent (new_events w w') \<noteq> [] \<longrightarrow> may_send c)"
  using doRequest_spec [OF assms(2)] assms(1) by (auto simp: wf_client_def dest: extends_new_events)

text \<open>
  DoRequest returns a response or an error, never both and never neither, and changes nothing of
  the client but the rate limit it recorded.
\<close>

theorem doRequest_result:
  assumes "wf_client c" and "doRequest c w m path body = (r, c', w')"
  shows "((\<exists>resp. r = (Some resp, None)) \<or> (\<exists>err. r = (None, Some err)))
    \<and> c' = c\<lparr>rateLimit := rateLimit c'\<rparr>"
  using run_events [OF assms] by (cases r) (auto simp: same_config_def)

theorem doRequest_result_witness:
  "\<exists>r. fst (doRequest lab_client (lab_world [reply 404 [] '''']) ''GET'' ''/server'' None) = r
     \<and> ((\<exists>resp. r = (Some resp, None)) \<or> (\<exists>err. r = (None, Some err)))"
  using doRequest_result [OF lab_client_wf, of "lab_world [reply 404 [] '''']" "''GET''" "''/server''" None]
  by (metis prod.collapse)

text \<open>
  C3: doRequest sends at most three requests, all of them the same one: the configured base URL
  followed by the path, the configured credentials and user agent, and one body. It sends nothing
  at all when the credentials are missing or malformed, or when the base URL was rejected.
\<close>

theorem doRequest_requests:
  assumes "wf_client c" and "doRequest c w m path body = (r, c', w')"
  shows "length (sent (new_events w w')) \<le> 3
    \<and> (\<exists>b. set (sent (new_events w w')) \<subseteq> {build_request c m (baseURL c @ path) b})
    \<and> (validateCredentials (username c) (password c) \<noteq> None \<or> baseURLErr c \<noteq> None
        \<longrightarrow> sent (new_events w w') = [])"
  using run_events [OF assms] by (fastforce simp: loop_events_def may_send_def)

theorem doRequest_requests_witness:
  "let (r, c', w') = doRequest lab_client (lab_world [reply 503 [] '''']) ''GET'' ''/server'' None
   in length (sent (new_events (lab_world [reply 503 [] '''']) w')) \<le> 3 \<and> length (sent (trace w')) = 3"
proof -
  have "length (sent (trace (snd (snd (doRequest lab_client (lab_world [reply 503 [] '''']) ''GET'' ''/server'' None))))) = 3"
    by code_simp
  then show ?thesis
    using doRequest_requests [OF lab_client_wf, of "lab_world [reply 503 [] '''']" "''GET''" "''/server''" None]
    by (auto split: prod.split)
qed

lemma retried_nth: "retried m a xs \<Longrightarrow> Suc i < length xs \<Longrightarrow> retryable m (a + i) (xs ! i)"
proof (induction m a xs arbitrary: i rule: retried.induct)
  case (1 m a x y ys)
  then show ?case by (cases i) auto
qed auto

text \<open>
  C1: why a request may be sent again. The answer to each attempt but the last was a 429; a 401 to
  the very first attempt; or, for a method other than POST, a transport error or a status of 500
  or above. So a POST that may have taken effect on the server is never repeated.
\<close>

theorem doRequest_resend:
  assumes "wf_client c" and "doRequest c w m path body = (r, c', w')"
    and "Suc i < length (sent (new_events w w'))"
  shows "case answers (new_events w w') ! i of
           None \<Rightarrow> m \<noteq> ''POST''
         | Some st \<Rightarrow> st = 429 \<or> (st = 401 \<and> i = 0) \<or> (500 \<le> st \<and> m \<noteq> ''POST'')"
proof -
  from run_events [OF assms(1,2)] assms(3)
  have "retryable m (0 + i) (answers (new_events w w') ! i)"
    by (intro retried_nth) (auto simp: loop_events_def)
  then show ?thesis
    by (auto simp: retryable_def shouldRetry_def split: option.splits if_splits)
qed

theorem doRequest_resend_witness:
  "let w = lab_world [reply 401 [] '''', reply 429 [] '''', reply 401 [] ''''];
       (r, c', w') = doRequest lab_client w ''POST'' ''/wol/1'' None
   in Suc 1 < length (sent (new_events w w')) \<and> answers (new_events w w') = [Some 401, Some 429, Some 401]
      \<and> (case answers (new_events w w') ! 1 of None \<Rightarrow> False | Some st \<Rightarrow> st = 429 \<or> (500 \<le> st \<and> False))"
proof -
  let ?w = "lab_world [reply 401 [] '''', reply 429 [] '''', reply 401 [] '''']"
  let ?run = "doRequest lab_client ?w ''POST'' ''/wol/1'' None"
  have run: "?run = (fst ?run, fst (snd ?run), snd (snd ?run))" by simp
  have "length (sent (new_events ?w (snd (snd ?run)))) = 3" by code_simp
  moreover have "answers (new_events ?w (snd (snd ?run))) = [Some 401, Some 429, Some 401]" by code_simp
  ultimately show ?thesis
    using doRequest_resend [OF lab_client_wf run, of 1] by (auto simp: Let_def split_beta)
qed

text \<open>
  C2: without a cancellation the loop is a search: the request is sent until the first answer that
  needs no retry, at most three times, and the result is that last answer, a transport error being
  reported as a network error. (The loop's final "return nil, lastErr" is never reached.)
\<close>

theorem doRequest_refines:
  assumes "wf_client c" and "may_send c" and "done_at w = None"
    and "url_Parse (baseURL c @ path) = Inr p"
    and "(case body of None \<Rightarrow> Inr [] | Some rd \<Rightarrow> ReadAll rd) = Inr b"
    and "q = build_request c m (baseURL c @ path) b"
    and "K = final_attempt m (answer_at w q) 0 2"
    and "doRequest c w m path body = (r, c', w')"
  shows "r = outcome (answer_at w q K) \<and> sent (new_events w w') = replicate (Suc K) q"
proof -
  have "attempt_loop m (baseURL c @ path) b None 0 c w = (r, c', w')"
    using assms(2,5,8) by (simp add: doRequest_def may_send_def)
  from attempt_loop_uncancelled [OF this _ _ assms(3,4,6) _ assms(7)] assms(1) show ?thesis
    by (auto simp: wf_client_def dest: extends_new_events)
qed

theorem doRequest_refines_witness:
  "let w = lab_world [reply 500 [] '''', Inl (ErrorString ''EOF''), reply 200 [] ''{}''];
       (r, c', w') = doRequest lab_client w ''GET'' ''/server'' None
   in r = outcome (reply 200 [] ''{}'') \<and> length (sent (new_events w w')) = 3"
proof -
  let ?w = "lab_world [reply 500 [] '''', Inl (ErrorString ''EOF''), reply 200 [] ''{}'']"
  let ?q = "build_request lab_client ''GET'' (baseURL lab_client @ ''/server'') []"
  let ?run = "doRequest lab_client ?w ''GET'' ''/server'' None"
  have run: "?run = (fst ?run, fst (snd ?run), snd (snd ?run))" by simp
  have K: "2 = final_attempt ''GET'' (answer_at ?w ?q) 0 2"
    by (simp add: numeral_2_eq_2 answer_at_def lab_world_def reply_def status_of_def retryable_def
        shouldRetry_def)
  have "may_send lab_client" "done_at ?w = None" by code_simp+
  moreover have "\<exists>p. url_Parse (baseURL lab_client @ ''/server'') = Inr p"
  proof -
    have "(case url_Parse (baseURL lab_client @ ''/server'') of Inl e \<Rightarrow> False | Inr p \<Rightarrow> True)"
      by code_simp
    then show ?thesis by (auto split: sum.splits)
  qed
  moreover have "answer_at ?w ?q 2 = reply 200 [] ''{}''"
    by (simp add: numeral_2_eq_2 answer_at_def lab_world_def)
  ultimately show ?thesis
    using doRequest_refines [OF lab_client_wf, of ?w "''/server''" _ None "[]" ?q "''GET''" 2, OF _ _ _ _ refl K run]
    by (auto simp: Let_def split_beta)
qed

section \<open>Waiting\<close>

text \<open>
  C4: a request sleeps at most twice, every sleep takes some time, and none takes longer than the
  larger of the configured maximum and one second, whatever Retry-After header a server sends.
\<close>

theorem doRequest_waits:
  assumes "wf_client c" and "doRequest c w m path body = (r, c', w')"
  shows "length (sleeps (new_events w w')) \<le> 2
    \<and> (\<forall>d \<in> set (sleeps (new_events w w')). 0 < d \<and> d \<le> max (maxRetryAfter c) Second)"
proof -
  have "linear_delay 1 = Second" by (simp add: linear_delay_def Millisecond_def Second_def)
  with run_events [OF assms] show ?thesis by (auto simp: loop_events_def)
qed

theorem doRequest_waits_witness:
  "let w = lab_world [reply 429 [] ''''];
       (r, c', w') = doRequest lab_client w ''GET'' ''/server'' None
   in sleeps (new_events w w') = [500 * Millisecond, Second]
      \<and> (\<forall>d \<in> set (sleeps (new_events w w')). 0 < d \<and> d \<le> max (maxRetryAfter lab_client) Second)"
proof -
  let ?w = "lab_world [reply 429 [] '''']"
  let ?run = "doRequest lab_client ?w ''GET'' ''/server'' None"
  have run: "?run = (fst ?run, fst (snd ?run), snd (snd ?run))" by simp
  have "sleeps (new_events ?w (snd (snd ?run))) = [500 * Millisecond, Second]" by code_simp
  then show ?thesis
    using doRequest_waits [OF lab_client_wf run] by (simp only: Let_def split_beta) blast
qed

text \<open>
  C32: a Retry-After header with a whole number of seconds, however large, means that many seconds,
  cut to the limit; the conversion to nanoseconds never wraps around.
\<close>

theorem retryAfter_seconds:
  assumes "header_Get h ''Retry-After'' = dec_of_nat n" and "0 < limit" and "in_int64 limit"
  shows "retryAfter w h limit = min (int n * Second) limit"
proof (cases "int n \<le> MaxInt64")
  case False
  have "limit \<le> MaxInt64" using assms(3) by (simp add: in_int64_def)
  also have "MaxInt64 \<le> int n * Second" using False by (simp add: Second_def)
  finally have "min (int n * Second) limit = limit" by simp
  moreover have "\<not> HasPrefix (dec_of_nat n) ''-''"
    using hd_dec_of_nat_not_sign [of n] by (cases "dec_of_nat n") (auto simp: HasPrefix_def)
  ultimately show ?thesis
    using False assms(1) by (simp add: retryAfter_def Atoi_dec_of_nat)
next
  case True
  show ?thesis
  proof (cases "int n > go_div limit Second")
    case gt: True
    with seconds_above_limit [OF gt assms(2)] True assms(1) show ?thesis
      by (simp add: retryAfter_def Atoi_dec_of_nat)
  next
    case False
    then have le: "int n \<le> go_div limit Second" by simp
    have "0 \<le> int n * Second" by simp
    have "\<not> Second \<le> 0" using Second_pos by linarith
    with seconds_no_overflow [OF _ le assms(2,3)] False True assms show ?thesis
      by (auto simp: retryAfter_def Atoi_dec_of_nat clamp_delay_def mult_le_0_iff)
  qed
qed

theorem retryAfter_seconds_witness:
  "retryAfter (lab_world []) [(''Retry-After'', [''7''])] (30 * Second) = 7 * Second"
proof -
  have "header_Get [(''Retry-After'', [''7''])] ''Retry-After'' = dec_of_nat 7" by code_simp
  from retryAfter_seconds [OF this, of "30 * Second"] show ?thesis
    by (simp add: Second_def in_int64_def MinInt64_def MaxInt64_def)
qed

section \<open>Response bodies\<close>

text \<open>
  Every response body the client receives is closed: those of answers that are retried in the
  loop, and the one of the returned answer by handleResponse, on every path.
\<close>

lemma bodies_are_closed:
  assumes "wf_client c" and "finish (doRequest c w m path body) v = (r, c', w')"
  shows "received (new_events w w') = closed (new_events w w')"
  using api_call_finish [OF assms] by (auto simp: call_events_def dest: extends_new_events)

text \<open>
  ReadBodyLimited returns a body only when it is complete: the whole of it, and no longer than
  the limit. A longer body is a parse error and a body that breaks off is a network error. The
  largest limit behaves like the others although adding one to it wraps around.
\<close>

theorem readBodyLimited_exact:
  assumes "0 \<le> limit" and "in_int64 limit" and "int (length (fst r)) < MaxInt64"
  shows "readBodyLimited r limit =
    (if limit < int (length (fst r)) then
       Inl (NewParseError (''response body exceeds the '' @ Itoa limit
         @ '' byte limit; raise it with WithMaxResponseBytes if the response is legitimate'') None)
     else case snd r of
            None \<Rightarrow> Inr (fst r)
          | Some e \<Rightarrow> Inl (NewNetworkError ''failed to read response body'' (Some e)))"
proof (cases "limit = MaxInt64")
  case True
  then have probe: "wrap64 (limit + 1) = MinInt64" "MinInt64 < 0"
    by (simp_all add: wrap64_def MinInt64_def MaxInt64_def)
  with True assms(3) show ?thesis
    by (simp add: readBodyLimited_def LimitReader_def ReadAll_def split: option.splits)
next
  case False
  with assms(1,2) have "in_int64 (limit + 1)"
    by (simp add: in_int64_def)
  with assms show ?thesis
    by (auto simp: readBodyLimited_def LimitReader_def ReadAll_def split: option.splits)
qed

theorem readBodyLimited_exact_witness:
  "readBodyLimited (''abc'', None) MaxInt64 = Inr ''abc''
   \<and> (\<exists>e. readBodyLimited (''abc'', None) 2 = Inl e)"
  using readBodyLimited_exact [of MaxInt64 "(''abc'', None)"] readBodyLimited_exact [of 2 "(''abc'', None)"]
  by (simp add: in_int64_def MinInt64_def MaxInt64_def)

end
