(* ===== verification/ResponseProps.thy ===== *)
theory ResponseProps
  imports ClientProps
begin

text \<open>
  What handleResponse makes of a response: exactly when it succeeds and with what value, what
  the envelope removal returns for the two documented shapes, and how an error response is
  reported, including the response that makes the client panic.
\<close>

section \<open>Success\<close>

lemma readBodyLimited_Inr:
  assumes "0 \<le> limit" and "in_int64 limit" and "int (length (fst r)) < MaxInt64"
  shows "readBodyLimited r limit = Inr data \<longleftrightarrow>
    data = fst r \<and> snd r = None \<and> int (length (fst r)) \<le> limit"
proof (cases "limit = MaxInt64")
  case True
  then have "wrap64 (limit + 1) = MinInt64" "MinInt64 < 0"
    by (simp_all add: wrap64_def MinInt64_def MaxInt64_def)
  with True assms(3) show ?thesis
    by (auto simp: readBodyLimited_def LimitReader_def ReadAll_def split: option.splits)
next
  case False
  with assms(1,2) have "in_int64 (limit + 1)" by (simp add: in_int64_def)
  with assms show ?thesis
    by (auto simp: readBodyLimited_def LimitReader_def ReadAll_def Let_def split: option.splits if_splits)
qed

text \<open>What a complete 2xx body decodes to.\<close>

definition decodes_to :: "int \<Rightarrow> string \<Rightarrow> 'a target \<Rightarrow> 'a \<Rightarrow> bool" where
  "decodes_to st body v x \<longleftrightarrow>
     (if st = 204 \<or> body = [] then x = fst v
      else case unwrapResponse body of
             Inl e \<Rightarrow> False
           | Inr raw \<Rightarrow> (case snd v of None \<Rightarrow> x = fst v | Some dec \<Rightarrow> Unmarshal dec raw (fst v) = Ok x))"

text \<open>
  C16: handleResponse succeeds exactly when the status is 2xx, the body arrived completely and
  within the limit, and the body is empty (or the status 204), or its unwrapped payload decodes into the
  caller's target; the result is that decoded value, and otherwise the target's old value.
\<close>

theorem handleResponse_ok_iff:
  assumes "wf_client c" and "in_int64 (maxResponseBytes c)"
    and "RespBody resp = (body, e)" and "int (length body) < MaxInt64"
  shows "fst (handleResponse c w resp v) = Ok x \<longleftrightarrow>
    200 \<le> StatusCode resp \<and> StatusCode resp < 300 \<and> e = None
    \<and> int (length body) \<le> maxResponseBytes c \<and> decodes_to (StatusCode resp) body v x"
proof (cases "readBodyLimited (body, e) (maxResponseBytes c)")
  case (Inl err)
  with readBodyLimited_Inr [of "maxResponseBytes c" "(body, e)" body] assms show ?thesis
    by (auto simp: handleResponse_def wf_client_def)
next
  case (Inr data)
  with readBodyLimited_Inr [of "maxResponseBytes c" "(body, e)" data] assms
  have "data = body" "e = None" "int (length body) \<le> maxResponseBytes c"
    by (simp_all add: wf_client_def)
  with Inr assms(3) show ?thesis
    by (auto simp: handleResponse_def decodes_to_def bind_result_Ok_iff Let_def
        split: sum.splits option.splits result.splits)
qed

theorem handleResponse_ok_iff_witness:
  "fst (handleResponse lab_client (lab_world [])
      \<lparr>StatusCode = 200, RespHeader = [], RespBody = (json_text ''{`key`: [`a`, `b`]}'', None)\<rparr>
      ([], Some (dec_list [] dec_string))) = Ok [''a'', ''b'']"
proof -
  let ?body = "json_text ''{`key`: [`a`, `b`]}''"
  have "decodes_to 200 ?body ([], Some (dec_list [] dec_string)) [''a'', ''b'']" by code_simp
  moreover have "length ?body = 19" by code_simp
  moreover have "maxResponseBytes lab_client = 33554432" by code_simp
  ultimately show ?thesis
    using handleResponse_ok_iff [OF lab_client_wf, of
        "\<lparr>StatusCode = 200, RespHeader = [], RespBody = (?body, None)\<rparr>" ?body None
        "lab_world []" "([], Some (dec_list [] dec_string))" "[''a'', ''b'']"]
    by (simp add: in_int64_def MinInt64_def MaxInt64_def)
qed

section \<open>Envelopes\<close>

lemma common_key_uniform:
  "list_all is_container vs \<Longrightarrow> key = [] \<or> key = k \<Longrightarrow>
   common_key key (map (\<lambda>v. [(k, v)]) vs) = Some (if vs = [] then key else k)"
  by (induction vs arbitrary: key) auto

lemma obj_map_single [simp]: "obj_map [(k, v)] = [(k, v)]"
  by (simp add: obj_map_def)

text \<open>
  C35: the response envelope is removed from both documented shapes. An object whose only member is
  a container (and is not named id) becomes that container, and a list of such objects with the
  same member name becomes the list of the contained values, in order.
\<close>

theorem unwrapResponse_envelope:
  assumes "list_all is_container (v # vs)" and "k \<noteq> ''id''"
    and "json_parse (CHR ''{'' # single) = Some (JObj [(k, v)])"
    and "json_parse (CHR ''['' # many) = Some (JArr (map (\<lambda>x. JObj [(k, x)]) (v # vs)))"
  shows "unwrapResponse (CHR ''{'' # single) = Inr (Sub v)
    \<and> unwrapResponse (CHR ''['' # many) = Inr (Sub (JArr (v # vs)))"
proof -
  have "common_key k (map (\<lambda>x. [(k, x)]) vs) = Some k"
    using common_key_uniform [of vs k k] assms(1) by simp
  then have "unwrapResponse (CHR ''['' # many) = Inr (Sub (JArr (v # vs)))"
    using assms(1,4) by (simp add: unwrapResponse_def Let_def comp_def elem_map_def)
  then show ?thesis
    using assms(1-3) by (simp add: unwrapResponse_def Let_def)
qed

theorem unwrapResponse_envelope_witness:
  "unwrapResponse (json_text ''{`ip`: {}}'') = Inr (Sub (JObj []))
   \<and> unwrapResponse (json_text ''[{`ip`: {}}, {`ip`: []}]'') = Inr (Sub (JArr [JObj [], JArr []]))"
proof -
  have t: "json_text ''{`ip`: {}}'' = CHR ''{'' # json_text ''`ip`: {}}''"
    "json_text ''[{`ip`: {}}, {`ip`: []}]'' = CHR ''['' # json_text ''{`ip`: {}}, {`ip`: []}]''"
    by code_simp+
  have "json_parse (CHR ''{'' # json_text ''`ip`: {}}'') = Some (JObj [(''ip'', JObj [])])"
    by code_simp
  moreover have "json_parse (CHR ''['' # json_text ''{`ip`: {}}, {`ip`: []}]'') =
      Some (JArr (map (\<lambda>x. JObj [(''ip'', x)]) [JObj [], JArr []]))"
    by code_simp
  ultimately show ?thesis
    unfolding t by (intro unwrapResponse_envelope) simp_all
qed

section \<open>Error responses\<close>

text \<open>
  C17: a response outside 2xx is never a success. It is a panic, or an error of the API kind (or of
  the network or parse kind when its body could not be read), and an API error carries no cause.
\<close>

theorem handleResponse_failure:
  assumes "StatusCode resp < 200 \<or> 300 \<le> StatusCode resp"
    and "handleResponse c w resp v = (r, c', w')"
  shows "(\<exists>p. r = Panic p) \<or> (\<exists>k code st m ca. r = Err (HError k code st m ca)
    \<and> (k = ''API'' \<and> ca = None \<or> k \<in> {''Network'', ''Parse''} \<and> code = []))"
proof (cases "readBodyLimited (RespBody resp) (maxResponseBytes c)")
  case (Inl err)
  then have "\<exists>k m ca. err = HError k [] 0 m ca \<and> k \<in> {''Network'', ''Parse''}"
    by (auto simp: readBodyLimited_def error_constructors Let_def split: sum.splits if_splits)
  with Inl assms(2) show ?thesis by (auto simp: handleResponse_def)
next
  case (Inr body)
  with assms have r: "r = bind_result (errorFromResponse (StatusCode resp) body) Err"
    by (auto simp: handleResponse_def)
  show ?thesis
  proof (cases "errorFromResponse (StatusCode resp) body")
    case (Ok e)
    with r errorFromResponse_API [OF Ok] show ?thesis
      by (auto simp: newAPIErrorWithStatus_def)
  next
    case (Err e)
    then show ?thesis by (simp add: errorFromResponse_def Let_def split: result.splits)
  next
    case (Panic p)
    with r show ?thesis by simp
  qed
qed

theorem handleResponse_failure_witness:
  "\<exists>k code st m ca. fst (handleResponse lab_client (lab_world [])
      \<lparr>StatusCode = 302, RespHeader = [], RespBody = ([], None)\<rparr> nil_target) = Err (HError k code st m ca)"
proof -
  let ?resp = "\<lparr>StatusCode = 302, RespHeader = [], RespBody = ([], None)\<rparr> :: response"
  let ?run = "handleResponse lab_client (lab_world []) ?resp nil_target"
  have "(case fst ?run of Panic p \<Rightarrow> False | _ \<Rightarrow> True)" by code_simp
  moreover have "?run = (fst ?run, fst (snd ?run), snd (snd ?run))" by simp
  ultimately show ?thesis
    using handleResponse_failure [of ?resp lab_client "lab_world []" nil_target] by fastforce
qed

lemma null_error_panics:
  assumes "json_parse body = Some (JObj [(''error'', JNull)])"
  shows "errorFromResponse st body = Panic ''nil pointer dereference''"
proof -
  have "fold_name ''error'' = ''ERROR''" by code_simp
  then show ?thesis
    using assms
    by (simp add: errorFromResponse_def Unmarshal_def raw_value_def dec_APIErrorResponse_def
        dec_struct_def fld_def APIErrorDetail_UnmarshalJSON_def del: fold_name.simps)
qed

text \<open>
  C36: the documented error envelope is reported as it is: its code, its message and its status are
  those of the returned API error, so that IsAPIError recognises exactly that code. The status of
  the response is used when the envelope has none. An envelope that holds a JSON null instead does
  not become an error value: decoding it dereferences a nil pointer, and the goroutine of the caller panics.
\<close>

theorem error_envelope:
  assumes "json_parse body = Some (JObj [(''error'',
             JObj [(''status'', JNum n), (''code'', JStr code), (''message'', JStr m)])])"
    and "ParseInt64 n = Inr k" and "json_parse null_body = Some (JObj [(''error'', JNull)])"
  shows "(\<exists>e. errorFromResponse st body = Ok e \<and> Message e = m
      \<and> Status e = (if k = 0 then st else k) \<and> (\<forall>code'. IsAPIError (Some e) code' \<longleftrightarrow> code' = code))
    \<and> errorFromResponse st null_body = Panic ''nil pointer dereference''"
proof -
  note panic = null_error_panics [OF assms(3), of st]
  have names: "fold_name ''error'' = ''ERROR''" "fold_name ''status'' = ''STATUS''"
    "fold_name ''code'' = ''CODE''" "fold_name ''message'' = ''MESSAGE''"
    by code_simp+
  have "Unmarshal dec_APIErrorResponse (Wire body) zero_APIErrorResponse =
      Ok \<lparr>ErrorField = \<lparr>DetailStatus = k, DetailCode = code, DetailMessage = m\<rparr>\<rparr>"
    using assms
    by (simp add: Unmarshal_def raw_value_def dec_APIErrorResponse_def dec_struct_def fld_def names
        APIErrorDetail_UnmarshalJSON_def aux_detail_fields_def dec_raw_def zero_APIErrorResponse_def
        zero_APIErrorDetail_def del: fold_name.simps)
  with panic show ?thesis
    by (auto simp: errorFromResponse_def newAPIErrorWithStatus_def IsAPIError_def Let_def)
qed

lemma small_number: "ParseInt64 ''404'' = Inr 404"
proof -
  have "dec_of_nat 404 = ''404''" by code_simp
  with Atoi_dec_of_nat [of 404] show ?thesis by (simp add: Atoi_def MaxInt64_def)
qed

theorem error_envelope_witness:
  "\<exists>e. errorFromResponse 500 (json_text
        ''{`error`: {`status`: 404, `code`: `SERVER_NOT_FOUND`, `message`: `no`}}'') = Ok e
      \<and> Status e = 404 \<and> IsAPIError (Some e) ''SERVER_NOT_FOUND''
      \<and> errorFromResponse 500 (json_text ''{`error`: null}'') = Panic ''nil pointer dereference''"
proof -
  have "json_parse (json_text ''{`error`: {`status`: 404, `code`: `SERVER_NOT_FOUND`, `message`: `no`}}'') =
      Some (JObj [(''error'', JObj [(''status'', JNum ''404''), (''code'', JStr ''SERVER_NOT_FOUND''),
        (''message'', JStr ''no'')])])"
    by code_simp
  moreover have "json_parse (json_text ''{`error`: null}'') = Some (JObj [(''error'', JNull)])" by code_simp
  ultimately have "(\<exists>e. errorFromResponse 500 (json_text
        ''{`error`: {`status`: 404, `code`: `SERVER_NOT_FOUND`, `message`: `no`}}'') = Ok e \<and> Message e = ''no''
      \<and> Status e = (if (404::int) = 0 then 500 else 404) \<and> (\<forall>code'. IsAPIError (Some e) code' \<longleftrightarrow> code' = ''SERVER_NOT_FOUND''))
    \<and> errorFromResponse 500 (json_text ''{`error`: null}'') = Panic ''nil pointer dereference''"
    by (rule error_envelope [OF _ small_number])
  then show ?thesis by auto
qed

end
