(* ===== verification/UrlConcat.thy ===== *)
theory UrlConcat
  imports Client
begin

text \<open>
  The base URL and the path of a request. doRequest appends the path to the base URL as text; for a
  base URL that passed validateBaseURL and holds no number sign this is right: the server and
  the user part stay the ones that were validated, the path is appended to the path of the base
  URL, and an escaped path segment arrives as the text it stands for. A trailing number sign
  passes the validation too, and then everything appended is a fragment.
\<close>

section \<open>Escapes in concatenations\<close>

lemma unescape_append:
  "unescape sp a = Inr x \<Longrightarrow> unescape sp b = Inr y \<Longrightarrow> unescape sp (a @ b) = Inr (x @ y)"
proof (induction sp a arbitrary: x rule: unescape.induct)
  case (2 sp c cs)
  then show ?case by (auto split: if_splits list.splits option.splits sum.splits)
qed simp

lemma unescape_plain:
  "set s \<subseteq> {c. unreserved c \<or> c = CHR ''/''} \<Longrightarrow> unescape False s = Inr s"
  by (induction s) (auto dest: unreserved_not_special)

section \<open>Parsing a longer text\<close>

lemma scheme_loop_append:
  "scheme_loop seen s whole = Inr (sch, rest) \<Longrightarrow> sch \<noteq> [] \<Longrightarrow>
   scheme_loop seen (s @ t) (whole' @ t) = Inr (sch, rest @ t)"
  by (induction seen s whole rule: scheme_loop.induct) (auto split: if_splits)

lemma Cut_append_present:
  "c \<in> set s \<Longrightarrow> Cut s c = (a, b, f) \<Longrightarrow> Cut (s @ t) c = (a, b @ t, True)"
proof -
  assume "c \<in> set s" and cut: "Cut s c = (a, b, f)"
  then obtain x y where s: "s = x @ c # y" and x: "c \<notin> set x"
    by (meson split_list_first)
  with cut show ?thesis by (simp add: Cut_append)
qed

lemma url_error_iff [simp]: "(case x of Inl e \<Rightarrow> Inl (f e) | Inr y \<Rightarrow> Inr y) = Inr z \<longleftrightarrow> x = Inr z"
  by (auto split: sum.splits)

lemma setPath_Inr: "setPath u p = Inr u' \<longleftrightarrow> (\<exists>q. unescape False p = Inr q \<and> u' = u\<lparr>Path := q\<rparr>)"
  by (auto simp: setPath_def split: sum.splits)

lemma no_query:
  assumes "Cut rest CHR ''?'' = (r, [], f)" and "\<not> (HasSuffix rest ''?'' \<and> count_list rest CHR ''?'' = 1)"
  shows "CHR ''?'' \<notin> set rest"
proof
  assume "CHR ''?'' \<in> set rest"
  then obtain x y where rest: "rest = x @ CHR ''?'' # y" and x: "CHR ''?'' \<notin> set x"
    by (meson split_list_first)
  with assms(1) have "y = []" by (simp add: Cut_append)
  with rest x assms(2) show False by (simp add: HasSuffix_def HasPrefix_def count_list_0_iff)
qed

text \<open>What is known of a base URL that passed the validation.\<close>

definition base_parts :: "string \<Rightarrow> string \<Rightarrow> string \<Rightarrow> string \<Rightarrow> string \<Rightarrow> bool \<Rightarrow> string \<Rightarrow> string \<Rightarrow> bool" where
  "base_parts b scheme rest auth pth slash host q \<longleftrightarrow>
     getScheme b = Inr (scheme, rest) \<and> scheme \<noteq> [] \<and> \<not> list_ex ctl_byte b \<and> CHR ''?'' \<notin> set rest
     \<and> HasPrefix rest ''//'' \<and> Cut (drop 2 rest) CHR ''/'' = (auth, pth, slash)
     \<and> parseAuthority auth = Inr (None, host)
     \<and> unescape False (if slash then CHR ''/'' # pth else []) = Inr q"

lemma parse_rest_host:
  assumes "parse_rest u rest = Inr u'" and "Host u = []" and "Host u' \<noteq> []"
  obtains auth pth slash user host q where "HasPrefix rest ''//''"
    and "Cut (drop 2 rest) CHR ''/'' = (auth, pth, slash)" and "parseAuthority auth = Inr (user, host)"
    and "unescape False (if slash then CHR ''/'' # pth else []) = Inr q"
    and "u' = u\<lparr>User := user, Host := host, Path := q\<rparr>"
  using assms
  by (auto simp: parse_rest_def setPath_Inr Let_def split: if_splits prod.splits sum.splits)

lemma validated_base:
  assumes "validateBaseURL b = None" and "CHR ''#'' \<notin> set b"
  obtains scheme rest auth pth slash host q where
    "base_parts b scheme rest auth pth slash host q" and "b \<noteq> ''*''"
    and "map to_lower scheme \<in> {''http'', ''https''}" and "host \<noteq> []"
    and "url_Parse b = Inr (empty_URL\<lparr>Scheme := map to_lower scheme, Host := host, Path := q\<rparr>)"
proof -
  obtain u where u: "url_Parse b = Inr u" "Scheme u = ''http'' \<or> Scheme u = ''https''" "Host u \<noteq> []"
    "User u = None" "RawQuery u = []" "\<not> ForceQuery u"
    using assms(1)
    by (cases "url_Parse b") (auto simp: validateBaseURL_def simp del: not_None_eq split: if_splits)
  then have p: "parse_no_fragment b = Inr u"
    using assms(2) by (simp add: url_Parse_def Cut_absent split: sum.splits)
  have nostar: "b \<noteq> ''*''"
    using p u(3) by (auto simp: parse_no_fragment_def empty_URL_def split: if_splits)
  with p obtain scheme rest where g: "getScheme b = Inr (scheme, rest)" and ctl: "\<not> list_ex ctl_byte b"
    by (auto simp: parse_no_fragment_def split: if_splits sum.splits)
  let ?u = "empty_URL\<lparr>Scheme := map to_lower scheme\<rparr>"
  have keeps: "Scheme u' = Scheme v \<and> ForceQuery u' = ForceQuery v \<and> RawQuery u' = RawQuery v"
    if "parse_rest v r = Inr u'" for v r u'
    using that by (auto simp: parse_rest_def setPath_Inr Let_def split: if_splits prod.splits sum.splits)
  obtain r qr f where cut: "Cut rest CHR ''?'' = (r, qr, f)" by (metis prod_cases3)
  have "\<not> (HasSuffix rest ''?'' \<and> count_list rest CHR ''?'' = 1)"
    using p g ctl nostar u(6) by (auto simp: parse_no_fragment_def dest!: keeps split: if_splits)
  moreover from this have pr: "parse_rest (?u\<lparr>RawQuery := qr\<rparr>) r = Inr u"
    using p g ctl nostar cut by (auto simp: parse_no_fragment_def split: if_splits)
  moreover from keeps [OF this] u(5) have "qr = []" by simp
  ultimately have noq: "CHR ''?'' \<notin> set rest" using no_query cut by blast
  with cut \<open>qr = []\<close> have r: "r = rest" by (simp add: Cut_absent)
  have eq: "?u\<lparr>RawQuery := qr\<rparr> = ?u" using \<open>qr = []\<close> by (simp add: empty_URL_def)
  have full: "parse_rest ?u rest = Inr u" using pr r eq by simp
  have "Host ?u = []" by (simp add: empty_URL_def)
  from parse_rest_host [OF full this u(3)] obtain auth pth slash user host q where parts: "HasPrefix rest ''//''"
    "Cut (drop 2 rest) CHR ''/'' = (auth, pth, slash)" "parseAuthority auth = Inr (user, host)"
    "unescape False (if slash then CHR ''/'' # pth else []) = Inr q"
    "u = ?u\<lparr>User := user, Host := host, Path := q\<rparr>" by blast
  have "user = None" using parts(5) u(4) by simp
  have sch: "map to_lower scheme \<in> {''http'', ''https''}" using parts(5) u(2) by auto
  then have "scheme \<noteq> []" by auto
  with parts g ctl noq \<open>user = None\<close> have "base_parts b scheme rest auth pth slash host q"
    by (simp add: base_parts_def)
  moreover have "host \<noteq> []" using parts(5) u(3) by simp
  moreover have "url_Parse b = Inr (empty_URL\<lparr>Scheme := map to_lower scheme, Host := host, Path := q\<rparr>)"
    using u(1) parts(5) \<open>user = None\<close> by (simp add: empty_URL_def)
  ultimately show ?thesis using nostar sch by (intro that)
qed

lemma parse_with_path:
  assumes "base_parts b scheme rest auth pth slash host q" and "CHR ''#'' \<notin> set b"
    and "map to_lower scheme \<in> {''http'', ''https''}"
    and "set p \<inter> {CHR ''?'', CHR ''#''} = {}" and "\<not> list_ex ctl_byte p"
    and "unescape False (CHR ''/'' # p) = Inr t"
  shows "url_Parse (b @ CHR ''/'' # p) =
    Inr (empty_URL\<lparr>Scheme := map to_lower scheme, Host := host, Path := q @ t\<rparr>)"
proof -
  let ?p = "CHR ''/'' # p"
  note parts = assms(1) [unfolded base_parts_def]
  have g: "getScheme (b @ ?p) = Inr (scheme, rest @ ?p)"
    using scheme_loop_append [of "[]" b b scheme rest ?p b] parts by (simp add: getScheme_def)
  obtain rr where rr: "rest = ''//'' @ rr"
  proof
    have "take 2 rest = ''//''" using parts by (simp add: HasPrefix_def numeral_2_eq_2)
    with append_take_drop_id [of 2 rest] show "rest = ''//'' @ drop 2 rest" by metis
  qed
  then have pre: "HasPrefix (rest @ ?p) ''//''" "HasPrefix (rest @ ?p) ''/''" "2 \<le> length rest"
    by (simp_all add: HasPrefix_def)
  have noq: "CHR ''?'' \<notin> set (rest @ ?p)" using parts assms(4) by auto
  have cut: "Cut (drop 2 (rest @ ?p)) CHR ''/'' = (auth, if slash then pth @ ?p else p, True)"
  proof (cases "CHR ''/'' \<in> set (drop 2 rest)")
    case True
    moreover from this have slash
      using parts by (auto simp: Cut_append dest: split_list_first)
    ultimately show ?thesis using parts pre(3) Cut_append_present by simp
  next
    case False
    then have "auth = drop 2 rest" "\<not> slash" using parts by (simp_all add: Cut_absent)
    with False pre(3) show ?thesis by (simp add: Cut_append)
  qed
  have path: "unescape False (CHR ''/'' # (if slash then pth @ ?p else p)) = Inr (q @ t)"
  proof (cases slash)
    case True
    with parts have "unescape False (CHR ''/'' # pth) = Inr q" by simp
    from unescape_append [OF this assms(6)] True show ?thesis by simp
  next
    case False
    with parts assms(6) show ?thesis by simp
  qed
  let ?u = "empty_URL\<lparr>Scheme := map to_lower scheme\<rparr>"
  let ?res = "empty_URL\<lparr>Scheme := map to_lower scheme, Host := host, Path := q @ t\<rparr>"
  have ctl: "\<not> list_ex ctl_byte (b @ ?p)" using parts assms(5) by (simp add: ctl_byte_def byte_def)
  have nostar: "b @ ?p \<noteq> ''*''" using parts by (cases b) (auto simp: getScheme_def)
  have "parse_rest ?u (rest @ ?p) = Inr ?res"
    using pre cut path parts
    by (simp add: parse_rest_def setPath_def empty_URL_def del: unescape.simps)
  moreover have "?u\<lparr>RawQuery := []\<rparr> = ?u" by (simp add: empty_URL_def)
  moreover have "count_list (rest @ ?p) CHR ''?'' = 0" using noq by (simp only: count_list_0_iff not_False_eq_True)
  ultimately have "parse_no_fragment (b @ ?p) = Inr ?res"
    using g ctl nostar Cut_absent [OF noq]
    by (simp only: parse_no_fragment_def if_False if_True sum.case prod.case Let_def) simp
  then show ?thesis using assms(2,4) by (simp add: url_Parse_def Cut_absent)
qed

section \<open>Request URLs\<close>

definition path_char :: "char \<Rightarrow> bool" where
  "path_char c \<longleftrightarrow> unreserved c \<or> c = CHR ''/''"

lemma path_char_quiet: "path_char c \<Longrightarrow> c \<noteq> CHR ''?'' \<and> c \<noteq> CHR ''#'' \<and> \<not> ctl_byte c"
  using unreserved_not_special [of c]
  by (auto simp: path_char_def ctl_byte_def unreserved_def alnum_def in_range_def byte_def)

lemma PathEscape_quiet:
  "c \<in> set (PathEscape s) \<Longrightarrow> c \<noteq> CHR ''?'' \<and> c \<noteq> CHR ''#'' \<and> \<not> ctl_byte c"
  using set_PathEscape [of c s] path_char_quiet [of c]
  by (auto simp: path_char_def ctl_byte_def byte_def)

lemma unescape_path:
  assumes "list_all path_char pre" and "list_all path_char post"
  shows "unescape False (CHR ''/'' # pre @ PathEscape s @ post) = Inr (CHR ''/'' # pre @ s @ post)"
proof -
  have "unescape False (CHR ''/'' # pre) = Inr (CHR ''/'' # pre)" and "unescape False post = Inr post"
    using assms unescape_plain [of "CHR ''/'' # pre"] unescape_plain [of post]
    by (auto simp: list_all_iff path_char_def subset_iff simp del: unescape.simps)
  moreover have "unescape False (PathEscape s) = Inr s"
    using PathUnescape_PathEscape by (simp add: PathUnescape_def)
  ultimately show ?thesis
    using unescape_append [of False "CHR ''/'' # pre" "CHR ''/'' # pre" "PathEscape s @ post" "s @ post"]
      unescape_append [of False "PathEscape s" s post post]
    by (simp del: unescape.simps)
qed

text \<open>
  WithBaseURL accepts a URL that ends in a number sign, and every request the client then makes is for
  the root of the server: the path is only its fragment.
\<close>

lemma base_url_number_sign:
  "baseURLErr (WithBaseURL ''https://h#'' c) = None
   \<and> map_sum id (\<lambda>u. (Path u, Fragment u)) (url_Parse (baseURL (WithBaseURL ''https://h#'' c) @ ''/server'')) = Inr ([], ''/server'')"
proof -
  have "validateBaseURL ''https://h#'' = None" and "TrimSuffix ''https://h#'' ''/'' = ''https://h#''"
    and "map_sum id (\<lambda>u. (Path u, Fragment u)) (url_Parse (''https://h#'' @ ''/server'')) = Inr ([], ''/server'')"
    by code_simp+
  then show ?thesis by (simp add: WithBaseURL_def)
qed

text \<open>
  C15: a base URL that passed the validation and holds no number sign can be concatenated with a
  path. The result parses, its scheme, host and (absent) user are those of the base URL, it has no query and no
  fragment, and its path is the path of the base URL followed by the one appended, with the
  escaped part decoded to exactly the text the caller gave: no argument leads to another host or
  path. The number sign is a real exception: a URL that ends in one is accepted, and every request is
  then for the root of the server.
\<close>

theorem request_url_safe:
  assumes "validateBaseURL b = None" and "CHR ''#'' \<notin> set b"
    and "list_all path_char pre" and "list_all path_char post"
  shows "\<exists>u0. url_Parse b = Inr u0 \<and> Host u0 \<noteq> [] \<and> User u0 = None
    \<and> url_Parse (b @ ''/'' @ pre @ PathEscape s @ post) = Inr (u0\<lparr>Path := Path u0 @ ''/'' @ pre @ s @ post\<rparr>)
    \<and> RawQuery u0 = [] \<and> \<not> ForceQuery u0 \<and> Fragment u0 = []
    \<and> (\<forall>c. baseURLErr (WithBaseURL ''https://h#'' c) = None
         \<and> map_sum id (\<lambda>u. (Path u, Fragment u)) (url_Parse (baseURL (WithBaseURL ''https://h#'' c) @ ''/server''))
           = Inr ([], ''/server''))"
proof -
  from validated_base [OF assms(1,2)] obtain scheme rest auth pth slash host q where base:
    "base_parts b scheme rest auth pth slash host q" "map to_lower scheme \<in> {''http'', ''https''}" "host \<noteq> []"
    "url_Parse b = Inr (empty_URL\<lparr>Scheme := map to_lower scheme, Host := host, Path := q\<rparr>)" by metis
  let ?p = "pre @ PathEscape s @ post"
  have quiet: "c \<noteq> CHR ''?'' \<and> c \<noteq> CHR ''#'' \<and> \<not> ctl_byte c" if "c \<in> set ?p" for c
    using that assms(3,4) path_char_quiet [of c] PathEscape_quiet [of c s]
    by (auto simp only: list_all_iff set_append Un_iff)
  then have "set ?p \<inter> {CHR ''?'', CHR ''#''} = {}" and "\<not> list_ex ctl_byte ?p"
    by (blast, simp only: list_ex_iff, blast)
  from parse_with_path [OF base(1) assms(2) base(2) this unescape_path [OF assms(3,4)]] base(3,4)
    base_url_number_sign
  show ?thesis by (simp add: empty_URL_def)
qed

theorem request_url_safe_witness:
  "\<exists>u0. url_Parse ''https://h:8443/v'' = Inr u0
    \<and> url_Parse (''https://h:8443/v'' @ ''/'' @ ''key/'' @ PathEscape ''../a?b#@evil'' @ '''')
        = Inr (u0\<lparr>Path := Path u0 @ ''/'' @ ''key/'' @ ''../a?b#@evil'' @ ''''\<rparr>)"
proof -
  have "validateBaseURL ''https://h:8443/v'' = None" by code_simp
  moreover have "list_all path_char ''key/''" by code_simp
  ultimately show ?thesis
    using request_url_safe [of "''https://h:8443/v''" "''key/''" "''''" "''../a?b#@evil''"] by auto
qed

end
