(* ===== verification/UrlEncode.thy ===== *)
theory UrlEncode
  imports GoUrl "HOL-Library.Word"
begin

text \<open>
  internal/urlencode/firewall.go: firewall rules as a form body with literal brackets in its keys,
  the encoder that collects rules per direction, and the builder of single rules. A Go map is an
  association list with distinct keys. The lemmas say that such a body parses back to its pairs.
\<close>

section \<open>Encoding\<close>

type_synonym form = "(string \<times> string) list"

text \<open>Indexing a map: the zero value (the empty string, the nil slice) when the key is absent.\<close>

definition go_index :: "(string \<times> 'a list) list \<Rightarrow> string \<Rightarrow> 'a list" where
  "go_index m k = (case map_of m k of Some v \<Rightarrow> v | None \<Rightarrow> [])"

definition hierKey :: "string \<Rightarrow> nat \<Rightarrow> string \<Rightarrow> string" where
  "hierKey direction i key =
     ''rules['' @ direction @ CHR '']'' # ''['' @ dec_of_nat i @ CHR '']'' # ''['' @ key @ [CHR '']'']"

definition rule_parts :: "string \<Rightarrow> nat \<times> form \<Rightarrow> string list" where
  "rule_parts direction ir =
     map (\<lambda>key. hierKey direction (fst ir) key @ ''='' @ QueryEscape (go_index (snd ir) key))
       (sortedKeys (snd ir))"

definition EncodeFirewallRules :: "(string \<times> form list) list \<Rightarrow> string" where
  "EncodeFirewallRules rules =
     Join (concat (map (\<lambda>direction.
             concat (map (rule_parts direction) (enumerate 0 (go_index rules direction))))
           (sortedKeys rules))) ''&''"

record FirewallRuleEncoder =
  EncRules :: "(string \<times> form list) list"

definition NewFirewallRuleEncoder :: FirewallRuleEncoder where
  "NewFirewallRuleEncoder = \<lparr>EncRules = []\<rparr>"

definition AddInputRule :: "form \<Rightarrow> FirewallRuleEncoder \<Rightarrow> FirewallRuleEncoder" where
  "AddInputRule rule e =
     e\<lparr>EncRules := AList.update ''input'' (go_index (EncRules e) ''input'' @ [rule]) (EncRules e)\<rparr>"

definition AddOutputRule :: "form \<Rightarrow> FirewallRuleEncoder \<Rightarrow> FirewallRuleEncoder" where
  "AddOutputRule rule e =
     e\<lparr>EncRules := AList.update ''output'' (go_index (EncRules e) ''output'' @ [rule]) (EncRules e)\<rparr>"

definition Encoder_Encode :: "FirewallRuleEncoder \<Rightarrow> string" where
  "Encoder_Encode e = EncodeFirewallRules (EncRules e)"

definition EncodeToString :: "FirewallRuleEncoder \<Rightarrow> form \<Rightarrow> string" where
  "EncodeToString e additional =
     (let parts = map (\<lambda>key. key @ ''='' @ QueryEscape (go_index additional key)) (sortedKeys additional);
          rulesStr = Encoder_Encode e
      in Join (if rulesStr \<noteq> [] then parts @ [rulesStr] else parts) ''&'')"

section \<open>The rule builder\<close>

text \<open>An argument of type any: the types the code distinguishes, and the text of the others.\<close>

datatype any_port = AnyString string | AnyInt int | AnyUint16 "16 word" | AnyOther string

fun toString :: "any_port \<Rightarrow> string" where
  "toString (AnyString s) = s"
| "toString (AnyInt i) = Itoa i"
| "toString (AnyUint16 u) = dec_of_nat (unat u)"
| "toString (AnyOther text) = text"

record RuleBuilder =
  BuilderData :: form

definition NewRuleBuilder :: RuleBuilder where "NewRuleBuilder = \<lparr>BuilderData = []\<rparr>"

definition set_data :: "string \<Rightarrow> string \<Rightarrow> RuleBuilder \<Rightarrow> RuleBuilder" where
  "set_data k v r = r\<lparr>BuilderData := AList.update k v (BuilderData r)\<rparr>"

definition rb_Name :: "string \<Rightarrow> RuleBuilder \<Rightarrow> RuleBuilder" where "rb_Name = set_data ''name''"
definition rb_IPVersion :: "string \<Rightarrow> RuleBuilder \<Rightarrow> RuleBuilder" where
  "rb_IPVersion = set_data ''ip_version''"
definition rb_Action :: "string \<Rightarrow> RuleBuilder \<Rightarrow> RuleBuilder" where "rb_Action = set_data ''action''"
definition rb_Protocol :: "string \<Rightarrow> RuleBuilder \<Rightarrow> RuleBuilder" where
  "rb_Protocol = set_data ''protocol''"
definition rb_SourceIP :: "string \<Rightarrow> RuleBuilder \<Rightarrow> RuleBuilder" where
  "rb_SourceIP = set_data ''src_ip''"
definition rb_DestIP :: "string \<Rightarrow> RuleBuilder \<Rightarrow> RuleBuilder" where "rb_DestIP = set_data ''dst_ip''"
definition rb_SourcePort :: "any_port \<Rightarrow> RuleBuilder \<Rightarrow> RuleBuilder" where
  "rb_SourcePort port = set_data ''src_port'' (toString port)"
definition rb_DestPort :: "any_port \<Rightarrow> RuleBuilder \<Rightarrow> RuleBuilder" where
  "rb_DestPort port = set_data ''dst_port'' (toString port)"
definition rb_TCPFlags :: "string \<Rightarrow> RuleBuilder \<Rightarrow> RuleBuilder" where
  "rb_TCPFlags = set_data ''tcp_flags''"
definition rb_Build :: "RuleBuilder \<Rightarrow> form" where "rb_Build r = BuilderData r"

section \<open>The pairs of a body\<close>

text \<open>A key that the form syntax leaves alone.\<close>

definition plain_key :: "string \<Rightarrow> bool" where
  "plain_key k \<longleftrightarrow> set k \<inter> {CHR ''%'', CHR ''+'', CHR ''&'', CHR ''='', CHR '';''} = {}"

definition rule_pairs :: "string \<Rightarrow> nat \<times> form \<Rightarrow> form" where
  "rule_pairs direction ir =
     map (\<lambda>key. (hierKey direction (fst ir) key, go_index (snd ir) key)) (sortedKeys (snd ir))"

definition dir_pairs :: "(string \<times> form list) list \<Rightarrow> string \<Rightarrow> form" where
  "dir_pairs rules direction =
     concat (map (rule_pairs direction) (enumerate 0 (go_index rules direction)))"

definition body_pairs :: "(string \<times> form list) list \<Rightarrow> form \<Rightarrow> form" where
  "body_pairs rules additional =
     map (\<lambda>key. (key, go_index additional key)) (sortedKeys additional)
     @ concat (map (dir_pairs rules) (sortedKeys rules))"

lemma rule_parts_pairs: "rule_parts d = map (form_pair QueryEscape) \<circ> rule_pairs d"
  by (simp add: fun_eq_iff rule_parts_def rule_pairs_def form_pair_def)

lemma Join_eq_Nil: "\<forall>x \<in> set xs. x \<noteq> [] \<Longrightarrow> sep \<noteq> [] \<Longrightarrow> Join xs sep = [] \<longleftrightarrow> xs = []"
  by (induction xs) (auto simp: Join_Cons)

lemma Join_nested: "ys \<noteq> [] \<Longrightarrow> Join (xs @ [Join ys sep]) sep = Join (xs @ ys) sep"
  by (simp add: Join_append)

lemma map_concat_comp: "concat (map (map f \<circ> g) xs) = map f (concat (map g xs))"
  by (induction xs) auto

lemma EncodeFirewallRules_pairs:
  "EncodeFirewallRules rules =
     Join (map (form_pair QueryEscape) (concat (map (dir_pairs rules) (sortedKeys rules)))) ''&''"
proof -
  have "(\<lambda>direction. concat (map (rule_parts direction) (enumerate 0 (go_index rules direction))))
      = map (form_pair QueryEscape) \<circ> dir_pairs rules"
    by (simp only: fun_eq_iff comp_apply dir_pairs_def rule_parts_pairs map_concat_comp) simp
  then show ?thesis by (simp only: EncodeFirewallRules_def map_concat_comp)
qed

lemma EncodeToString_pairs:
  "EncodeToString e additional =
     Join (map (form_pair QueryEscape) (body_pairs (EncRules e) additional)) ''&''"
proof -
  define A where "A = map (\<lambda>key. (key, go_index additional key)) (sortedKeys additional)"
  define B where "B = concat (map (dir_pairs (EncRules e)) (sortedKeys (EncRules e)))"
  have A: "map (\<lambda>key. key @ ''='' @ QueryEscape (go_index additional key)) (sortedKeys additional)
      = map (form_pair QueryEscape) A"
    by (simp add: A_def form_pair_def)
  have B: "Encoder_Encode e = Join (map (form_pair QueryEscape) B) ''&''"
    by (simp only: Encoder_Encode_def EncodeFirewallRules_pairs B_def)
  have "Join (map (form_pair QueryEscape) B) ''&'' = [] \<longleftrightarrow> B = []"
    by (subst Join_eq_Nil) (auto simp: form_pair_def)
  moreover have "body_pairs (EncRules e) additional = A @ B"
    by (simp only: body_pairs_def A_def B_def)
  ultimately show ?thesis
    by (cases "B = []") (simp_all add: EncodeToString_def A B Join_nested Let_def del: append_Cons)
qed

section \<open>Reading a body back\<close>

definition values_of :: "form \<Rightarrow> string \<Rightarrow> string list" where
  "values_of ps k = map snd (filter (\<lambda>p. fst p = k) ps)"

lemma Values_fold:
  "map_of (fold (\<lambda>(k, v) m. Values_Add m k v) ps m) k =
     (let vs = values_of ps k
      in if vs = [] then map_of m k
         else Some ((case map_of m k of None \<Rightarrow> [] | Some us \<Rightarrow> us) @ vs))"
  by (induction ps arbitrary: m) (auto simp: values_of_def Values_Add_def update_conv Let_def)

lemma unescape_plain_key:
  "CHR ''%'' \<notin> set k \<Longrightarrow> CHR ''+'' \<notin> set k \<Longrightarrow> QueryUnescape k = Inr k"
  unfolding QueryUnescape_def by (induction k) auto

lemma Inr_pairs: "[e. Inl e \<leftarrow> map Inr ps] = []" "[p. Inr p \<leftarrow> map Inr ps] = ps"
  by (induction ps) auto

lemma ParseQuery_pairs:
  assumes "\<forall>(k, v) \<in> set ps. plain_key k"
  shows "fst (ParseQuery (Join (map (form_pair QueryEscape) ps) ''&'')) = None"
    and "map_of (snd (ParseQuery (Join (map (form_pair QueryEscape) ps) ''&''))) k =
      (if values_of ps k = [] then None else Some (values_of ps k))"
proof -
  have "parse_pieces QueryUnescape (Join (map (form_pair QueryEscape) ps) ''&'') = map Inr ps"
    using assms by (intro query_codec.pieces_of_body) (auto simp: plain_key_def unescape_plain_key)
  then have "ParseQuery (Join (map (form_pair QueryEscape) ps) ''&'') =
      (None, fold (\<lambda>(k, v) m. Values_Add m k v) ps [])"
    by (simp only: ParseQuery_def Let_def Inr_pairs list.case)
  then show "fst (ParseQuery (Join (map (form_pair QueryEscape) ps) ''&'')) = None"
    and "map_of (snd (ParseQuery (Join (map (form_pair QueryEscape) ps) ''&''))) k =
      (if values_of ps k = [] then None else Some (values_of ps k))"
    by (simp_all add: Values_fold Let_def)
qed

section \<open>Keys\<close>

lemma delimited_eq:
  fixes c :: char
  assumes "c \<notin> set a" and "c \<notin> set b"
  shows "a @ c # x = b @ c # y \<longleftrightarrow> a = b \<and> x = y"
proof
  assume "a @ c # x = b @ c # y"
  then have "(a, x, True) = (b, y, True)"
    using Cut_append [OF assms(1), of x] Cut_append [OF assms(2), of y] by metis
  then show "a = b \<and> x = y" by simp
qed simp

lemma dec_of_nat_chars: "digit_val c = None \<Longrightarrow> c \<notin> set (dec_of_nat n)"
  using dec_of_nat_digits by blast

lemma hierKey_eq:
  assumes "CHR '']'' \<notin> set d" and "CHR '']'' \<notin> set d'" and "CHR '']'' \<notin> set k" and "CHR '']'' \<notin> set k'"
  shows "hierKey d i k = hierKey d' j k' \<longleftrightarrow> d = d' \<and> i = j \<and> k = k'"
proof -
  have dec: "CHR '']'' \<notin> set (dec_of_nat n)" for n
    by (rule dec_of_nat_chars) (simp add: digit_val_def)
  show ?thesis
    using delimited_eq [OF assms(1,2)] delimited_eq [OF dec dec] delimited_eq [OF assms(3,4), of "[]" "[]"]
    by (auto simp: hierKey_def)
qed

lemma plain_hierKey: "plain_key d \<Longrightarrow> plain_key k \<Longrightarrow> plain_key (hierKey d i k)"
  using dec_of_nat_chars by (auto simp: plain_key_def hierKey_def digit_val_def)

end
