(* ===== verification/FirewallRules.thy ===== *)
theory FirewallRules
  imports UrlEncode
begin

text \<open>
  The rules of firewall.go and their comparison: FirewallRule and FirewallRules, the projection to
  an IP version, Equivalent, ServerInjectedRules and Without, the rule limit, and the encoding of
  a rule. A Go map that counts is an association list read and written through count_get and
  count_put; the locale counter states what the loops need of it.
\<close>

section \<open>Counting maps\<close>

type_synonym 'k counts = "('k \<times> nat) list"

definition count_get :: "'k counts \<Rightarrow> 'k \<Rightarrow> nat" where
  "count_get m k = (case map_of m k of Some n \<Rightarrow> n | None \<Rightarrow> 0)"

definition count_put :: "'k counts \<Rightarrow> 'k \<Rightarrow> nat \<Rightarrow> 'k counts" where
  "count_put m k n = AList.update k n m"

locale counter =
  fixes get :: "'m \<Rightarrow> 'k \<Rightarrow> nat" and put :: "'m \<Rightarrow> 'k \<Rightarrow> nat \<Rightarrow> 'm" and empty :: 'm
  assumes get_empty: "get empty k = 0"
    and get_put: "get (put m k n) k' = (if k' = k then n else get m k')"
begin

lemma get_tally: "get (fold (\<lambda>k m. put m k (get m k + 1)) ks m) k = get m k + count_list ks k"
  by (induction ks arbitrary: m) (auto simp: get_put)

lemma tally: "get (fold (\<lambda>k m. put m k (get m k + 1)) ks empty) = count_list ks"
  by (rule ext) (simp only: get_tally get_empty add_0)

lemma get_spend:
  assumes "\<And>x. get m x = b x - count_list seen x"
  shows "get (if 0 < get m k then put m k (get m k - 1) else m) x = b x - count_list (seen @ [k]) x"
  using assms by (auto simp: get_put)

end

interpretation go_counts: counter count_get count_put "[]"
  by unfold_locales (auto simp: count_get_def count_put_def update_conv)

definition tally :: "'k list \<Rightarrow> 'k counts" where
  "tally ks = fold (\<lambda>k m. count_put m k (count_get m k + 1)) ks []"

lemma count_get_tally [simp]: "count_get (tally ks) = count_list ks"
  unfolding tally_def by (rule go_counts.tally)

section \<open>Rules\<close>

type_synonym IPVersion = string

definition IPv4 :: IPVersion where "IPv4 = ''ipv4''"
definition IPv6 :: IPVersion where "IPv6 = ''ipv6''"

text \<open>The named values of the types Action and Protocol, which are strings like the version.\<close>

definition Actions :: "string list" where "Actions = [''accept'', ''discard'']"

definition Protocols :: "string list" where
  "Protocols = [''tcp'', ''udp'', ''icmp'', ''esp'', ''gre'', ''ipip'', ''ah'']"

record FirewallRule =
  Name :: string
  IPVersion :: IPVersion
  Action :: string
  Protocol :: string
  SourceIP :: string
  DestIP :: string
  SourcePort :: string
  DestPort :: string
  TCPFlags :: string

record FirewallRules =
  Input :: "FirewallRule list"
  Output :: "FirewallRule list"

definition appliesTo :: "FirewallRule \<Rightarrow> IPVersion \<Rightarrow> bool" where
  "appliesTo r v = (IPVersion r = [] \<or> IPVersion r = v)"

fun projectRules :: "FirewallRule list \<Rightarrow> IPVersion \<Rightarrow> FirewallRule list" where
  "projectRules [] v = []"
| "projectRules (r # rules) v =
     (if appliesTo r v then r\<lparr>IPVersion := []\<rparr> # projectRules rules v else projectRules rules v)"

definition rulesEquivalent :: "FirewallRule list \<Rightarrow> FirewallRule list \<Rightarrow> bool" where
  "rulesEquivalent a b =
     list_all (\<lambda>v. let pa = projectRules a v; pb = projectRules b v
                   in length pa = length pb \<and> list_all (\<lambda>i. pa ! i = pb ! i) [0..<length pa])
       [IPv4, IPv6]"

definition Equivalent :: "FirewallRules \<Rightarrow> FirewallRules \<Rightarrow> bool" where
  "Equivalent r other =
     (rulesEquivalent (Input r) (Input other) \<and> rulesEquivalent (Output r) (Output other))"

section \<open>Injected rules and their removal\<close>

text \<open>
  The loop of injectedRules over the returned rules, for one IP version: i is the index of the
  next rule, and the pair holds the maps applies and unaccounted.
\<close>

type_synonym marks = "(nat \<Rightarrow> nat) \<times> (nat \<Rightarrow> nat)"

fun match_loop :: "IPVersion \<Rightarrow> nat \<Rightarrow> FirewallRule list \<Rightarrow> FirewallRule counts \<Rightarrow> marks \<Rightarrow> marks" where
  "match_loop v i [] available (applies, unaccounted) = (applies, unaccounted)"
| "match_loop v i (rule # returned) available (applies, unaccounted) =
     (if \<not> appliesTo rule v then match_loop v (Suc i) returned available (applies, unaccounted)
      else
        (let applies = applies(i := applies i + 1); key = rule\<lparr>IPVersion := []\<rparr>
         in if count_get available key > 0
            then match_loop v (Suc i) returned (count_put available key (count_get available key - 1))
                   (applies, unaccounted)
            else match_loop v (Suc i) returned available
                   (applies, unaccounted(i := unaccounted i + 1))))"

definition injectedRules :: "FirewallRule list \<Rightarrow> FirewallRule list \<Rightarrow> FirewallRule list" where
  "injectedRules posted returned =
     (let (applies, unaccounted) =
            fold (\<lambda>v. match_loop v 0 returned (tally (projectRules posted v))) [IPv4, IPv6]
              (\<lambda>i. 0, \<lambda>i. 0)
      in map snd (filter (\<lambda>(i, rule). applies i > 0 \<and> unaccounted i = applies i)
                    (enumerate 0 returned)))"

definition ServerInjectedRules :: "FirewallRules \<Rightarrow> FirewallRules \<Rightarrow> FirewallRules" where
  "ServerInjectedRules posted returned =
     \<lparr>Input = injectedRules (Input posted) (Input returned),
      Output = injectedRules (Output posted) (Output returned)\<rparr>"

fun remove_loop :: "FirewallRule counts \<Rightarrow> FirewallRule list \<Rightarrow> FirewallRule list" where
  "remove_loop pending [] = []"
| "remove_loop pending (rule # rules) =
     (if count_get pending rule > 0
      then remove_loop (count_put pending rule (count_get pending rule - 1)) rules
      else rule # remove_loop pending rules)"

definition removeRules :: "FirewallRule list \<Rightarrow> FirewallRule list \<Rightarrow> FirewallRule list" where
  "removeRules rules remove =
     (if remove = [] then rules else remove_loop (tally remove) rules)"

definition Without :: "FirewallRules \<Rightarrow> FirewallRules \<Rightarrow> FirewallRules" where
  "Without r remove =
     \<lparr>Input = removeRules (Input r) (Input remove), Output = removeRules (Output r) (Output remove)\<rparr>"

section \<open>The rule limit and the fields of a rule\<close>

definition validateInputRuleCount :: "FirewallRules \<Rightarrow> int \<Rightarrow> error option" where
  "validateInputRuleCount rules maxInput =
     (if int (length (Input rules)) > maxInput then
        Some (NewValidationError ErrFirewallRuleLimitExceeded
          (''inbound firewall rule count '' @ dec_of_nat (length (Input rules))
            @ '' exceeds the maximum of '' @ Itoa maxInput) 409)
      else None)"

definition put_nonempty :: "string \<Rightarrow> string \<Rightarrow> form \<Rightarrow> form" where
  "put_nonempty k v m = (if v \<noteq> [] then AList.update k v m else m)"

definition encodeRule :: "FirewallRule \<Rightarrow> form" where
  "encodeRule rule =
     put_nonempty ''tcp_flags'' (TCPFlags rule)
       (put_nonempty ''dst_port'' (DestPort rule)
          (put_nonempty ''src_port'' (SourcePort rule)
             (put_nonempty ''dst_ip'' (DestIP rule)
                (put_nonempty ''src_ip'' (SourceIP rule)
                   (put_nonempty ''protocol'' (Protocol rule)
                      (AList.update ''action'' (Action rule)
                         (put_nonempty ''ip_version'' (IPVersion rule)
                            (put_nonempty ''name'' (Name rule) []))))))))"

definition encodeRules :: "FirewallRules \<Rightarrow> form \<Rightarrow> string" where
  "encodeRules rules extra =
     EncodeToString
       (fold (\<lambda>rule. AddOutputRule (encodeRule rule)) (Output rules)
          (fold (\<lambda>rule. AddInputRule (encodeRule rule)) (Input rules) NewFirewallRuleEncoder))
       extra"

section \<open>Equivalence is equality of the projections\<close>

lemma projectRules_filter:
  "projectRules rules v = map (\<lambda>r. r\<lparr>IPVersion := []\<rparr>) (filter (\<lambda>r. appliesTo r v) rules)"
  by (induction rules) auto

lemma projectRules_append [simp]: "projectRules (a @ b) v = projectRules a v @ projectRules b v"
  by (simp add: projectRules_filter)

lemma elementwise_eq:
  "length xs = length ys \<and> list_all (\<lambda>i. xs ! i = ys ! i) [0..<length xs] \<longleftrightarrow> xs = ys"
  unfolding list_eq_iff_nth_eq list_all_iff by auto

lemma rulesEquivalent_iff:
  "rulesEquivalent a b \<longleftrightarrow> projectRules a IPv4 = projectRules b IPv4 \<and> projectRules a IPv6 = projectRules b IPv6"
  by (simp only: rulesEquivalent_def Let_def elementwise_eq list.pred_inject simp_thms)

section \<open>What is left over\<close>

text \<open>
  The elements of a list that a bag does not account for: seen are the elements before. Both
  loops of the code consume a bag this way.
\<close>

definition surplus :: "('k \<Rightarrow> nat) \<Rightarrow> 'k list \<Rightarrow> nat \<Rightarrow> bool" where
  "surplus b xs i \<longleftrightarrow> b (xs ! i) \<le> count_list (take i xs) (xs ! i)"

fun leftover :: "('k \<Rightarrow> nat) \<Rightarrow> 'k list \<Rightarrow> 'k list \<Rightarrow> 'k list" where
  "leftover b seen [] = []"
| "leftover b seen (x # xs) =
     (if count_list seen x < b x then leftover b (seen @ [x]) xs else x # leftover b (seen @ [x]) xs)"

lemma remove_loop_leftover:
  assumes "\<And>x. count_get pending x = b x - count_list seen x"
  shows "remove_loop pending rules = leftover b seen rules"
  using assms
proof (induction rules arbitrary: pending seen)
  case (Cons r rules)
  have next_inv: "count_get (if 0 < count_get pending r then count_put pending r (count_get pending r - 1) else pending) x
      = b x - count_list (seen @ [r]) x" for x
    using go_counts.get_spend [of pending b seen r x] Cons.prems by simp
  show ?case
    using Cons.IH [OF next_inv] Cons.prems [of r] by (cases "0 < count_get pending r") auto
qed simp

lemma removeRules_leftover: "removeRules rules remove = leftover (count_list remove) [] rules"
proof (cases "remove = []")
  case True
  have "leftover (count_list []) seen rules = rules" for seen by (induction rules arbitrary: seen) auto
  with True show ?thesis by (simp add: removeRules_def)
next
  case False
  then show ?thesis
    using remove_loop_leftover [of "tally remove" "count_list remove" "[]" rules]
    by (simp add: removeRules_def)
qed

lemma count_leftover:
  "count_list (leftover b seen xs) x = count_list xs x - (b x - count_list seen x)"
  by (induction xs arbitrary: seen) auto

lemma subseq_leftover: "subseq (leftover b seen xs) xs"
  by (induction xs arbitrary: seen) auto

lemma count_list_mset: "count_list xs = count (mset xs)"
  by (induction xs) (auto simp: fun_eq_iff)

section \<open>What injectedRules reports\<close>

lemma match_loop_outside:
  "j < i \<Longrightarrow> fst (match_loop v i rs av m) j = fst m j \<and> snd (match_loop v i rs av m) j = snd m j"
proof (induction rs arbitrary: i av m)
  case Nil
  then show ?case by (cases m) simp
next
  case (Cons r rs)
  then show ?case by (cases m) (simp add: Let_def)
qed

text \<open>Whether the rule at position j goes unmatched in version v.\<close>

definition unmatched :: "FirewallRule list \<Rightarrow> FirewallRule list \<Rightarrow> IPVersion \<Rightarrow> nat \<Rightarrow> bool" where
  "unmatched posted returned v j \<longleftrightarrow>
     count_list (projectRules posted v) ((returned ! j)\<lparr>IPVersion := []\<rparr>)
       \<le> count_list (projectRules (take j returned) v) ((returned ! j)\<lparr>IPVersion := []\<rparr>)"

lemma match_loop_marks:
  assumes "\<And>x. count_get av x = b x - count_list (projectRules seen v) x"
    and "i \<le> j" and "j < i + length rs"
  shows "fst (match_loop v i rs av m) j = fst m j + (if appliesTo (rs ! (j - i)) v then 1 else 0)
    \<and> snd (match_loop v i rs av m) j = snd m j
      + (if appliesTo (rs ! (j - i)) v
            \<and> b ((rs ! (j - i))\<lparr>IPVersion := []\<rparr>)
                \<le> count_list (projectRules (seen @ take (j - i) rs) v) ((rs ! (j - i))\<lparr>IPVersion := []\<rparr>)
         then 1 else 0)"
  using assms
proof (induction rs arbitrary: i av m seen)
  case (Cons r rs)
  obtain ap un where m: "m = (ap, un)" by force
  let ?key = "r\<lparr>IPVersion := []\<rparr>"
  let ?av = "if 0 < count_get av ?key then count_put av ?key (count_get av ?key - 1) else av"
  have spend: "count_get ?av x = b x - count_list (projectRules (seen @ [r]) v) x" if "appliesTo r v" for x
    using go_counts.get_spend [of av b "projectRules seen v" ?key x] Cons.prems(1) that by simp
  have skip: "count_get av x = b x - count_list (projectRules (seen @ [r]) v) x" if "\<not> appliesTo r v" for x
    using Cons.prems(1) that by simp
  show ?case
  proof (cases "j = i")
    case True
    then show ?thesis
      using match_loop_outside [of i "Suc i" v rs] Cons.prems(1) [of ?key] m
      by (auto simp: Let_def)
  next
    case False
    then have j: "Suc i \<le> j" "j < Suc i + length rs" "j - i = Suc (j - Suc i)"
      using Cons.prems(2,3) by auto
    show ?thesis
    proof (cases "appliesTo r v")
      case app: True
      from Cons.IH [OF spend [OF app] j(1,2)] show ?thesis
        using app m j(3) False Cons.prems(2) by (auto simp: Let_def)
    next
      case app: False
      from Cons.IH [OF skip [OF app] j(1,2)] show ?thesis
        using app m j(3) False Cons.prems(2) by (auto simp: Let_def)
    qed
  qed
qed simp

text \<open>The result of injectedRules, without the maps.\<close>

definition reported :: "FirewallRule list \<Rightarrow> FirewallRule list \<Rightarrow> nat \<Rightarrow> FirewallRule \<Rightarrow> bool" where
  "reported posted returned i rule \<longleftrightarrow>
     (appliesTo rule IPv4 \<or> appliesTo rule IPv6)
     \<and> (appliesTo rule IPv4 \<longrightarrow> unmatched posted returned IPv4 i)
     \<and> (appliesTo rule IPv6 \<longrightarrow> unmatched posted returned IPv6 i)"

lemma injectedRules_reported:
  "injectedRules posted returned =
     map snd (filter (\<lambda>(i, rule). reported posted returned i rule) (enumerate 0 returned))"
proof -
  let ?ml = "\<lambda>v. match_loop v 0 returned (tally (projectRules posted v))"
  let ?m = "?ml IPv6 (?ml IPv4 (\<lambda>i. 0, \<lambda>i. 0))"
  have marks: "fst (?ml v m) i = fst m i + (if appliesTo (returned ! i) v then 1 else 0)
      \<and> snd (?ml v m) i = snd m i
        + (if appliesTo (returned ! i) v \<and> unmatched posted returned v i then 1 else 0)"
    if "i < length returned" for v m i
    using match_loop_marks [of "tally (projectRules posted v)" "count_list (projectRules posted v)" "[]" v 0 i returned m]
      that by (simp add: unmatched_def)
  have "(0 < fst ?m i \<and> snd ?m i = fst ?m i) = reported posted returned i rule"
    if "(i, rule) \<in> set (enumerate 0 returned)" for i rule
  proof -
    from that have "i < length returned" "returned ! i = rule" by (simp_all add: in_set_enumerate_eq)
    then show ?thesis by (simp only: marks fst_conv snd_conv reported_def) auto
  qed
  then have "filter (\<lambda>(i, rule). 0 < fst ?m i \<and> snd ?m i = fst ?m i) (enumerate 0 returned)
      = filter (\<lambda>(i, rule). reported posted returned i rule) (enumerate 0 returned)"
    by (intro filter_cong) auto
  then show ?thesis
    by (simp only: injectedRules_def fold.simps comp_apply id_apply Let_def split_beta prod.collapse)
qed

lemma filter_enumerate:
  assumes "\<And>i x. (i, x) \<in> set (enumerate n xs) \<Longrightarrow> Q i x = P x"
  shows "map snd (filter (\<lambda>(i, x). Q i x) (enumerate n xs)) = filter P xs"
proof -
  have "filter (\<lambda>(i, x). Q i x) (enumerate n xs) = filter (P \<circ> snd) (enumerate n xs)"
    using assms by (intro filter_cong) auto
  then show ?thesis by (simp add: filter_map [symmetric])
qed

lemma subseq_map_filter: "subseq (map f (filter P xs)) (map f xs)"
  by (induction xs) auto

section \<open>Rulesets with foreign rules\<close>

text \<open>
  Rules that a ruleset does not hold in any IP version they apply to (and they do apply to one).
\<close>

definition foreign :: "FirewallRule list \<Rightarrow> FirewallRule list \<Rightarrow> bool" where
  "foreign ins rules \<longleftrightarrow>
     list_all (\<lambda>r. (appliesTo r IPv4 \<or> appliesTo r IPv6)
       \<and> list_all (\<lambda>v. appliesTo r v \<longrightarrow> r\<lparr>IPVersion := []\<rparr> \<notin> set (projectRules rules v)) [IPv4, IPv6]) ins"

lemma foreignD:
  assumes "foreign ins rules" and "r \<in> set ins" and "v \<in> {IPv4, IPv6}" and "appliesTo r v"
  shows "r\<lparr>IPVersion := []\<rparr> \<notin> set (projectRules rules v)"
  using assms by (auto simp: foreign_def list_all_iff)

lemma in_projectRules: "k \<in> set (projectRules rules v) \<longleftrightarrow> (\<exists>r \<in> set rules. appliesTo r v \<and> k = r\<lparr>IPVersion := []\<rparr>)"
  by (auto simp: projectRules_filter)

lemma foreign_disjoint: "foreign ins rules \<Longrightarrow> set ins \<inter> set rules = {}"
  unfolding foreign_def list_all_iff in_projectRules by fastforce

lemma count_projectRules_mset:
  "mset a = mset b \<Longrightarrow> count_list (projectRules a v) = count_list (projectRules b v)"
  by (simp add: count_list_mset projectRules_filter mset_filter)

lemma equivalent_projections:
  "rulesEquivalent a b \<Longrightarrow> v \<in> {IPv4, IPv6} \<Longrightarrow> projectRules a v = projectRules b v"
  by (auto simp: rulesEquivalent_iff)

lemma own_projected:
  assumes "rulesEquivalent norm rules" and "r \<in> set norm" and "appliesTo r v" and "v \<in> {IPv4, IPv6}"
  shows "r\<lparr>IPVersion := []\<rparr> \<in> set (projectRules rules v)"
proof -
  have "r\<lparr>IPVersion := []\<rparr> \<in> set (projectRules norm v)"
    using assms(2,3) by (auto simp: in_projectRules)
  with equivalent_projections [OF assms(1,4)] show ?thesis by simp
qed

lemma count_own_rule:
  assumes "foreign ins rules" and "rulesEquivalent norm rules" and "mset returned = mset (ins @ norm)"
    and "r \<in> set norm" and "appliesTo r v" and "v \<in> {IPv4, IPv6}"
  shows "count_list (projectRules returned v) (r\<lparr>IPVersion := []\<rparr>)
    = count_list (projectRules rules v) (r\<lparr>IPVersion := []\<rparr>)"
proof -
  have "r\<lparr>IPVersion := []\<rparr> \<in> set (projectRules rules v)"
    using own_projected assms(2,4-6) .
  then have "r\<lparr>IPVersion := []\<rparr> \<notin> set (projectRules ins v)"
    using foreignD [OF assms(1) _ assms(6)] by (auto simp: in_projectRules)
  then have "count_list (projectRules ins v) (r\<lparr>IPVersion := []\<rparr>) = 0"
    by (simp add: count_list_0_iff)
  with count_projectRules_mset [OF assms(3), of v] equivalent_projections [OF assms(2,6)]
  show ?thesis by simp
qed

lemma count_before:
  assumes "i < length xs" and "appliesTo (xs ! i) v"
  shows "count_list (projectRules (take i xs) v) ((xs ! i)\<lparr>IPVersion := []\<rparr>)
    < count_list (projectRules xs v) ((xs ! i)\<lparr>IPVersion := []\<rparr>)"
proof -
  have "projectRules xs v = projectRules (take i xs @ xs ! i # drop (Suc i) xs) v"
    using assms(1) by (simp add: id_take_nth_drop [symmetric])
  with assms(2) show ?thesis by simp
qed

lemma reported_foreign:
  assumes "foreign ins rules" and "rulesEquivalent norm rules" and "mset returned = mset (ins @ norm)"
    and "i < length returned"
  shows "reported rules returned i (returned ! i) \<longleftrightarrow> returned ! i \<in> set ins"
proof (cases "returned ! i \<in> set ins")
  case True
  have "unmatched rules returned v i" if "v \<in> {IPv4, IPv6}" "appliesTo (returned ! i) v" for v
    using foreignD [OF assms(1) True that] by (simp add: unmatched_def count_list_0_iff)
  with True assms(1) show ?thesis
    by (auto simp: reported_def foreign_def list_all_iff)
next
  case False
  have "set returned = set ins \<union> set norm"
    using arg_cong [OF assms(3), of set_mset] by simp
  with False assms(4) have own: "returned ! i \<in> set norm" using nth_mem by blast
  have "\<not> unmatched rules returned v i" if v: "v \<in> {IPv4, IPv6}" and app: "appliesTo (returned ! i) v" for v
    using count_before [OF assms(4) app] count_own_rule [OF assms(1-3) own app v] by (simp add: unmatched_def)
  with False show ?thesis by (auto simp: reported_def)
qed

lemma injectedRules_foreign:
  assumes "foreign ins rules" and "rulesEquivalent norm rules" and "returned \<in> shuffles ins norm"
  shows "injectedRules rules returned = ins"
proof -
  have m: "mset returned = mset (ins @ norm)" using assms(3) by (simp add: mset_shuffles)
  have disj: "set ins \<inter> set norm = {}"
  proof (intro equals0I)
    fix r assume "r \<in> set ins \<inter> set norm"
    moreover from this obtain v where "v \<in> {IPv4, IPv6}" "appliesTo r v"
      using assms(1) by (auto simp: foreign_def list_all_iff)
    ultimately show False
      using foreignD [OF assms(1)] own_projected [OF assms(2)] by blast
  qed
  have "injectedRules rules returned = filter (\<lambda>r. r \<in> set ins) returned"
    unfolding injectedRules_reported
    by (intro filter_enumerate) (use reported_foreign [OF assms(1,2) m] in \<open>auto simp: in_set_enumerate_eq\<close>)
  also have "\<dots> = ins" using filter_shuffles_disjoint1(1) [OF disj assms(3)] .
  finally show ?thesis .
qed

lemma leftover_all:
  assumes "\<And>x. b x = 0 \<or> count_list (seen @ xs) x \<le> b x"
  shows "leftover b seen xs = filter (\<lambda>x. b x = 0) xs"
  using assms
proof (induction xs arbitrary: seen)
  case (Cons x xs)
  have "leftover b (seen @ [x]) xs = filter (\<lambda>x. b x = 0) xs"
    by (rule Cons.IH) (use Cons.prems in simp)
  moreover have "b x = 0 \<or> count_list seen x < b x" using Cons.prems [of x] by auto
  ultimately show ?case by auto
qed simp

lemma removeRules_foreign:
  assumes "mset ins' = mset ins" and "set ins \<inter> set own = {}" and "current \<in> shuffles ins' own"
  shows "removeRules current ins = own"
proof -
  have "mset current = mset ins + mset own" using assms(1,3) by (simp add: mset_shuffles)
  then have "count_list current x = count_list ins x + count_list own x" for x
    by (simp add: count_list_mset)
  moreover have "x \<in> set ins \<Longrightarrow> count_list own x = 0" for x
    using assms(2) by (auto simp: count_list_0_iff)
  ultimately have "removeRules current ins = filter (\<lambda>x. count_list ins x = 0) current"
    unfolding removeRules_leftover by (intro leftover_all) (auto simp: count_list_0_iff)
  also have "\<dots> = filter (\<lambda>x. x \<notin> set ins') current"
    using assms(1) mset_eq_setD by (intro filter_cong) (auto simp: count_list_0_iff)
  also have "\<dots> = own"
    using assms mset_eq_setD by (intro filter_shuffles_disjoint1(2)) auto
  finally show ?thesis .
qed

end
