(* ===== verification/SpecTest.thy ===== *)
theory SpecTest
  imports UrlEncode World
begin

text \<open>
  internal/spectest: the hand-written checks of request bodies with bracketed keys that the test
  fixtures apply, and the choice of the check by method and path. A check returns the list
  of failures it reports. The schema-driven checks belong to the kin-openapi library and are not
  modelled.
\<close>

section \<open>Body checks\<close>

datatype report =
  NotAForm | BadKey string | NoServer | NoOperation error | BodyUnread error | BadRequest error
| BadResponse int error

definition lower_or_underscore :: "char \<Rightarrow> bool" where
  "lower_or_underscore c \<longleftrightarrow> in_range 97 c 122 \<or> c = CHR ''_''"

definition ascii_digit :: "char \<Rightarrow> bool" where
  "ascii_digit c \<longleftrightarrow> in_range 48 c 57"

text \<open>The regular expression firewallRuleKey, read from left to right.\<close>

definition bracketed :: "string \<Rightarrow> (string \<times> string) option" where
  "bracketed s =
     (let (inner, rest, closed) = Cut (drop 1 s) CHR '']''
      in if HasPrefix s ''['' \<and> closed then Some (inner, rest) else None)"

definition firewallRuleKey :: "string \<Rightarrow> bool" where
  "firewallRuleKey key =
     (HasPrefix key ''rules'' \<and>
      (case bracketed (drop 5 key) of
         None \<Rightarrow> False
       | Some (direction, r) \<Rightarrow>
          (direction = ''input'' \<or> direction = ''output'') \<and>
          (case bracketed r of
             None \<Rightarrow> False
           | Some (index, r') \<Rightarrow>
              index \<noteq> [] \<and> list_all ascii_digit index \<and>
              (case bracketed r' of
                 None \<Rightarrow> False
               | Some (field, r'') \<Rightarrow>
                  field \<noteq> [] \<and> list_all lower_or_underscore field \<and> r'' = []))))"

definition firewallAllowedFields :: "string list" where
  "firewallAllowedFields =
     [''name'', ''ip_version'', ''dst_ip'', ''src_ip'', ''dst_port'', ''src_port'', ''protocol'',
      ''tcp_flags'', ''action'']"

definition firewallRuleKeyOrScalar :: "string \<Rightarrow> bool" where
  "firewallRuleKeyOrScalar key =
     (if \<not> ContainsRune key CHR ''['' then True
      else if \<not> firewallRuleKey key then False
      else butlast (drop_until_last CHR ''['' key) \<in> set firewallAllowedFields)"

definition check_keys :: "(string \<Rightarrow> bool) \<Rightarrow> Values \<Rightarrow> report list" where
  "check_keys ok values = map BadKey (filter (\<lambda>k. \<not> ok k) (map fst values))"

definition validateFirewallForm :: "string \<Rightarrow> report list" where
  "validateFirewallForm body =
     (let (err, values) = ParseQuery body
      in if err \<noteq> None then [NotAForm] else check_keys firewallRuleKeyOrScalar values)"

definition trafficAllowedScalarFields :: "string list" where
  "trafficAllowedScalarFields = [''ip'', ''from'', ''to'', ''type'', ''single_values'']"

definition validateTrafficForm :: "string \<Rightarrow> report list" where
  "validateTrafficForm body =
     (let (err, values) = ParseQuery body
      in if err \<noteq> None then [NotAForm]
         else check_keys (\<lambda>key. key \<in> set trafficAllowedScalarFields \<or> key = ''ip[]'' \<or> key = ''subnet[]'')
                values)"

definition validateVSwitchServerForm :: "string \<Rightarrow> report list" where
  "validateVSwitchServerForm body =
     (let (err, values) = ParseQuery body
      in if err \<noteq> None then [NotAForm]
         else check_keys (\<lambda>key. key = ''server[]'') values
           @ (if go_index values ''server[]'' = [] then [NoServer] else []))"

section \<open>Which check applies\<close>

definition slash_segments :: "string \<Rightarrow> string list" where
  "slash_segments path =
     split_on CHR ''/''
       (rev (dropWhile (\<lambda>c. c = CHR ''/'') (rev (dropWhile (\<lambda>c. c = CHR ''/'') path))))"

definition isFirewallRulesPath :: "string \<Rightarrow> bool" where
  "isFirewallRulesPath path =
     (let segments = slash_segments path
      in if hd segments \<noteq> ''firewall'' then False
         else if length segments = 2 then True
         else if length segments = 3 then segments ! 1 = ''template''
         else False)"

definition isVSwitchServerPath :: "string \<Rightarrow> bool" where
  "isVSwitchServerPath path =
     (let segments = slash_segments path
      in length segments = 3 \<and> segments ! 0 = ''vswitch'' \<and> segments ! 2 = ''server'')"

definition isTrafficPath :: "string \<Rightarrow> bool" where
  "isTrafficPath path =
     (let segments = slash_segments path in length segments = 1 \<and> segments ! 0 = ''traffic'')"

text \<open>The switch of Handler; schema stands for the check against the OpenAPI document.\<close>

definition body_check :: "(string \<Rightarrow> report list) \<Rightarrow> string \<Rightarrow> string \<Rightarrow> string \<Rightarrow> report list" where
  "body_check schema method path body =
     (if isFirewallRulesPath path \<and> method = MethodPost then validateFirewallForm body
      else if isVSwitchServerPath path \<and> (method = MethodPost \<or> method = MethodDelete)
        then validateVSwitchServerForm body
      else if isTrafficPath path \<and> method = MethodPost then validateTrafficForm body
      else schema body)"

section \<open>Keys of the encoder\<close>

lemma bracketed_append: "CHR '']'' \<notin> set a \<Longrightarrow> bracketed (CHR ''['' # a @ CHR '']'' # b) = Some (a, b)"
  by (simp add: bracketed_def Cut_append HasPrefix_def)

lemma allowed_field_chars:
  "k \<in> set firewallAllowedFields \<Longrightarrow> k \<noteq> [] \<and> list_all lower_or_underscore k"
  by (auto simp: firewallAllowedFields_def lower_or_underscore_def in_range_def byte_def)

lemma lower_not_bracket: "list_all lower_or_underscore k \<Longrightarrow> set k \<inter> {CHR ''['', CHR '']''} = {}"
  by (induction k) (auto simp: lower_or_underscore_def in_range_def byte_def)

lemma digit_val_ascii: "digit_val c \<noteq> None \<Longrightarrow> ascii_digit c"
  by (auto simp: digit_val_def ascii_digit_def in_range_def byte_def Let_def split: if_splits)

lemma drop_until_last_append: "c \<notin> set b \<Longrightarrow> drop_until_last c (a @ c # b) = b"
proof -
  assume "c \<notin> set b"
  then have "takeWhile (\<lambda>x. x \<noteq> c) (rev b @ c # rev a) = rev b"
    by (subst takeWhile_append2) auto
  then show ?thesis by (simp add: drop_until_last_def)
qed

lemma hierKey_accepted:
  assumes "d = ''input'' \<or> d = ''output''" and "k \<in> set firewallAllowedFields"
  shows "firewallRuleKeyOrScalar (hierKey d i k)"
proof -
  let ?n = "dec_of_nat i"
  note k = allowed_field_chars [OF assms(2)]
  have nobr: "CHR '']'' \<notin> set d" "CHR '']'' \<notin> set ?n" "CHR '']'' \<notin> set k" "CHR ''['' \<notin> set (k @ [CHR '']''])"
    using assms(1) k lower_not_bracket [of k] dec_of_nat_chars by (auto simp: digit_val_def)
  have "list_all ascii_digit ?n"
    using dec_of_nat_digits digit_val_ascii by (simp add: list_all_iff)
  moreover have "hierKey d i k = ''rules'' @ CHR ''['' # d @ CHR '']'' #
      CHR ''['' # ?n @ CHR '']'' # CHR ''['' # k @ [CHR '']'']"
    by (simp add: hierKey_def)
  ultimately have "firewallRuleKey (hierKey d i k)"
    using bracketed_append [OF nobr(1)] bracketed_append [OF nobr(2)] bracketed_append [OF nobr(3)] k assms(1)
    by (auto simp: firewallRuleKey_def HasPrefix_def)
  moreover have "hierKey d i k = (''rules['' @ d @ CHR '']'' # ''['' @ ?n @ [CHR '']'']) @ CHR ''['' # (k @ [CHR '']''])"
    by (simp add: hierKey_def)
  then have "drop_until_last CHR ''['' (hierKey d i k) = k @ [CHR '']'']"
    by (simp only: drop_until_last_append [OF nobr(4)])
  ultimately show ?thesis
    using assms(2) by (simp add: firewallRuleKeyOrScalar_def)
qed

end
