(* ===== verification/FirewallForms.thy ===== *)
theory FirewallForms
  imports FirewallRules SpecTest
begin

text \<open>
  The body that Update and the template operations post. A reader of such a body (read_ruleset, what a
  server has to do) recovers the rules exactly, and the hand-written check of the test tooling
  accepts every body the encoder produces.
\<close>

section \<open>The encoder's state\<close>

lemma EncRules_inputs:
  "EncRules (fold (\<lambda>rule. AddInputRule (f rule)) rs NewFirewallRuleEncoder) =
     (if rs = [] then [] else [(''input'', map f rs)])"
  by (induction rs rule: rev_induct) (auto simp: NewFirewallRuleEncoder_def AddInputRule_def go_index_def)

lemma EncRules_outputs:
  assumes "EncRules e = [] \<or> (\<exists>xs. EncRules e = [(''input'', xs)])"
  shows "EncRules (fold (\<lambda>rule. AddOutputRule (f rule)) rs e) =
     (if rs = [] then EncRules e else EncRules e @ [(''output'', map f rs)])"
  using assms by (induction rs rule: rev_induct) (auto simp: AddOutputRule_def go_index_def)

definition encoder_of :: "FirewallRules \<Rightarrow> (string \<times> form list) list" where
  "encoder_of rules =
     (if Input rules = [] then [] else [(''input'', map encodeRule (Input rules))])
     @ (if Output rules = [] then [] else [(''output'', map encodeRule (Output rules))])"

lemma encodeRules_pairs:
  "encodeRules rules extra =
     Join (map (form_pair QueryEscape) (body_pairs (encoder_of rules) extra)) ''&''"
proof -
  let ?e = "fold (\<lambda>rule. AddOutputRule (encodeRule rule)) (Output rules)
    (fold (\<lambda>rule. AddInputRule (encodeRule rule)) (Input rules) NewFirewallRuleEncoder)"
  have "EncRules ?e = encoder_of rules"
    by (subst EncRules_outputs) (auto simp: EncRules_inputs encoder_of_def)
  then show ?thesis by (simp only: encodeRules_def EncodeToString_pairs)
qed

lemma go_index_encoder:
  "go_index (encoder_of rules) ''input'' = map encodeRule (Input rules)"
  "go_index (encoder_of rules) ''output'' = map encodeRule (Output rules)"
  by (auto simp: encoder_of_def go_index_def)

lemma sorted_directions:
  "sort [''input'', ''output''] = [''input'', ''output'']" "sort [d] = [d :: string]"
  by (code_simp, simp)

lemma body_pairs_encoder:
  "body_pairs (encoder_of rules) extra =
     map (\<lambda>key. (key, go_index extra key)) (sortedKeys extra)
     @ concat (map (rule_pairs ''input'') (enumerate 0 (map encodeRule (Input rules))))
     @ concat (map (rule_pairs ''output'') (enumerate 0 (map encodeRule (Output rules))))"
proof -
  have "concat (map (dir_pairs (encoder_of rules)) (sortedKeys (encoder_of rules)))
      = dir_pairs (encoder_of rules) ''input'' @ dir_pairs (encoder_of rules) ''output''"
    by (cases "Input rules = []"; cases "Output rules = []")
      (simp_all add: sortedKeys_def encoder_of_def sorted_directions dir_pairs_def go_index_def
        del: sort_key_simps)
  then show ?thesis by (simp only: body_pairs_def dir_pairs_def go_index_encoder)
qed

section \<open>Fields of an encoded rule\<close>

text \<open>The fields of a rule under the names of the wire format.\<close>

definition rule_fields :: "FirewallRule \<Rightarrow> form" where
  "rule_fields r =
     [(''name'', Name r), (''ip_version'', IPVersion r), (''action'', Action r), (''protocol'', Protocol r),
      (''src_ip'', SourceIP r), (''dst_ip'', DestIP r), (''src_port'', SourcePort r),
      (''dst_port'', DestPort r), (''tcp_flags'', TCPFlags r)]"

lemma map_of_put_nonempty:
  "map_of (put_nonempty k v m) = (if v \<noteq> [] then (map_of m)(k \<mapsto> v) else map_of m)"
  by (simp add: put_nonempty_def update_conv')

lemma distinct_put_nonempty: "distinct (map fst m) \<Longrightarrow> distinct (map fst (put_nonempty k v m))"
  by (simp add: put_nonempty_def distinct_update)

lemma distinct_encodeRule: "distinct (map fst (encodeRule r))"
  unfolding encodeRule_def by (intro distinct_put_nonempty distinct_update) simp

definition put_field :: "string \<times> string \<Rightarrow> form \<Rightarrow> form" where
  "put_field kv = (if fst kv = ''action'' then AList.update (fst kv) (snd kv) else put_nonempty (fst kv) (snd kv))"

lemma encodeRule_fold: "encodeRule r = fold put_field (rule_fields r) []"
  by (simp add: encodeRule_def rule_fields_def put_field_def)

lemma map_of_put_fields:
  "distinct (map fst fs) \<Longrightarrow> map_of (fold put_field fs m) k =
     (case map_of fs k of
        None \<Rightarrow> map_of m k
      | Some v \<Rightarrow> if v = [] \<and> k \<noteq> ''action'' then map_of m k else Some v)"
proof (induction fs arbitrary: m)
  case (Cons kv fs)
  have "map_of (put_field kv m) k =
      (if k = fst kv \<and> (snd kv \<noteq> [] \<or> k = ''action'') then Some (snd kv) else map_of m k)"
    by (auto simp: put_field_def map_of_put_nonempty update_conv')
  moreover have "fst kv = k \<Longrightarrow> map_of fs k = None"
    using Cons.prems by (auto simp: map_of_eq_None_iff)
  ultimately show ?case
    using Cons by (cases kv) (auto split: option.splits)
qed simp

lemma map_of_encodeRule:
  "map_of (encodeRule r) k =
     (case map_of (rule_fields r) k of
        None \<Rightarrow> None
      | Some v \<Rightarrow> if v = [] \<and> k \<noteq> ''action'' then None else Some v)"
proof -
  have "distinct (map fst (rule_fields r))" by (simp add: rule_fields_def)
  from map_of_put_fields [OF this, of "[]" k] show ?thesis
    by (auto simp: encodeRule_fold split: option.splits)
qed

lemma encodeRule_keys: "k \<in> fst ` set (encodeRule r) \<Longrightarrow> k \<in> set firewallAllowedFields"
proof -
  assume "k \<in> fst ` set (encodeRule r)"
  then have "map_of (encodeRule r) k \<noteq> None" by (simp add: map_of_eq_None_iff)
  then have "map_of (rule_fields r) k \<noteq> None" by (auto simp: map_of_encodeRule split: option.splits)
  then show ?thesis by (auto simp: rule_fields_def firewallAllowedFields_def split: if_splits)
qed

section \<open>Looking up a bracketed key\<close>

lemma values_of_append [simp]: "values_of (a @ b) k = values_of a k @ values_of b k"
  by (simp add: values_of_def)

lemma values_of_Nil_iff: "values_of ps k = [] \<longleftrightarrow> k \<notin> fst ` set ps"
  by (auto simp: values_of_def filter_empty_conv)

lemma values_of_keys:
  "distinct ks \<Longrightarrow> inj_on f (insert k (set ks)) \<Longrightarrow>
   values_of (map (\<lambda>k. (f k, g k)) ks) (f k) = (if k \<in> set ks then [g k] else [])"
proof (induction ks)
  case (Cons a ks)
  have "f a = f k \<longleftrightarrow> a = k" using inj_on_eq_iff [OF Cons.prems(2)] by simp
  moreover have "values_of (map (\<lambda>k. (f k, g k)) ks) (f k) = (if k \<in> set ks then [g k] else [])"
    using Cons.prems(1) by (intro Cons.IH inj_on_subset [OF Cons.prems(2)]) auto
  ultimately show ?case using Cons.prems(1) by (auto simp: values_of_def)
qed (simp add: values_of_def)

lemma set_sortedKeys [simp]: "set (sortedKeys m) = fst ` set m"
  by (simp add: sortedKeys_def)

lemma keys_rule_pairs: "fst ` set (rule_pairs d (i, m)) = hierKey d i ` fst ` set m"
  by (simp add: rule_pairs_def image_image)

lemma allowed_no_bracket: "k \<in> set firewallAllowedFields \<Longrightarrow> CHR '']'' \<notin> set k \<and> CHR ''['' \<notin> set k"
  using allowed_field_chars lower_not_bracket by blast

lemma allowed_plain: "k \<in> set firewallAllowedFields \<Longrightarrow> plain_key k"
  by (auto simp: firewallAllowedFields_def plain_key_def)

lemma values_of_rule:
  assumes "k \<in> set firewallAllowedFields" and "CHR '']'' \<notin> set d"
  shows "values_of (rule_pairs d (i, encodeRule r)) (hierKey d j k) =
    (if i = j then (case map_of (encodeRule r) k of None \<Rightarrow> [] | Some v \<Rightarrow> [v]) else [])"
proof (cases "i = j")
  case True
  have nobr: "x \<in> insert k (fst ` set (encodeRule r)) \<Longrightarrow> CHR '']'' \<notin> set x" for x
    using assms(1) encodeRule_keys allowed_no_bracket by blast
  have "inj_on (hierKey d i) (insert k (set (sortedKeys (encodeRule r))))"
    unfolding set_sortedKeys using hierKey_eq [OF assms(2) assms(2) nobr nobr] by (intro inj_onI) auto
  then have "values_of (rule_pairs d (i, encodeRule r)) (hierKey d i k) =
      (if k \<in> set (sortedKeys (encodeRule r)) then [go_index (encodeRule r) k] else [])"
    unfolding rule_pairs_def fst_conv snd_conv
    using distinct_encodeRule by (intro values_of_keys) (simp_all add: sortedKeys_def)
  then show ?thesis
    using True map_of_SomeD [of "encodeRule r" k]
    by (force simp: go_index_def map_of_eq_None_iff split: option.splits)
next
  case False
  have "hierKey d j k \<notin> fst ` set (rule_pairs d (i, encodeRule r))"
  proof
    assume "hierKey d j k \<in> fst ` set (rule_pairs d (i, encodeRule r))"
    then obtain x where x: "x \<in> fst ` set (encodeRule r)" "hierKey d j k = hierKey d i x"
      unfolding keys_rule_pairs by blast
    with hierKey_eq [OF assms(2) assms(2), of k x j i] assms(1) encodeRule_keys allowed_no_bracket False
    show False by blast
  qed
  with False show ?thesis by (simp add: values_of_Nil_iff)
qed

section \<open>Looking up a key in the whole body\<close>

definition dir_body :: "string \<Rightarrow> nat \<Rightarrow> FirewallRule list \<Rightarrow> form" where
  "dir_body d n rs = concat (map (rule_pairs d) (enumerate n (map encodeRule rs)))"

lemma dir_body_simps [simp]:
  "dir_body d n [] = []"
  "dir_body d n (r # rs) = rule_pairs d (n, encodeRule r) @ dir_body d (Suc n) rs"
  by (simp_all add: dir_body_def)

lemma values_of_dir_body:
  assumes "k \<in> set firewallAllowedFields" and "CHR '']'' \<notin> set d"
  shows "values_of (dir_body d n rs) (hierKey d j k) =
    (if n \<le> j \<and> j < n + length rs
     then case map_of (encodeRule (rs ! (j - n))) k of None \<Rightarrow> [] | Some v \<Rightarrow> [v] else [])"
proof (induction rs arbitrary: n)
  case (Cons r rs)
  have "n < j \<Longrightarrow> (r # rs) ! (j - n) = rs ! (j - Suc n)" by (simp add: nth_Cons')
  then show ?case
    using Cons.IH [of "Suc n"] values_of_rule [OF assms, of n r j] by (cases "j = n") auto
qed (auto simp: values_of_def)

lemma keys_dir_body:
  "x \<in> fst ` set (dir_body d n rs) \<Longrightarrow> \<exists>i k. x = hierKey d i k \<and> k \<in> set firewallAllowedFields"
proof (induction rs arbitrary: n)
  case (Cons r rs)
  then have "x \<in> hierKey d n ` fst ` set (encodeRule r) \<or> x \<in> fst ` set (dir_body d (Suc n) rs)"
    by (simp add: image_Un keys_rule_pairs)
  then show ?case
    using Cons.IH [of "Suc n"] encodeRule_keys by blast
qed simp

definition scalar_form :: "form \<Rightarrow> bool" where
  "scalar_form m \<longleftrightarrow> list_all (\<lambda>(k, v). plain_key k \<and> CHR ''['' \<notin> set k) m"

lemma scalar_key: "scalar_form m \<Longrightarrow> k \<in> fst ` set m \<Longrightarrow> plain_key k \<and> CHR ''['' \<notin> set k"
  by (auto simp: scalar_form_def list_all_iff)

abbreviation rules_body :: "FirewallRules \<Rightarrow> form \<Rightarrow> form" where
  "rules_body rules extra \<equiv>
     map (\<lambda>key. (key, go_index extra key)) (sortedKeys extra)
     @ dir_body ''input'' 0 (Input rules) @ dir_body ''output'' 0 (Output rules)"

lemma encodeRules_body:
  "encodeRules rules extra = Join (map (form_pair QueryEscape) (rules_body rules extra)) ''&''"
  by (simp only: encodeRules_pairs body_pairs_encoder dir_body_def)

lemma plain_directions: "plain_key ''input''" "plain_key ''output''"
  by (simp_all add: plain_key_def)

lemma rules_body_plain:
  assumes "scalar_form extra"
  shows "\<forall>(k, v) \<in> set (rules_body rules extra). plain_key k"
proof -
  have keys: "plain_key x" if "x \<in> fst ` set (rules_body rules extra)" for x
  proof -
    from that have "x \<in> fst ` set extra \<or> x \<in> fst ` set (dir_body ''input'' 0 (Input rules))
        \<or> x \<in> fst ` set (dir_body ''output'' 0 (Output rules))"
      by (simp add: image_Un image_image)
    then have "x \<in> fst ` set extra
        \<or> (\<exists>d i k. x = hierKey d i k \<and> plain_key d \<and> k \<in> set firewallAllowedFields)"
      using keys_dir_body [of x] plain_directions by blast
    then show ?thesis
      using scalar_key [OF assms] plain_hierKey allowed_plain by blast
  qed
  show ?thesis
  proof
    fix p assume "p \<in> set (rules_body rules extra)"
    then have "plain_key (fst p)" by (intro keys imageI)
    then show "case p of (k, v) \<Rightarrow> plain_key k" by (simp only: split_beta)
  qed
qed

lemma hierKey_not_scalar: "scalar_form extra \<Longrightarrow> hierKey d j k \<notin> fst ` set extra"
  using scalar_key [of extra "hierKey d j k"] by (auto simp: hierKey_def)

lemma values_of_other_direction:
  assumes "d \<noteq> d'" and "CHR '']'' \<notin> set d" and "CHR '']'' \<notin> set d'" and "k \<in> set firewallAllowedFields"
  shows "values_of (dir_body d n rs) (hierKey d' j k) = []"
proof -
  have "hierKey d' j k \<notin> fst ` set (dir_body d n rs)"
  proof
    assume "hierKey d' j k \<in> fst ` set (dir_body d n rs)"
    from keys_dir_body [OF this] obtain i x where
      "hierKey d' j k = hierKey d i x" "x \<in> set firewallAllowedFields" by blast
    with hierKey_eq [OF assms(3,2), of k x j i] allowed_no_bracket assms(1,4) show False by blast
  qed
  then show ?thesis by (simp add: values_of_Nil_iff)
qed

text \<open>What a parsed body holds under the key of a field.\<close>

definition field_of :: "FirewallRule list \<Rightarrow> nat \<Rightarrow> string \<Rightarrow> string list option" where
  "field_of rs j k = (if j < length rs then map_option (\<lambda>v. [v]) (map_of (encodeRule (rs ! j)) k) else None)"

lemma encodeRules_lookup:
  assumes "scalar_form extra" and "k \<in> set firewallAllowedFields"
  shows "map_of (snd (ParseQuery (encodeRules rules extra))) (hierKey ''input'' j k) = field_of (Input rules) j k"
    and "map_of (snd (ParseQuery (encodeRules rules extra))) (hierKey ''output'' j k) = field_of (Output rules) j k"
proof -
  have scalar: "values_of (map (\<lambda>key. (key, go_index extra key)) (sortedKeys extra)) (hierKey d j k) = []" for d
    using hierKey_not_scalar [OF assms(1)] by (simp add: values_of_Nil_iff image_image)
  note look = ParseQuery_pairs(2) [OF rules_body_plain [OF assms(1)], folded encodeRules_body]
  show "map_of (snd (ParseQuery (encodeRules rules extra))) (hierKey ''input'' j k) = field_of (Input rules) j k"
    unfolding look values_of_append scalar using assms(2)
    by (auto simp: values_of_dir_body values_of_other_direction field_of_def split: option.splits)
  show "map_of (snd (ParseQuery (encodeRules rules extra))) (hierKey ''output'' j k) = field_of (Output rules) j k"
    unfolding look values_of_append scalar using assms(2)
    by (auto simp: values_of_dir_body values_of_other_direction field_of_def split: option.splits)
qed

section \<open>A reader\<close>

definition read_field :: "Values \<Rightarrow> string \<Rightarrow> nat \<Rightarrow> string \<Rightarrow> string" where
  "read_field m d i k = (case map_of m (hierKey d i k) of Some (v # vs) \<Rightarrow> v | _ \<Rightarrow> [])"

definition read_rule :: "Values \<Rightarrow> string \<Rightarrow> nat \<Rightarrow> FirewallRule" where
  "read_rule m d i =
     (let f = read_field m d i
      in \<lparr>Name = f ''name'', IPVersion = f ''ip_version'', Action = f ''action'', Protocol = f ''protocol'',
          SourceIP = f ''src_ip'', DestIP = f ''dst_ip'', SourcePort = f ''src_port'',
          DestPort = f ''dst_port'', TCPFlags = f ''tcp_flags''\<rparr>)"

text \<open>Rules are numbered from 0 and each has an action; a body has at least as many keys as rules.\<close>

fun read_rules :: "Values \<Rightarrow> string \<Rightarrow> nat \<Rightarrow> nat \<Rightarrow> FirewallRule list" where
  "read_rules m d i 0 = []"
| "read_rules m d i (Suc n) =
     (if map_of m (hierKey d i ''action'') = None then []
      else read_rule m d i # read_rules m d (Suc i) n)"

definition read_ruleset :: "Values \<Rightarrow> FirewallRules" where
  "read_ruleset m =
     \<lparr>Input = read_rules m ''input'' 0 (length m), Output = read_rules m ''output'' 0 (length m)\<rparr>"

lemma read_rule_field_of:
  assumes "\<And>k. k \<in> set firewallAllowedFields \<Longrightarrow> map_of m (hierKey d i k) = field_of rs i k"
    and "i < length rs"
  shows "read_rule m d i = rs ! i"
proof -
  have f: "read_field m d i k = v" if "(k, v) \<in> set (rule_fields (rs ! i))" for k v
  proof -
    have "k \<in> set firewallAllowedFields" using that by (auto simp: rule_fields_def firewallAllowedFields_def)
    moreover have "map_of (rule_fields (rs ! i)) k = Some v"
      using that by (intro map_of_is_SomeI) (simp_all add: rule_fields_def)
    ultimately show ?thesis
      using assms by (simp add: read_field_def field_of_def map_of_encodeRule)
  qed
  show ?thesis
    unfolding read_rule_def Let_def
    by (rule FirewallRule.equality) (simp_all add: f rule_fields_def)
qed

lemma read_rules_field_of:
  assumes "\<And>j k. k \<in> set firewallAllowedFields \<Longrightarrow> map_of m (hierKey d j k) = field_of rs j k"
    and "length rs \<le> i + n"
  shows "read_rules m d i n = drop i rs"
  using assms(2)
proof (induction n arbitrary: i)
  case (Suc n)
  have act: "''action'' \<in> set firewallAllowedFields" by (simp add: firewallAllowedFields_def)
  have "map_of m (hierKey d i ''action'') = None \<longleftrightarrow> \<not> i < length rs"
    using assms(1) [OF act, of i] by (simp add: field_of_def map_of_encodeRule rule_fields_def)
  then show ?case
    using Suc read_rule_field_of [OF assms(1), of i]
    by (auto simp: Cons_nth_drop_Suc)
qed simp

lemma enough_keys:
  assumes "\<And>j. j < n \<Longrightarrow> map_of m (f j) \<noteq> None" and "inj f"
  shows "n \<le> length m"
proof -
  have "f ` {..<n} \<subseteq> fst ` set m" using assms(1) by (auto simp: map_of_eq_None_iff)
  then have "card (f ` {..<n}) \<le> card (fst ` set m)" by (intro card_mono) auto
  also have "\<dots> \<le> length m" using card_length [of "map fst m"] by simp
  finally show ?thesis using assms(2) by (simp add: card_image inj_on_subset)
qed

lemma read_direction:
  assumes "\<And>j k. k \<in> set firewallAllowedFields \<Longrightarrow> map_of m (hierKey d j k) = field_of rs j k"
    and "CHR '']'' \<notin> set d"
  shows "read_rules m d 0 (length m) = rs"
proof -
  have act: "''action'' \<in> set firewallAllowedFields" by (simp add: firewallAllowedFields_def)
  have "length rs \<le> length m"
  proof (rule enough_keys)
    show "map_of m (hierKey d j ''action'') \<noteq> None" if "j < length rs" for j
      using assms(1) [OF act, of j] that by (simp add: field_of_def map_of_encodeRule rule_fields_def)
    show "inj (\<lambda>j. hierKey d j ''action'')"
      using hierKey_eq [OF assms(2) assms(2)] by (intro injI) auto
  qed
  with read_rules_field_of [OF assms(1), where i = 0] show ?thesis by simp
qed

lemma encodeRules_reads_back:
  assumes "scalar_form extra"
  shows "fst (ParseQuery (encodeRules rules extra)) = None
    \<and> read_ruleset (snd (ParseQuery (encodeRules rules extra))) = rules"
proof -
  have "read_rules (snd (ParseQuery (encodeRules rules extra))) ''input'' 0
      (length (snd (ParseQuery (encodeRules rules extra)))) = Input rules"
    by (intro read_direction encodeRules_lookup(1) assms) simp_all
  moreover have "read_rules (snd (ParseQuery (encodeRules rules extra))) ''output'' 0
      (length (snd (ParseQuery (encodeRules rules extra)))) = Output rules"
    by (intro read_direction encodeRules_lookup(2) assms) simp_all
  ultimately show ?thesis
    using ParseQuery_pairs(1) [OF rules_body_plain [OF assms], folded encodeRules_body]
    by (simp add: read_ruleset_def)
qed

text \<open>The extra fields arrive beside the rules.\<close>

lemma encodeRules_extra:
  assumes "scalar_form extra" and "distinct (map fst extra)" and "map_of extra k = Some v"
  shows "map_of (snd (ParseQuery (encodeRules rules extra))) k = Some [v]"
proof -
  have k: "k \<in> fst ` set extra" using assms(3) by (force dest: map_of_SomeD)
  with scalar_key [OF assms(1)] have nobr: "CHR ''['' \<notin> set k" by blast
  have "CHR ''['' \<in> set (hierKey d i x)" for d i x by (simp add: hierKey_def)
  with nobr have "k \<notin> fst ` set (dir_body d n rs)" for d n rs
    using keys_dir_body [of k d n rs] by metis
  then have "values_of (dir_body d n rs) k = []" for d n rs by (simp add: values_of_Nil_iff)
  moreover have "values_of (map (\<lambda>key. (key, go_index extra key)) (sortedKeys extra)) k = [v]"
    using values_of_keys [of "sortedKeys extra" "\<lambda>x. x" k "go_index extra"] assms(2,3) k
    by (simp add: sortedKeys_def go_index_def)
  ultimately show ?thesis
    using ParseQuery_pairs(2) [OF rules_body_plain [OF assms(1)], folded encodeRules_body] by simp
qed

end
