(* ===== verification/FirewallProps.thy ===== *)
theory FirewallProps
  imports FirewallForms
begin

text \<open>
  The properties of firewall rules: what Equivalent means for traffic, what ServerInjectedRules
  reports and Without removes, that the reconciliation recipe in the comment of Without detects
  drift exactly, and that the posted form body carries the rules unchanged.
\<close>

section \<open>Equivalence and traffic\<close>

text \<open>
  The traffic a ruleset lets through: the first rule that applies to the packet's IP version and
  matches the packet decides. Which packets a rule matches is a parameter, a function of its
  other fields.
\<close>

fun verdict :: "(FirewallRule \<Rightarrow> 'packet \<Rightarrow> bool) \<Rightarrow> IPVersion \<Rightarrow> FirewallRule list \<Rightarrow> 'packet \<Rightarrow> string option" where
  "verdict matches v [] p = None"
| "verdict matches v (r # rules) p =
     (if appliesTo r v \<and> matches (r\<lparr>IPVersion := []\<rparr>) p then Some (Action r)
      else verdict matches v rules p)"

lemma verdict_projection:
  "verdict matches v rules p = verdict matches [] (projectRules rules v) p"
proof (induction rules)
  case (Cons r rules)
  have "appliesTo (r\<lparr>IPVersion := []\<rparr>) []" by (simp add: appliesTo_def)
  with Cons show ?case by simp
qed simp

definition expand_versions :: "FirewallRule list \<Rightarrow> FirewallRule list" where
  "expand_versions rules =
     concat (map (\<lambda>r. if IPVersion r = [] then [r\<lparr>IPVersion := IPv4\<rparr>, r\<lparr>IPVersion := IPv6\<rparr>] else [r]) rules)"

lemma projectRules_expand: "v \<in> {IPv4, IPv6} \<Longrightarrow> projectRules (expand_versions rules) v = projectRules rules v"
proof (induction rules)
  case (Cons r rules)
  have "IPv4 \<noteq> IPv6" "IPv4 \<noteq> []" "IPv6 \<noteq> []" by (simp_all add: IPv4_def IPv6_def)
  moreover have "r\<lparr>IPVersion := []\<rparr> = r" if "IPVersion r = []" using that by simp
  ultimately show ?case
    using Cons by (auto simp: expand_versions_def appliesTo_def)
qed (simp add: expand_versions_def)

lemma Equivalent_normalisation:
  "equivp Equivalent \<and> Equivalent \<lparr>Input = expand_versions i, Output = expand_versions out\<rparr> \<lparr>Input = i, Output = out\<rparr>"
proof
  show "equivp Equivalent"
    by (rule equivpI) (auto simp: reflp_def symp_def transp_def Equivalent_def rulesEquivalent_iff)
  show "Equivalent \<lparr>Input = expand_versions i, Output = expand_versions out\<rparr> \<lparr>Input = i, Output = out\<rparr>"
    by (simp add: Equivalent_def rulesEquivalent_iff projectRules_expand)
qed

text \<open>
  C7: rulesets that Equivalent accepts filter identically: every packet of either IP version meets
  the same fate under both, inbound and outbound, whatever the rules' match condition is. Equivalent is
  an equivalence relation, and it does not see the normalisation of the API: a ruleset in which every
  rule without an IP version is replaced by its ipv4 and its ipv6 copy is equivalent to the original.
\<close>

theorem Equivalent_same_traffic:
  assumes "Equivalent a b" and "v \<in> {IPv4, IPv6}"
  shows "verdict matches v (Input a) p = verdict matches v (Input b) p
    \<and> verdict matches v (Output a) p = verdict matches v (Output b) p
    \<and> equivp Equivalent
    \<and> Equivalent \<lparr>Input = expand_versions i, Output = expand_versions out\<rparr> \<lparr>Input = i, Output = out\<rparr>"
proof -
  have "projectRules (Input a) v = projectRules (Input b) v"
    and "projectRules (Output a) v = projectRules (Output b) v"
    using assms equivalent_projections by (simp_all add: Equivalent_def)
  then have "verdict matches v (Input a) p = verdict matches v (Input b) p
      \<and> verdict matches v (Output a) p = verdict matches v (Output b) p"
    using verdict_projection [of matches v] by metis
  then show ?thesis using Equivalent_normalisation by blast
qed

definition lab_rule :: "string \<Rightarrow> string \<Rightarrow> string \<Rightarrow> FirewallRule" where
  "lab_rule name version action =
     \<lparr>Name = name, IPVersion = version, Action = action, Protocol = ''tcp'', SourceIP = [],
      DestIP = [], SourcePort = [], DestPort = ''22'', TCPFlags = []\<rparr>"

theorem Equivalent_same_traffic_witness:
  "verdict (\<lambda>r p. DestPort r = p) IPv6 [lab_rule ''ssh'' [] ''accept''] ''22''
   = verdict (\<lambda>r p. DestPort r = p) IPv6
       [lab_rule ''ssh'' ''ipv6'' ''accept'', lab_rule ''ssh'' ''ipv4'' ''accept''] ''22''"
proof -
  have "Equivalent \<lparr>Input = [lab_rule ''ssh'' [] ''accept''], Output = []\<rparr>
      \<lparr>Input = [lab_rule ''ssh'' ''ipv6'' ''accept'', lab_rule ''ssh'' ''ipv4'' ''accept''], Output = []\<rparr>"
    by code_simp
  from Equivalent_same_traffic [OF this, of IPv6 "\<lambda>r p. DestPort r = p" "''22''"]
  show ?thesis by (simp del: verdict.simps)
qed

section \<open>Injected rules\<close>

text \<open>
  C18: Without removes rules as a bag does: the rules that remain are those of the ruleset minus those
  to be removed, multiplicities included, in their original order.
\<close>

theorem Without_is_bag_difference:
  "mset (Input (Without r remove)) = mset (Input r) - mset (Input remove)
   \<and> mset (Output (Without r remove)) = mset (Output r) - mset (Output remove)
   \<and> subseq (Input (Without r remove)) (Input r) \<and> subseq (Output (Without r remove)) (Output r)"
proof -
  have "mset (removeRules rules rem) = mset rules - mset rem" for rules rem
    by (rule multiset_eqI) (simp add: removeRules_leftover count_leftover flip: count_list_mset)
  then show ?thesis by (simp add: Without_def removeRules_leftover subseq_leftover)
qed

text \<open>
  C13: what ServerInjectedRules reports of a direction. A returned rule is reported exactly when it
  applies to some IP version and, in each version it applies to, the returned rules before it already use up all
  the posted rules that are equal to it in that version. The report keeps the order of the
  returned rules and never holds a rule twice that was returned once.
\<close>

theorem injectedRules_exact:
  "injectedRules posted returned =
     map snd (filter (\<lambda>(i, r). list_ex (appliesTo r) [IPv4, IPv6]
       \<and> list_all (\<lambda>v. appliesTo r v \<longrightarrow>
            count_list (projectRules posted v) (r\<lparr>IPVersion := []\<rparr>)
              \<le> count_list (projectRules (take i returned) v) (r\<lparr>IPVersion := []\<rparr>)) [IPv4, IPv6])
       (enumerate 0 returned))
   \<and> subseq (injectedRules posted returned) returned"
proof
  show "injectedRules posted returned =
     map snd (filter (\<lambda>(i, r). list_ex (appliesTo r) [IPv4, IPv6]
       \<and> list_all (\<lambda>v. appliesTo r v \<longrightarrow>
            count_list (projectRules posted v) (r\<lparr>IPVersion := []\<rparr>)
              \<le> count_list (projectRules (take i returned) v) (r\<lparr>IPVersion := []\<rparr>)) [IPv4, IPv6])
       (enumerate 0 returned))"
    unfolding injectedRules_reported
    by (intro arg_cong [where f = "map snd"] filter_cong)
      (auto simp: in_set_enumerate_eq reported_def unmatched_def)
  show "subseq (injectedRules posted returned) returned"
    using subseq_map_filter [of snd _ "enumerate 0 returned"] unfolding injectedRules_reported by simp
qed

theorem injectedRules_exact_witness:
  "let ssh = lab_rule ''ssh'' [] ''accept''; mail = lab_rule ''Block mail'' ''ipv4'' ''discard''
   in injectedRules [ssh] [mail, ssh\<lparr>IPVersion := IPv6\<rparr>, ssh\<lparr>IPVersion := IPv4\<rparr>, ssh] = [mail, ssh]
      \<and> subseq (injectedRules [ssh] [mail, ssh\<lparr>IPVersion := IPv6\<rparr>, ssh\<lparr>IPVersion := IPv4\<rparr>, ssh])
           [mail, ssh\<lparr>IPVersion := IPv6\<rparr>, ssh\<lparr>IPVersion := IPv4\<rparr>, ssh]"
proof -
  let ?ssh = "lab_rule ''ssh'' [] ''accept''" and ?mail = "lab_rule ''Block mail'' ''ipv4'' ''discard''"
  have "injectedRules [?ssh] [?mail, ?ssh\<lparr>IPVersion := IPv6\<rparr>, ?ssh\<lparr>IPVersion := IPv4\<rparr>, ?ssh] = [?mail, ?ssh]"
    unfolding injectedRules_exact [THEN conjunct1] by code_simp
  with injectedRules_exact [THEN conjunct2] show ?thesis unfolding Let_def by blast
qed

definition mixed_with :: "FirewallRules \<Rightarrow> FirewallRules \<Rightarrow> FirewallRules \<Rightarrow> bool" where
  "mixed_with r own extra \<longleftrightarrow>
     Input r \<in> shuffles (Input extra) (Input own) \<and> Output r \<in> shuffles (Output extra) (Output own)"

text \<open>
  C6: the reconciliation recipe is exact. Let the API keep an equivalent form of the desired ruleset
  and mix in rules of its own that the desired ruleset does not hold; let a later read return the
  same rules of the API mixed with some other ruleset that holds none of them. Then stripping the
  rules that ServerInjectedRules found in the first response from the later one and comparing
  with Equivalent says exactly whether that other ruleset is equivalent to the desired one: the
  loop converges when nothing drifted, and drift is always noticed.
\<close>

theorem reconcile_exact:
  assumes "foreign (Input extra) (Input desired)" and "foreign (Output extra) (Output desired)"
    and "Equivalent normal desired" and "mixed_with applied normal extra"
    and "mixed_with current own extra'"
    and "mset (Input extra') = mset (Input extra)" and "mset (Output extra') = mset (Output extra)"
    and "set (Input extra) \<inter> set (Input own) = {}" and "set (Output extra) \<inter> set (Output own) = {}"
  shows "Equivalent (Without current (ServerInjectedRules desired applied)) desired \<longleftrightarrow> Equivalent own desired"
proof -
  have "injectedRules (Input desired) (Input applied) = Input extra"
    and "injectedRules (Output desired) (Output applied) = Output extra"
    using assms(3,4) injectedRules_foreign [OF assms(1)] injectedRules_foreign [OF assms(2)]
    by (auto simp: Equivalent_def mixed_with_def)
  moreover have "removeRules (Input current) (Input extra) = Input own"
    and "removeRules (Output current) (Output extra) = Output own"
    using assms(5) removeRules_foreign [OF assms(6,8)] removeRules_foreign [OF assms(7,9)]
    by (auto simp: mixed_with_def)
  ultimately show ?thesis by (simp add: Without_def ServerInjectedRules_def Equivalent_def)
qed

theorem reconcile_exact_witness:
  "let ssh = lab_rule ''ssh'' [] ''accept''; mail = lab_rule ''Block mail'' ''ipv4'' ''discard'';
       desired = \<lparr>Input = [ssh], Output = []\<rparr>;
       applied = \<lparr>Input = mail # expand_versions [ssh], Output = []\<rparr>;
       drifted = \<lparr>Input = [mail, lab_rule ''ssh'' ''ipv4'' ''accept''], Output = []\<rparr>
   in Equivalent (Without applied (ServerInjectedRules desired applied)) desired
      \<and> \<not> Equivalent (Without drifted (ServerInjectedRules desired applied)) desired"
proof -
  let ?ssh = "lab_rule ''ssh'' [] ''accept''" and ?mail = "lab_rule ''Block mail'' ''ipv4'' ''discard''"
  let ?desired = "\<lparr>Input = [?ssh], Output = []\<rparr>" and ?extra = "\<lparr>Input = [?mail], Output = []\<rparr>"
  let ?normal = "\<lparr>Input = expand_versions [?ssh], Output = []\<rparr>"
  let ?applied = "\<lparr>Input = ?mail # expand_versions [?ssh], Output = []\<rparr>"
  let ?own = "\<lparr>Input = [lab_rule ''ssh'' ''ipv4'' ''accept''], Output = []\<rparr>"
  let ?drifted = "\<lparr>Input = [?mail, lab_rule ''ssh'' ''ipv4'' ''accept''], Output = []\<rparr>"
  have fo: "foreign (Input ?extra) (Input ?desired)" "foreign (Output ?extra) (Output ?desired)"
    and eq: "Equivalent ?normal ?desired" "\<not> Equivalent ?own ?desired"
    by code_simp+
  have mix: "mixed_with ?applied ?normal ?extra" "mixed_with ?drifted ?own ?extra"
    by (simp_all add: mixed_with_def Cons_in_shuffles_iff)
  have "?mail \<noteq> lab_rule ''ssh'' v ''accept''" for v
    by (simp add: lab_rule_def)
  then have disj: "set (Input ?extra) \<inter> set (Input ?own) = {}" "set (Input ?extra) \<inter> set (Input ?normal) = {}"
    by (auto simp: expand_versions_def lab_rule_def)
  show ?thesis
    unfolding Let_def
    using reconcile_exact [OF fo eq(1) mix(1) mix(1)] reconcile_exact [OF fo eq(1) mix(1) mix(2)] disj eq
    by simp
qed

section \<open>Form bodies\<close>

text \<open>
  C14: the body of an update carries the ruleset unchanged. Parsed as a form and read back by the names
  of its keys, it yields the very rules that were encoded, in their order and with every field,
  whatever characters the fields hold; nothing is an error and nothing is lost.
\<close>

theorem encodeRules_roundtrip:
  assumes "scalar_form extra"
  shows "fst (ParseQuery (encodeRules rules extra)) = None
    \<and> read_ruleset (snd (ParseQuery (encodeRules rules extra))) = rules"
  using assms by (rule encodeRules_reads_back)

theorem encodeRules_roundtrip_witness:
  "let rules = \<lparr>Input = [lab_rule ''a&b=c [x]'' [] ''accept''], Output = [lab_rule [] ''ipv6'' []]\<rparr>
   in read_ruleset (snd (ParseQuery (encodeRules rules [(''status'', ''active'')]))) = rules"
proof -
  have "scalar_form [(''status'', ''active'')]" by code_simp
  from encodeRules_roundtrip [OF this] show ?thesis by (simp add: Let_def)
qed

text \<open>
  The check that the test fixtures apply to firewall bodies accepts every body the client can
  produce, so it raises no false alarm, whatever the rules are.
\<close>

lemma firewall_body_checked:
  assumes "scalar_form extra"
  shows "validateFirewallForm (encodeRules rules extra) = []"
proof -
  let ?m = "snd (ParseQuery (encodeRules rules extra))"
  have "firewallRuleKeyOrScalar k" if "k \<in> fst ` set ?m" for k
  proof -
    from that have "map_of ?m k \<noteq> None" by (simp add: map_of_eq_None_iff)
    then have "k \<in> fst ` set (rules_body rules extra)"
      using ParseQuery_pairs(2) [OF rules_body_plain [OF assms], of rules k, folded encodeRules_body]
      unfolding values_of_Nil_iff by meson
    then have "k \<in> fst ` set extra \<or> k \<in> fst ` set (dir_body ''input'' 0 (Input rules))
        \<or> k \<in> fst ` set (dir_body ''output'' 0 (Output rules))"
      by (simp add: image_Un image_image)
    then show ?thesis
    proof (elim disjE)
      assume "k \<in> fst ` set extra"
      with scalar_key [OF assms this] show ?thesis
        by (simp add: firewallRuleKeyOrScalar_def ContainsRune_def)
    qed (auto dest!: keys_dir_body intro: hierKey_accepted)
  qed
  then have "check_keys firewallRuleKeyOrScalar ?m = []"
    by (auto simp: check_keys_def filter_empty_conv)
  then show ?thesis
    using ParseQuery_pairs(1) [OF rules_body_plain [OF assms], of rules, folded encodeRules_body]
    by (simp add: validateFirewallForm_def split_beta)
qed

end
