(* ===== verification/Polling.thy ===== *)
theory Polling
  imports ClientProps
begin

text \<open>
  utils.go: encodeForm, and waitForCondition, which polls a condition with delays that double up to
  a maximum. The condition is an operation on the client; the loop runs at most maxPolls times.
\<close>

section \<open>encodeForm\<close>

definition encodeForm :: "(string \<times> string) list \<Rightarrow> Values" where
  "encodeForm data = fold (\<lambda>(k, v) values. Values_Set values k v) data []"

lemma encodeForm_lookup:
  "distinct (map fst data) \<Longrightarrow> map_of (encodeForm data) k = map_option (\<lambda>v. [v]) (map_of data k)"
proof -
  have "distinct (map fst data) \<Longrightarrow> map_of (fold (\<lambda>(k, v) values. Values_Set values k v) data m) k
      = (case map_of data k of Some v \<Rightarrow> Some [v] | None \<Rightarrow> map_of m k)" for m
  proof (induction data arbitrary: m)
    case (Cons kv data)
    have "k = fst kv \<Longrightarrow> map_of data k = None"
      using Cons.prems by (simp add: map_of_eq_None_iff)
    with Cons show ?case
      by (cases kv) (auto simp: Values_Set_def update_conv' split: option.splits)
  qed simp
  then show "distinct (map fst data) \<Longrightarrow> map_of (encodeForm data) k = map_option (\<lambda>v. [v]) (map_of data k)"
    by (simp add: encodeForm_def split: option.splits)
qed

section \<open>waitForCondition\<close>

type_synonym condition = "client \<Rightarrow> world \<Rightarrow> bool result \<times> client \<times> world"

definition minDelay :: int where "minDelay = 2 * Second"
definition maxDelay :: int where "maxDelay = 30 * Second"
definition maxPolls :: nat where "maxPolls = 30"

definition next_delay :: "int \<Rightarrow> int" where
  "next_delay delay = (if delay * 2 > maxDelay then maxDelay else delay * 2)"

definition waiting_cancelled :: "world \<Rightarrow> error" where
  "waiting_cancelled w = Wrapped ''waiting cancelled: '' (ctx_err w)"

text \<open>The first argument counts the iterations that are left.\<close>

fun wait_loop :: "nat \<Rightarrow> int \<Rightarrow> condition \<Rightarrow> client \<Rightarrow> world \<Rightarrow> unit result \<times> client \<times> world" where
  "wait_loop 0 delay cond c w =
     (Err (ErrorString (''timeout waiting for condition after '' @ dec_of_nat maxPolls @ '' retries'')), c, w)"
| "wait_loop (Suc n) delay cond c w =
     (if ctx_done w then (Err (waiting_cancelled w), c, w)
      else
        (case cond c w of
           (Err err, c1, w1) \<Rightarrow> (Err (Wrapped ''error checking condition: '' err), c1, w1)
         | (Panic p, c1, w1) \<Rightarrow> (Panic p, c1, w1)
         | (Ok ready, c1, w1) \<Rightarrow>
            (if ready then (Ok (), c1, w1)
             else
               (case wait_timer delay w1 of
                  (False, w2) \<Rightarrow> (Err (waiting_cancelled w2), c1, w2)
                | (True, w2) \<Rightarrow> wait_loop n (next_delay delay) cond c1 w2))))"

definition waitForCondition :: "condition \<Rightarrow> client \<Rightarrow> world \<Rightarrow> unit result \<times> client \<times> world" where
  "waitForCondition cond c w = wait_loop maxPolls minDelay cond c w"

section \<open>What polling guarantees\<close>

text \<open>
  How a run of polls can end: with a check that found the condition true, with one that failed, with a
  context that is done, or when the polls are used up.
\<close>

definition wait_timeout :: error where
  "wait_timeout = ErrorString (''timeout waiting for condition after '' @ dec_of_nat maxPolls @ '' retries'')"

definition check_failed :: "error \<Rightarrow> error" where
  "check_failed err = Wrapped ''error checking condition: '' err"

lemma wait_timer_lost: "wait_timer d w = (False, w') \<Longrightarrow> ctx_done w' \<and> ctx_err w' = ctx_err w"
  by (auto simp: wait_timer_def ctx_done_def emit_def Let_def split: option.splits if_splits)

lemma wait_loop_ends:
  "wait_loop n delay cond c w = (r, c', w') \<Longrightarrow>
   (\<exists>c1 w1. r = Ok () \<and> cond c1 w1 = (Ok True, c', w'))
   \<or> (\<exists>c1 w1 err. r = Err (check_failed err) \<and> cond c1 w1 = (Err err, c', w'))
   \<or> (\<exists>c1 w1 p. r = Panic p \<and> cond c1 w1 = (Panic p, c', w'))
   \<or> (r = Err (waiting_cancelled w') \<and> ctx_done w')
   \<or> r = Err wait_timeout"
proof (induction n arbitrary: delay c w)
  case 0
  then show ?case by (simp add: wait_timeout_def)
next
  case (Suc n)
  show ?case
  proof (cases "ctx_done w")
    case True
    with Suc.prems show ?thesis by auto
  next
    case False
    obtain rc c1 w1 where run: "cond c w = (rc, c1, w1)" by (metis prod_cases3)
    show ?thesis
    proof (cases "rc = Ok False")
      case True
      obtain b w2 where t: "wait_timer delay w1 = (b, w2)" by force
      show ?thesis
        using Suc run True t False wait_timer_lost [of delay w1 w2] by (cases b) auto
    next
      case no: False
      then consider "rc = Ok True" | err where "rc = Err err" | p where "rc = Panic p"
        by (cases rc) auto
      then show ?thesis
        using Suc.prems run False by cases (auto simp: check_failed_def)
    qed
  qed
qed

lemma wait_loop_ok:
  assumes "wait_loop n delay cond c w = (Ok u, c', w')"
  shows "\<exists>c1 w1. cond c1 w1 = (Ok True, c', w')"
  using wait_loop_ends [OF assms] by auto

text \<open>When the first check decides, the loop does nothing more.\<close>

lemma wait_loop_first:
  assumes "0 < n" and "\<not> ctx_done w"
  shows "cond c w = (Ok True, c1, w1) \<Longrightarrow> wait_loop n delay cond c w = (Ok (), c1, w1)"
    and "cond c w = (Err err, c1, w1) \<Longrightarrow> wait_loop n delay cond c w = (Err (check_failed err), c1, w1)"
  using assms by (cases n; simp add: check_failed_def)+

lemma call_events_sleep: "call_events c n es \<Longrightarrow> call_events c n (es @ [ESleep d])"
  by (simp add: call_events_def)

lemma wait_loop_call:
  assumes cond: "api_call cond k" and "wf_client c" and "wait_loop n delay cond c w = (r, c', w')"
  shows "same_config c c' \<and> (\<exists>es. extends w w' es \<and> call_events c (n * k) es)"
  using assms(2,3)
proof (induction n arbitrary: delay c w)
  case (Suc n)
  show ?case
  proof (cases "ctx_done w")
    case False
    obtain rc c1 w1 where run: "cond c w = (rc, c1, w1)" by (metis prod_cases3)
    with api_call.contract [OF cond Suc.prems(1)] obtain es where one:
      "same_config c c1" "extends w w1 es" "call_events c k es" by blast
    show ?thesis
    proof (cases "rc = Ok False")
      case True
      obtain b w2 where t: "wait_timer delay w1 = (b, w2)" by force
      have ext: "extends w w2 (es @ [ESleep delay])"
        using extends_trans [OF one(2) extends_wait_timer [OF t]] .
      have ev: "call_events c k (es @ [ESleep delay])" using one(3) by (rule call_events_sleep)
      show ?thesis
      proof (cases b)
        case b: True
        with Suc.prems(2) False run True t have "wait_loop n (next_delay delay) cond c1 w2 = (r, c', w')" by simp
        from Suc.IH [OF same_config_wf [OF one(1) Suc.prems(1)] this] obtain es' where rest:
          "same_config c1 c'" "extends w2 w' es'" "call_events c1 (n * k) es'" by blast
        have "call_events c (Suc n * k) ((es @ [ESleep delay]) @ es')"
          using call_events_append [OF one(1) ev rest(3)] by simp
        with same_config_trans [OF one(1) rest(1)] extends_trans [OF ext rest(2)] show ?thesis
          by blast
      next
        case b: False
        with Suc.prems(2) False run True t ext ev one(1) show ?thesis
          by (auto simp: call_events_def)
      qed
    next
      case no: False
      with Suc.prems(2) False run one show ?thesis
        by (auto simp: call_events_def split: result.splits bool.splits)
    qed
  qed (use Suc.prems in \<open>auto simp: call_events_def\<close>)
qed auto

lemma api_call_wait: "api_call cond k \<Longrightarrow> api_call (waitForCondition cond) (30 * k)"
  using wait_loop_call [of cond k _ maxPolls] unfolding waitForCondition_def maxPolls_def
  by (intro api_call.intro) blast

text \<open>The delays of the loop in order, and how long they are together.\<close>

fun delays :: "nat \<Rightarrow> int \<Rightarrow> int list" where
  "delays 0 d = []"
| "delays (Suc n) d = d # delays n (next_delay d)"

text \<open>
  A condition that stays false: I holds of the states in which its checks run, and survives the pauses.
  Each check may send requests and take time; its events, of which E holds, are followed by those of its
  pause.
\<close>

definition rounds :: "event list list \<Rightarrow> int list \<Rightarrow> event list" where
  "rounds checks ds = concat (map2 (\<lambda>es d. es @ [ESleep d]) checks ds)"

lemma rounds_simps [simp]: "rounds [] [] = []" "rounds (es # ess) (d # ds) = es @ ESleep d # rounds ess ds"
  by (simp_all add: rounds_def)

lemma sent_rounds: "length checks = length ds \<Longrightarrow> sent (rounds checks ds) = concat (map sent checks)"
  by (induction checks ds rule: list_induct2) simp_all

lemma wait_loop_never:
  assumes check: "\<And>c w. I c w \<Longrightarrow> \<exists>c' w' es. cond c w = (Ok False, c', w') \<and> extends w w' es \<and> E es \<and> I c' w'"
    and stable: "\<And>c w w' es. I c w \<Longrightarrow> extends w w' es \<Longrightarrow> I c w'"
    and "I c w" and "done_at w = None"
  shows "\<exists>c' w' checks. wait_loop n d cond c w = (Err wait_timeout, c', w') \<and> I c' w'
    \<and> length checks = n \<and> list_all E checks \<and> extends w w' (rounds checks (delays n d))
    \<and> clock w + sum_list (map (\<lambda>d. max d 0) (delays n d)) \<le> clock w'"
  using assms(3,4)
proof (induction n arbitrary: d c w)
  case 0
  then show ?case
    by (intro exI [of _ c] exI [of _ w] exI [of _ "[]"]) (simp add: wait_timeout_def)
next
  case (Suc n)
  from check [OF Suc.prems(1)] obtain c1 w1 es where
    one: "cond c w = (Ok False, c1, w1)" "extends w w1 es" "I c1 w1" "E es" by blast
  let ?w2 = "(emit (ESleep d) w1)\<lparr>clock := clock w1 + max d 0\<rparr>"
  have none: "done_at w1 = None" and le: "clock w \<le> clock w1"
    using one(2) Suc.prems(2) by (simp_all add: extends_def same_env_def)
  then have t: "wait_timer d w1 = (True, ?w2)" by (simp add: wait_timer_def)
  have ext: "extends w ?w2 (es @ [ESleep d])"
    using extends_trans [OF one(2) extends_wait_timer [OF t]] .
  have "I c1 ?w2" using stable [OF one(3) extends_wait_timer [OF t]] .
  moreover have "done_at ?w2 = None" using none by (simp add: emit_def)
  ultimately obtain c' w' checks where w':
    "wait_loop n (next_delay d) cond c1 ?w2 = (Err wait_timeout, c', w')" "I c' w'"
    "length checks = n" "list_all E checks" "extends ?w2 w' (rounds checks (delays n (next_delay d)))"
    "clock ?w2 + sum_list (map (\<lambda>d. max d 0) (delays n (next_delay d))) \<le> clock w'"
    using Suc.IH by blast
  have "\<not> ctx_done w" using Suc.prems(2) by (simp add: ctx_done_def)
  then have "wait_loop (Suc n) d cond c w = (Err wait_timeout, c', w')"
    using one(1) t w'(1) by simp
  moreover have "extends w w' (rounds (es # checks) (delays (Suc n) d))"
    using extends_trans [OF ext w'(5)] by simp
  moreover have "clock w + sum_list (map (\<lambda>d. max d 0) (delays (Suc n) d)) \<le> clock w'"
    using w'(6) le by simp
  ultimately show ?case
    using w'(2-4) one(4) by (intro exI [of _ c'] exI [of _ w'] exI [of _ "es # checks"]) simp
qed

text \<open>The 30 pauses of waitForCondition in seconds.\<close>

definition poll_seconds :: "int list" where
  "poll_seconds = [2, 4, 8, 16] @ replicate 26 30"

lemma poll_delays: "delays maxPolls minDelay = map (\<lambda>s. s * Second) poll_seconds"
  and poll_total: "sum_list (map (\<lambda>d. max d 0) (delays maxPolls minDelay)) = 810 * Second"
  and wait_timeout_text: "wait_timeout = ErrorString ''timeout waiting for condition after 30 retries''"
  by code_simp+

text \<open>
  C30: polling always ends. As long as the condition is false (in all states of some set that
  its own checks and the pauses do not leave) it is checked 30 times, with pauses of 2, 4, 8 and 16
  seconds and then of 30 seconds; after at least 810 seconds the result is the timeout error. The checks
  may do anything, and whatever holds of the events of each check holds of all 30.
\<close>

theorem waitForCondition_gives_up:
  assumes "\<And>c w. I c w \<Longrightarrow> \<exists>c' w' es. cond c w = (Ok False, c', w') \<and> extends w w' es \<and> E es \<and> I c' w'"
    and "\<And>c w w' es. I c w \<Longrightarrow> extends w w' es \<Longrightarrow> I c w'"
    and "I c w" and "done_at w = None"
  shows "\<exists>c' w' checks. waitForCondition cond c w =
      (Err (ErrorString ''timeout waiting for condition after 30 retries''), c', w')
    \<and> length checks = 30 \<and> list_all E checks
    \<and> new_events w w' = rounds checks (map (\<lambda>s. s * Second) ([2, 4, 8, 16] @ replicate 26 30))
    \<and> clock w + 810 * Second \<le> clock w'"
proof -
  have "\<exists>c' w' checks. wait_loop maxPolls minDelay cond c w = (Err wait_timeout, c', w') \<and> I c' w'
      \<and> length checks = maxPolls \<and> list_all E checks \<and> extends w w' (rounds checks (delays maxPolls minDelay))
      \<and> clock w + sum_list (map (\<lambda>d. max d 0) (delays maxPolls minDelay)) \<le> clock w'"
    by (rule wait_loop_never [where I = I and E = E, OF _ _ assms(3,4)]) (erule assms(1), erule (1) assms(2))
  then obtain c' w' checks where
    "wait_loop maxPolls minDelay cond c w = (Err wait_timeout, c', w')" "length checks = maxPolls"
    "list_all E checks" "extends w w' (rounds checks (delays maxPolls minDelay))"
    "clock w + sum_list (map (\<lambda>d. max d 0) (delays maxPolls minDelay)) \<le> clock w'"
    by blast
  moreover from this(4) have "new_events w w' = rounds checks (delays maxPolls minDelay)"
    by (rule extends_new_events)
  ultimately show ?thesis
    unfolding waitForCondition_def wait_timeout_text poll_total
    unfolding poll_delays [unfolded poll_seconds_def]
    unfolding maxPolls_def
    by blast
qed

theorem waitForCondition_gives_up_witness:
  "\<exists>c' w'. waitForCondition (\<lambda>c w. (Ok False, c, emit EFail w)) lab_client (lab_world []) =
      (Err (ErrorString ''timeout waiting for condition after 30 retries''), c', w')
    \<and> 810 * Second \<le> clock w'"
proof -
  let ?cond = "\<lambda>c w. (Ok False, c, emit EFail w)"
  have w: "done_at (lab_world []) = None" "clock (lab_world []) = 0" by (simp_all add: lab_world_def)
  have "\<exists>c' w' es. ?cond c w = (Ok False, c', w') \<and> extends w w' es \<and> es = [EFail] \<and> True" for c w
    using extends_emit [of w EFail] by blast
  from waitForCondition_gives_up [of "\<lambda>c w. True" ?cond "\<lambda>es. es = [EFail]" lab_client "lab_world []", OF this TrueI TrueI w(1)] w(2)
  show ?thesis by auto
qed

text \<open>
  Waiting succeeds only at once after a check that found the condition true: nothing happens
  between that check and the return.
\<close>

theorem waitForCondition_sound:
  assumes "waitForCondition cond c w = (Ok u, c', w')"
  shows "\<exists>c1 w1. cond c1 w1 = (Ok True, c', w')"
  using assms wait_loop_ok unfolding waitForCondition_def by blast

theorem waitForCondition_sound_witness:
  "\<exists>c1 w1. (\<lambda>c w. (Ok (0 < clock w), c, w)) c1 w1
     = (Ok True, lab_client, snd (snd (waitForCondition (\<lambda>c w. (Ok (0 < clock w), c, w)) lab_client (lab_world []))))"
proof -
  have "waitForCondition (\<lambda>c w. (Ok (0 < clock w), c, w)) lab_client (lab_world []) =
      (Ok (), lab_client, snd (snd (waitForCondition (\<lambda>c w. (Ok (0 < clock w), c, w)) lab_client (lab_world []))))"
    by (simp add: waitForCondition_def maxPolls_def numeral_eq_Suc ctx_done_def lab_world_def wait_timer_def
        minDelay_def Second_def emit_def Let_def)
  from waitForCondition_sound [OF this] show ?thesis .
qed

end
