(* ===== verification/Endpoints.thy ===== *)
theory Endpoints
  imports Polling
begin

text \<open>
  The interface between a service and the client. A service operation is a call; the locale
  endpoint says that a call is one exchange with a documented resource: whatever the network
  answers, every request it sends has one method, one path below the base URL and one body, and it
  keeps the contract of api_call. The request methods of the client are interpretations, and the
  interface is closed under checks before the request and under work on the decoded answer,
  so each operation of a service is an interpretation of its own. An operation without such a check is
  a live_endpoint: it sends its request at least once when nothing stands in the way (sendable).
\<close>

type_synonym 'a call = "client \<Rightarrow> world \<Rightarrow> 'a result \<times> client \<times> world"

section \<open>The requests of one call\<close>

lemma call_requests:
  assumes "wf_client c" and "(case body of None \<Rightarrow> Inr [] | Some rd \<Rightarrow> ReadAll rd) = Inr b"
    and "finish (doRequest c w m path body) v = (r, c', w')"
  shows "\<exists>es. extends w w' es \<and> set (sent es) \<subseteq> {build_request c m (baseURL c @ path) b}"
proof -
  obtain re c1 w1 where d: "doRequest c w m path body = (re, c1, w1)" by (metis prod_cases3)
  have "\<exists>es. extends w w1 es \<and> set (sent es) \<subseteq> {build_request c m (baseURL c @ path) b}"
  proof (cases "may_send c")
    case True
    with d assms(2) have "attempt_loop m (baseURL c @ path) b None 0 c w = (re, c1, w1)"
      by (simp add: doRequest_def may_send_def)
    from attempt_loop_spec [OF this] assms(1) show ?thesis
      by (auto simp: wf_client_def maxRetries_def loop_events_def)
  next
    case False
    with d have "w1 = w" by (auto simp: doRequest_def may_send_def split: option.splits sum.splits)
    then show ?thesis by (auto intro: exI [of _ "[]"])
  qed
  then obtain es where es: "extends w w1 es" "set (sent es) \<subseteq> {build_request c m (baseURL c @ path) b}" by blast
  show ?thesis
  proof (cases "\<exists>p. re = (Some p, None)")
    case True
    with assms(3) d obtain p where "handleResponse c1 w1 p v = (r, c', w')" by (auto simp: finish_def)
    from handleResponse_spec [OF this] obtain es' where "extends w1 w' es'" "quiet es'" by blast
    with es extends_trans [OF es(1)] show ?thesis
      by (auto simp: quiet_def intro!: exI [of _ "es @ es'"])
  next
    case False
    with assms(3) d have "w' = w1"
      by (cases re) (auto simp: finish_def split: option.splits)
    with es show ?thesis by blast
  qed
qed


lemma call_spec:
  assumes "wf_client c" and "(case body of None \<Rightarrow> Inr [] | Some rd \<Rightarrow> ReadAll rd) = Inr b"
    and "finish (doRequest c w m path body) v = (r, c', w')"
  shows "same_config c c' \<and> (\<exists>es. extends w w' es \<and> call_events c 3 es
    \<and> set (sent es) \<subseteq> {build_request c m (baseURL c @ path) b})"
  using api_call_finish [OF assms(1,3)] call_requests [OF assms] by (metis extends_new_events)

section \<open>Answered calls\<close>

text \<open>
  What a call returns when nothing is cancelled: the first attempt is always sent, and an answer below
  300 to it is final, so the call returns what handleResponse makes of that answer.
\<close>

definition sendable :: "client \<Rightarrow> world \<Rightarrow> string \<Rightarrow> bool" where
  "sendable c w path \<longleftrightarrow>
     wf_client c \<and> may_send c \<and> done_at w = None \<and> (\<exists>p. url_Parse (baseURL c @ path) = Inr p)"

lemma sendable_later: "sendable c w path \<Longrightarrow> same_config c c' \<Longrightarrow> extends w w' es \<Longrightarrow> sendable c' w' path"
  using same_config_wf may_send_config
  by (fastforce simp: sendable_def same_config_fields extends_def same_env_def)

lemma handleResponse_value:
  "same_config c c' \<Longrightarrow> fst (handleResponse c' w' resp v) = fst (handleResponse c w resp v)"
  by (auto simp: handleResponse_def same_config_fields Let_def split: sum.splits option.splits result.splits)

lemma doRequest_answer:
  assumes "sendable c w path" and "(case body of None \<Rightarrow> Inr [] | Some rd \<Rightarrow> ReadAll rd) = Inr b"
    and "doRequest c w m path body = (r, c', w')"
  obtains K es where "r = outcome (answer_at w (build_request c m (baseURL c @ path) b) K)"
    and "extends w w' es" and "sent es = replicate (Suc K) (build_request c m (baseURL c @ path) b)"
    and "K = final_attempt m (answer_at w (build_request c m (baseURL c @ path) b)) 0 2" and "same_config c c'"
proof -
  let ?q = "build_request c m (baseURL c @ path) b"
  let ?K = "final_attempt m (answer_at w ?q) 0 2"
  from assms(1) obtain p where c: "wf_client c" "may_send c" "done_at w = None"
    "url_Parse (baseURL c @ path) = Inr p" by (auto simp: sendable_def)
  have "attempt_loop m (baseURL c @ path) b None 0 c w = (r, c', w')"
    using c(2) assms(2,3) by (simp add: doRequest_def may_send_def)
  from attempt_loop_uncancelled [OF this _ _ c(3,4) refl, of 2 "answer_at w ?q" ?K] c(1)
  show ?thesis
    using that run_events [OF c(1) assms(3)] by (auto simp: wf_client_def)
qed

lemma finish_sends:
  assumes "sendable c w path" and "(case body of None \<Rightarrow> Inr [] | Some rd \<Rightarrow> ReadAll rd) = Inr b"
    and "finish (doRequest c w m path body) v = (r, c', w')"
  shows "\<exists>n. sent (new_events w w') = replicate (Suc n) (build_request c m (baseURL c @ path) b)"
proof -
  obtain re c1 w1 where d: "doRequest c w m path body = (re, c1, w1)" by (metis prod_cases3)
  from doRequest_answer [OF assms(1,2) d] obtain K es where es: "extends w w1 es"
    "sent es = replicate (Suc K) (build_request c m (baseURL c @ path) b)" by blast
  show ?thesis
  proof (cases "\<exists>p. re = (Some p, None)")
    case True
    with assms(3) d obtain p where "handleResponse c1 w1 p v = (r, c', w')" by (auto simp: finish_def)
    from handleResponse_spec [OF this] obtain es' where "extends w1 w' es'" "quiet es'" by blast
    with es extends_new_events [OF extends_trans [OF es(1)]] show ?thesis by (auto simp: quiet_def)
  next
    case False
    with assms(3) d have "w' = w1"
      by (cases re) (auto simp: finish_def split: option.splits)
    with es extends_new_events [OF es(1)] show ?thesis by auto
  qed
qed

lemma finish_answered:
  assumes "sendable c w path" and "(case body of None \<Rightarrow> Inr [] | Some rd \<Rightarrow> ReadAll rd) = Inr b"
    and "q = build_request c m (baseURL c @ path) b"
    and "transport w (sent (trace w) @ [q]) = (dt, Inr resp)" and "StatusCode resp < 300"
  shows "\<exists>c' w' es. finish (doRequest c w m path body) v = (fst (handleResponse c w resp v), c', w')
    \<and> same_config c c' \<and> extends w w' es \<and> sent es = [q]"
proof -
  obtain re c1 w1 where d: "doRequest c w m path body = (re, c1, w1)" by (metis prod_cases3)
  have "final_attempt m (answer_at w q) 0 2 = 0"
    using assms(4,5) by (simp add: numeral_2_eq_2 answer_at_def status_of_def retryable_def shouldRetry_def)
  with doRequest_answer [OF assms(1,2) d] assms(3,4) obtain es where
    one: "re = (Some resp, None)" "extends w w1 es" "sent es = [q]" "same_config c c1"
    by (auto simp: answer_at_def outcome_def)
  obtain r c' w' where h: "handleResponse c1 w1 resp v = (r, c', w')" by (metis prod_cases3)
  from handleResponse_spec [OF h] obtain es' where
    "c' = c1" "extends w1 w' es'" "quiet es'" by blast
  with one extends_trans [OF one(2)] h d handleResponse_value [OF one(4), of w1 resp v w] show ?thesis
    by (force simp: finish_def quiet_def)
qed

section \<open>Endpoints\<close>

locale endpoint =
  fixes call :: "client \<Rightarrow> world \<Rightarrow> 'a result \<times> client \<times> world"
    and meth path body :: string
  assumes exchange: "wf_client c \<Longrightarrow> call c w = (r, c', w') \<Longrightarrow>
    same_config c c' \<and> (\<exists>es. extends w w' es \<and> call_events c 3 es
      \<and> set (sent es) \<subseteq> {build_request c meth (baseURL c @ path) body})"
begin

lemma requests:
  assumes "wf_client c" and "call c w = (r, c', w')" and "q \<in> set (sent (new_events w w'))"
  shows "Method q = meth \<and> ReqURL q = baseURL c @ path \<and> ReqBody q = body"
  using exchange [OF assms(1,2)] assms(3)
  by (auto simp: build_request_def dest!: extends_new_events)

end

sublocale endpoint \<subseteq> as_call: api_call call 3
  using exchange by unfold_locales blast

text \<open>A call that does send its request when nothing stands in the way.\<close>

locale live_endpoint = endpoint +
  assumes sends: "sendable c w path \<Longrightarrow> call c w = (r, c', w') \<Longrightarrow>
    \<exists>n. sent (new_events w w') = replicate (Suc n) (build_request c meth (baseURL c @ path) body)"
begin

lemma not_silent:
  assumes "sendable c w path" and "call c w = (r, c', w')"
  shows "sent (new_events w w') \<noteq> []"
  using sends [OF assms] by auto

end

definition form_body :: "Values option \<Rightarrow> string" where
  "form_body data = (case data of None \<Rightarrow> [] | Some m \<Rightarrow> Encode m)"

lemma form_reader_bytes:
  "(case form_reader data of None \<Rightarrow> Inr [] | Some rd \<Rightarrow> ReadAll rd) = Inr (form_body data)"
  by (cases data) (simp_all add: form_reader_def string_reader_def ReadAll_def form_body_def)

lemma raw_reader_bytes:
  "(case raw_reader data of None \<Rightarrow> Inr [] | Some rd \<Rightarrow> ReadAll rd) = Inr data"
  by (simp add: raw_reader_def string_reader_def ReadAll_def)

lemma no_body_bytes: "(case (None :: reader option) of None \<Rightarrow> Inr [] | Some rd \<Rightarrow> ReadAll rd) = Inr []"
  by simp

interpretation get_at: live_endpoint "\<lambda>c w. client_Get c w path v" MethodGet path "[]" for path v
  by unfold_locales (unfold client_Get_def, erule (1) call_spec [OF _ no_body_bytes], erule (1) finish_sends [OF _ no_body_bytes])

interpretation delete_at: live_endpoint "\<lambda>c w. client_Delete c w path" MethodDelete path "[]" for path
  by unfold_locales (unfold client_Delete_def, erule (1) call_spec [OF _ no_body_bytes], erule (1) finish_sends [OF _ no_body_bytes])

interpretation post_at: live_endpoint "\<lambda>c w. client_Post c w path data v" MethodPost path "form_body data"
  for path data v
  by unfold_locales (unfold client_Post_def, erule (1) call_spec [OF _ form_reader_bytes], erule (1) finish_sends [OF _ form_reader_bytes])

interpretation put_at: live_endpoint "\<lambda>c w. client_Put c w path data v" MethodPut path "form_body data"
  for path data v
  by unfold_locales (unfold client_Put_def, erule (1) call_spec [OF _ form_reader_bytes], erule (1) finish_sends [OF _ form_reader_bytes])

interpretation delete_form_at: live_endpoint "\<lambda>c w. client_DeleteWithBody c w path data v" MethodDelete path
  "form_body data" for path data v
  by unfold_locales (unfold client_DeleteWithBody_def, erule (1) call_spec [OF _ form_reader_bytes], erule (1) finish_sends [OF _ form_reader_bytes])

interpretation post_raw_at: live_endpoint "\<lambda>c w. client_PostRaw c w path data v" MethodPost path data
  for path data v
  by unfold_locales (unfold client_PostRaw_def, erule (1) call_spec [OF _ raw_reader_bytes], erule (1) finish_sends [OF _ raw_reader_bytes])

interpretation delete_raw_at: live_endpoint "\<lambda>c w. client_DeleteRaw c w path data v" MethodDelete path data
  for path data v
  by unfold_locales (unfold client_DeleteRaw_def, erule (1) call_spec [OF _ raw_reader_bytes], erule (1) finish_sends [OF _ raw_reader_bytes])

lemmas endpoints =
  get_at.endpoint_axioms delete_at.endpoint_axioms post_at.endpoint_axioms put_at.endpoint_axioms
  delete_form_at.endpoint_axioms post_raw_at.endpoint_axioms delete_raw_at.endpoint_axioms

lemmas live_endpoints =
  get_at.live_endpoint_axioms delete_at.live_endpoint_axioms post_at.live_endpoint_axioms
  put_at.live_endpoint_axioms delete_form_at.live_endpoint_axioms post_raw_at.live_endpoint_axioms
  delete_raw_at.live_endpoint_axioms

section \<open>Checks before a call and work on its result\<close>

lemma api_call_guarded:
  assumes "api_call f n"
  shows "api_call (\<lambda>c w. case g c of Some err \<Rightarrow> (Err err, c, w) | None \<Rightarrow> f c w) n"
proof
  fix c w r c' w'
  assume "wf_client c" and "(case g c of Some err \<Rightarrow> (Err err, c, w) | None \<Rightarrow> f c w) = (r, c', w')"
  with api_call.contract [OF assms]
  show "same_config c c' \<and> (\<exists>es. extends w w' es \<and> call_events c n es)"
    by (cases "g c") auto
qed

lemma endpoint_checked:
  assumes "endpoint call m path body"
  shows "endpoint (\<lambda>c w. case g c of Some err \<Rightarrow> (Err err, c, w) | None \<Rightarrow> call c w) m path body"
proof
  fix c w r c' w'
  assume "wf_client c" and "(case g c of Some err \<Rightarrow> (Err err, c, w) | None \<Rightarrow> call c w) = (r, c', w')"
  with endpoint.exchange [OF assms]
  show "same_config c c' \<and> (\<exists>es. extends w w' es \<and> call_events c 3 es
      \<and> set (sent es) \<subseteq> {build_request c m (baseURL c @ path) body})"
    by (cases "g c") (auto intro!: exI [of _ "[]"])
qed

text \<open>A call that a check may refuse before anything is sent.\<close>

definition guarded :: "error option \<Rightarrow> 'a call \<Rightarrow> 'a call" where
  "guarded check call c w = (case check of Some err \<Rightarrow> (Err err, c, w) | None \<Rightarrow> call c w)"

lemma guarded_simps [simp]:
  "guarded None call = call" "guarded (Some err) call c w = (Err err, c, w)"
  by (simp_all add: guarded_def fun_eq_iff)

lemma endpoint_guarded: "endpoint call m path body \<Longrightarrow> endpoint (guarded check call) m path body"
  by (cases check) (auto simp: endpoint_def guarded_def intro!: exI [of _ "[]"])

text \<open>Work on the decoded answer that needs neither the client nor the network.\<close>

definition then_local :: "'a call \<Rightarrow> ('a \<Rightarrow> 'b result) \<Rightarrow> 'b call" where
  "then_local call f = seq_call call (\<lambda>x c w. (f x, c, w))"

lemma then_local_run:
  "then_local call f c w = (case call c w of (r, c', w') \<Rightarrow> (bind_result r f, c', w'))"
  by (auto simp: then_local_def seq_call_def split: prod.splits result.splits)

lemma then_local_iff:
  "then_local call f c w = (r, c', w') \<longleftrightarrow> (\<exists>x. call c w = (x, c', w') \<and> r = bind_result x f)"
  by (cases "call c w") (auto simp: then_local_run)

lemma bind_result_Err_iff: "bind_result r f = Err e \<longleftrightarrow> r = Err e \<or> (\<exists>x. r = Ok x \<and> f x = Err e)"
  by (cases r) auto

lemma endpoint_then: "endpoint call m path body \<Longrightarrow> endpoint (then_local call f) m path body"
  by (auto simp: endpoint_def then_local_run split: prod.splits)

lemma live_endpoint_then: "live_endpoint call m path body \<Longrightarrow> live_endpoint (then_local call f) m path body"
  using endpoint_then [of call m path body f]
  by (auto simp: live_endpoint_def live_endpoint_axioms_def then_local_iff)

section \<open>Polling a resource\<close>

text \<open>A server that answers whatever is sent with a success whose decoded value satisfies P.\<close>

definition keeps_answering :: "client \<Rightarrow> world \<Rightarrow> 'a target \<Rightarrow> ('a \<Rightarrow> bool) \<Rightarrow> bool" where
  "keeps_answering c w v P \<longleftrightarrow>
     (\<forall>reqs. \<exists>dt resp x. transport w reqs = (dt, Inr resp) \<and> StatusCode resp < 300
        \<and> fst (handleResponse c w resp v) = Ok x \<and> P x)"

lemma concat_singletons: "list_all (\<lambda>x. f x = [q]) xs \<Longrightarrow> concat (map f xs) = replicate (length xs) q"
  by (induction xs) auto

lemma read_answered:
  assumes "sendable c w path" and "keeps_answering c w v P" and "\<forall>x. P x \<longrightarrow> f x = Ok False"
  shows "\<exists>c' w' es. then_local (\<lambda>c w. client_Get c w path v) f c w = (Ok False, c', w') \<and> same_config c c'
    \<and> extends w w' es \<and> sent es = [build_request c MethodGet (baseURL c @ path) []]"
proof -
  let ?q = "build_request c MethodGet (baseURL c @ path) []"
  from assms(2) obtain dt resp x where ans: "transport w (sent (trace w) @ [?q]) = (dt, Inr resp)"
    "StatusCode resp < 300" "fst (handleResponse c w resp v) = Ok x" "P x"
    unfolding keeps_answering_def by blast
  from finish_answered [OF assms(1) no_body_bytes refl ans(1,2), of v] ans(3) obtain c' w' es where
    "client_Get c w path v = (Ok x, c', w')" "same_config c c'" "extends w w' es" "sent es = [?q]"
    by (auto simp: client_Get_def)
  with assms(3) ans(4) show ?thesis by (auto simp: then_local_run)
qed

lemma poll_never:
  assumes "sendable c w path" and "keeps_answering c w v P" and "\<forall>x. P x \<longrightarrow> f x = Ok False"
  shows "\<exists>c' w'. waitForCondition (then_local (\<lambda>c w. client_Get c w path v) f) c w = (Err wait_timeout, c', w')
    \<and> sent (new_events w w') = replicate 30 (build_request c MethodGet (baseURL c @ path) [])
    \<and> clock w + 810 * Second \<le> clock w'"
proof -
  let ?q = "build_request c MethodGet (baseURL c @ path) []"
  let ?cond = "then_local (\<lambda>c w. client_Get c w path v) f"
  let ?I = "\<lambda>c1 w1. same_config c c1 \<and> (\<exists>es. extends w w1 es)"
  let ?E = "\<lambda>es. sent es = [?q]"
  have check: "\<exists>c' w' es. ?cond c1 w1 = (Ok False, c', w') \<and> extends w1 w' es \<and> ?E es \<and> ?I c' w'"
    if I: "?I c1 w1" for c1 w1
  proof -
    from I obtain es where es: "same_config c c1" "extends w w1 es" by blast
    have same: "fst (handleResponse c1 w1 resp v) = fst (handleResponse c w resp v)" for resp
      by (rule handleResponse_value [OF es(1)])
    have "transport w1 = transport w" using es(2) by (simp add: extends_def same_env_def)
    then have "keeps_answering c1 w1 v P"
      using assms(2) unfolding keeps_answering_def same by simp
    from read_answered [OF sendable_later [OF assms(1) es] this assms(3)] obtain c' w' es' where
      one: "?cond c1 w1 = (Ok False, c', w')" "same_config c1 c'" "extends w1 w' es'"
      "sent es' = [build_request c1 MethodGet (baseURL c1 @ path) []]" by blast
    moreover have "build_request c1 MethodGet (baseURL c1 @ path) [] = ?q"
      using es(1) by (simp add: build_request_def same_config_fields)
    ultimately show ?thesis
      using same_config_trans [OF es(1) one(2)] extends_trans [OF es(2) one(3)] by auto
  qed
  have start: "?I c w" and none: "done_at w = None"
    using assms(1) by (auto simp: sendable_def)
  have "\<exists>c' w' checks. wait_loop maxPolls minDelay ?cond c w = (Err wait_timeout, c', w') \<and> ?I c' w'
      \<and> length checks = maxPolls \<and> list_all ?E checks \<and> extends w w' (rounds checks (delays maxPolls minDelay))
      \<and> clock w + sum_list (map (\<lambda>d. max d 0) (delays maxPolls minDelay)) \<le> clock w'"
    by (rule wait_loop_never [where I = ?I and E = ?E, OF check _ start none]) (blast intro: extends_trans)+
  then obtain c' w' checks where end_:
    "wait_loop maxPolls minDelay ?cond c w = (Err wait_timeout, c', w')" "length checks = 30"
    "list_all ?E checks" "extends w w' (rounds checks (delays maxPolls minDelay))"
    "clock w + 810 * Second \<le> clock w'"
    unfolding poll_total by (auto simp: maxPolls_def)
  have "length (delays maxPolls minDelay) = 30" by (simp add: poll_delays poll_seconds_def)
  then have "sent (new_events w w') = concat (map sent checks)"
    using sent_rounds [of checks] end_(2) extends_new_events [OF end_(4)] by simp
  also have "\<dots> = replicate 30 ?q"
    using concat_singletons [OF end_(3)] end_(2) by simp
  finally show ?thesis
    using end_(1,5) unfolding waitForCondition_def by blast
qed

end
