(* ===== verification/Forms.thy ===== *)
theory Forms
  imports FirewallForms Endpoints
begin

text \<open>
  Forms as the services build them: url.Values filled by Set and Add, sent through Encode, and the
  raw bodies with bracketed keys. A form reads back as the very map it was built from, because
  escaping also protects keys (key_codec extends form_codec); so what a server reads is
  computed from the calls of Set alone, and a field that is set under a condition is
  present exactly when the condition held.
\<close>

section \<open>Escaped keys\<close>

locale key_codec = form_codec +
  assumes esc_no_eq: "CHR ''='' \<notin> set (esc s)"
begin

lemma pieces_of_escaped:
  "parse_pieces unesc (Join (map (\<lambda>(k, v). esc k @ ''='' @ esc v) ps) ''&'') = map Inr ps"
proof (cases "ps = []")
  case True
  then show ?thesis by (simp add: parse_pieces_def)
next
  case False
  let ?e = "\<lambda>(k, v). esc k @ ''='' @ esc v"
  let ?ps = "map (\<lambda>(k, v). (esc k, v)) ps"
  have pairs: "map ?e ps = map (form_pair esc) ?ps" by (auto simp: form_pair_def)
  have "split_on CHR ''&'' (Join (map (form_pair esc) ?ps) ''&'') = map (form_pair esc) ?ps"
    using False esc_no_amp by (intro split_pairs) auto
  moreover have "filter (\<lambda>p. p \<noteq> []) (map (form_pair esc) ?ps) = map (form_pair esc) ?ps"
    by (auto simp: form_pair_def filter_id_conv)
  moreover have "map (parse_piece unesc) (map (form_pair esc) ?ps) = map Inr ps"
    using unesc_esc esc_no_amp esc_no_semi esc_no_eq by (auto simp: form_pair_def intro!: piece_of_pair [simplified])
  ultimately show ?thesis by (simp only: pairs parse_pieces_def)
qed

end

interpretation query_keys: key_codec QueryEscape QueryUnescape
  by unfold_locales (use set_QueryEscape unreserved_not_special in blast)

section \<open>url.Values\<close>

lemma values_of_keyed:
  "distinct ks \<Longrightarrow> values_of (concat (map (\<lambda>k. map (Pair k) (g k)) ks)) k = (if k \<in> set ks then g k else [])"
proof (induction ks)
  case (Cons a ks)
  have "values_of (map (Pair a) vs) k = (if a = k then vs else [])" for vs
    by (induction vs) (auto simp: values_of_def)
  with Cons show ?case by auto
qed (simp add: values_of_def)

lemma Encode_parsed:
  "ParseQuery (Encode m) = (None, fold (\<lambda>(k, v) m. Values_Add m k v) (Values_pairs m) [])"
  by (simp only: ParseQuery_def Encode_def query_keys.pieces_of_escaped Let_def Inr_pairs list.case)

lemma Encode_reads_back:
  assumes "distinct (map fst m)"
  shows "map_of (snd (ParseQuery (Encode m))) k =
    (case map_of m k of Some (v # vs) \<Rightarrow> Some (v # vs) | _ \<Rightarrow> None)"
proof -
  have "values_of (Values_pairs m) k = (if k \<in> set (sortedKeys m) then the (map_of m k) else [])"
    unfolding Values_pairs_def
    using assms by (intro values_of_keyed [of _ "\<lambda>k. the (map_of m k)", simplified]) (simp add: sortedKeys_def)
  moreover have "k \<in> set (sortedKeys m) \<longleftrightarrow> map_of m k \<noteq> None"
    by (simp add: map_of_eq_None_iff)
  ultimately show ?thesis
    by (cases "map_of m k") (auto simp: Encode_parsed Values_fold Let_def split: list.split)
qed

section \<open>Building a form\<close>

text \<open>What a server reads under a key of a form that was sent, None when it is absent.\<close>

definition form_value :: "string \<Rightarrow> string \<Rightarrow> string list option" where
  "form_value body k = map_of (snd (ParseQuery body)) k"

text \<open>Set under a condition: a pointer that is not nil, a string that is not empty.\<close>

definition Set_some :: "string \<Rightarrow> string option \<Rightarrow> Values \<Rightarrow> Values" where
  "Set_some k v m = (case v of None \<Rightarrow> m | Some s \<Rightarrow> Values_Set m k s)"

definition nonempty :: "string \<Rightarrow> string option" where
  "nonempty s = (if s \<noteq> [] then Some s else None)"

definition Add_all :: "string \<Rightarrow> string list \<Rightarrow> Values \<Rightarrow> Values" where
  "Add_all k vs m = fold (\<lambda>v m. Values_Add m k v) vs m"

named_theorems form_simps \<open>rules that compute what a form holds\<close>

lemma distinct_Values_Set [form_simps]: "distinct (map fst m) \<Longrightarrow> distinct (map fst (Values_Set m k v))"
  by (simp add: Values_Set_def distinct_update)

lemma distinct_Set_some [form_simps]: "distinct (map fst m) \<Longrightarrow> distinct (map fst (Set_some k v m))"
  by (simp add: Set_some_def distinct_Values_Set split: option.split)

lemma distinct_Add_all [form_simps]: "distinct (map fst m) \<Longrightarrow> distinct (map fst (Add_all k vs m))"
  unfolding Add_all_def by (induction vs arbitrary: m) (simp_all add: Values_Add_def distinct_update)

lemma lookup_Values_Set [form_simps]:
  "map_of (Values_Set m k v) k' = (if k' = k then Some [v] else map_of m k')"
  by (simp add: Values_Set_def update_conv')

lemma lookup_Set_some [form_simps]:
  "map_of (Set_some k v m) k' =
     (if k' = k then (case v of None \<Rightarrow> map_of m k' | Some s \<Rightarrow> Some [s]) else map_of m k')"
  by (simp add: Set_some_def lookup_Values_Set split: option.split)

lemma lookup_Add_all [form_simps]:
  "map_of (Add_all k vs m) k' =
     (if k' = k \<and> vs \<noteq> [] then Some ((case map_of m k of None \<Rightarrow> [] | Some us \<Rightarrow> us) @ vs) else map_of m k')"
  unfolding Add_all_def
  by (induction vs arbitrary: m) (auto simp: Values_Add_def update_conv')

lemma form_value_form_body:
  "distinct (map fst m) \<Longrightarrow> form_value (form_body (Some m)) k =
    (case map_of m k of Some (v # vs) \<Rightarrow> Some (v # vs) | _ \<Rightarrow> None)"
  by (simp add: form_value_def form_body_def Encode_reads_back)

section \<open>Raw bodies with bracketed keys\<close>

lemma raw_body_value:
  assumes "\<forall>(k, v) \<in> set ps. plain_key k"
  shows "form_value (Join (map (form_pair QueryEscape) ps) ''&'') k =
    (if values_of ps k = [] then None else Some (values_of ps k))"
  unfolding form_value_def by (rule ParseQuery_pairs [OF assms])

end
