(* ===== verification/SpecHandler.thy ===== *)
theory SpecHandler
  imports SpecTest Forms
begin

text \<open>
  internal/spectest/spectest.go: the loading of the OpenAPI document and the handler that stands between
  a test server and a fixture. What kin-openapi does (loading, routing, schema validation) is the
  record kin of functions. A fixture is a function from the request to the operations it makes on its
  ResponseWriter; these are run on net/http's own writer and on the recorder of httptest, each
  a state machine, and the handler copies what was recorded to the real writer.
\<close>

section \<open>Requests and response writers\<close>

record hreq =
  HMethod :: string
  HPath :: string
  HRawQuery :: string
  HHeader :: Header
  HBody :: "reader option"

datatype wop =
  SetHeader string string | AddHeader string string | DelHeader string
| WriteHeader int | Write string

fun header_op :: "wop \<Rightarrow> Header \<Rightarrow> Header" where
  "header_op (SetHeader k v) h = Values_Set h (CanonicalHeaderKey k) v"
| "header_op (AddHeader k v) h = Values_Add h (CanonicalHeaderKey k) v"
| "header_op (DelHeader k) h = AList.delete (CanonicalHeaderKey k) h"
| "header_op (WriteHeader c) h = h"
| "header_op (Write b) h = h"

definition bodyAllowedForStatus :: "int \<Rightarrow> bool" where
  "bodyAllowedForStatus c \<longleftrightarrow> \<not> (100 \<le> c \<and> c \<le> 199) \<and> c \<noteq> 204 \<and> c \<noteq> 304"

definition bad_status :: "int \<Rightarrow> bool" where "bad_status c \<longleftrightarrow> c < 100 \<or> c > 999"

text \<open>A run of operations; None is a panic, which WriteHeader raises for a code without three digits.\<close>

fun run_ops :: "(wop \<Rightarrow> 's \<Rightarrow> 's option) \<Rightarrow> wop list \<Rightarrow> 's \<Rightarrow> 's option" where
  "run_ops f [] s = Some s"
| "run_ops f (p # ps) s = Option.bind (f p s) (run_ops f ps)"

subsection \<open>The writer of the server\<close>

text \<open>
  The header map that the handler sees, the status with the headers as they were when it was written,
  the length that these headers declare, the number of bytes the handler wrote, and the body. A write
  beyond the declared length fails with ErrContentLength and adds nothing; the bytes count all the
  same. Interim answers (1xx but 101) leave the state alone.
\<close>

record writer =
  Live :: Header
  Committed :: "(int \<times> Header) option"
  Declared :: "int option"
  Written :: nat
  Content :: string

definition new_writer :: writer where
  "new_writer = \<lparr>Live = [], Committed = None, Declared = None, Written = 0, Content = []\<rparr>"

definition declared_length :: "Header \<Rightarrow> int option" where
  "declared_length h =
     (case Atoi (header_Get h ''Content-Length'') of Inr n \<Rightarrow> if n \<ge> 0 then Some n else None | Inl e \<Rightarrow> None)"

text \<open>Whether so many bytes keep to the declared length.\<close>

definition fits :: "int option \<Rightarrow> nat \<Rightarrow> bool" where
  "fits d n \<longleftrightarrow> (case d of None \<Rightarrow> True | Some k \<Rightarrow> int n \<le> k)"

definition server_commit :: "int \<Rightarrow> writer \<Rightarrow> writer" where
  "server_commit c w =
     (if Committed w = None then w\<lparr>Committed := Some (c, Live w), Declared := declared_length (Live w)\<rparr> else w)"

fun server_step :: "wop \<Rightarrow> writer \<Rightarrow> writer option" where
  "server_step (WriteHeader c) w =
     (if Committed w \<noteq> None then Some w
      else if bad_status c then None
      else if 100 \<le> c \<and> c \<le> 199 \<and> c \<noteq> 101 then Some w
      else Some (server_commit c w))"
| "server_step (Write b) w =
     (let w1 = server_commit 200 w;
          w2 = w1\<lparr>Written := Written w1 + length b\<rparr>
      in Some (if b = [] \<or> \<not> bodyAllowedForStatus (fst (the (Committed w1))) then w1
               else if fits (Declared w2) (Written w2) then w2\<lparr>Content := Content w2 @ b\<rparr>
               else w2))"
| "server_step p w = Some (w\<lparr>Live := header_op p (Live w)\<rparr>)"

text \<open>
  What the client receives: a status that allows a body gets a sniffed content type where none is set
  (sniff is http.DetectContentType), any other loses the headers that describe a body.
\<close>

record answer =
  AnsStatus :: int
  AnsHeader :: "string \<Rightarrow> string list"
  AnsBody :: string

definition suppressedHeaders :: "int \<Rightarrow> string list" where
  "suppressedHeaders c =
     (if c = 304 then [''Content-Type'', ''Content-Length'', ''Transfer-Encoding'']
      else if bodyAllowedForStatus c then [] else [''Content-Length'', ''Transfer-Encoding''])"

definition server_finish :: "(string \<Rightarrow> string) \<Rightarrow> writer \<Rightarrow> answer" where
  "server_finish sniff w =
     (let (c, h) = the (Committed (server_commit 200 w));
          h' = (if \<not> bodyAllowedForStatus c then fold AList.delete (suppressedHeaders c) h
                else if map_of h ''Content-Type'' = None \<and> header_Get h ''Content-Encoding'' = []
                   \<and> header_Get h ''Transfer-Encoding'' = [] \<and> Content w \<noteq> []
                then Values_Set h ''Content-Type'' (sniff (take 512 (Content w))) else h)
      in \<lparr>AnsStatus = c, AnsHeader = go_index h', AnsBody = Content w\<rparr>)"

definition serve :: "(string \<Rightarrow> string) \<Rightarrow> wop list \<Rightarrow> answer option" where
  "serve sniff ps = map_option (server_finish sniff)
     (run_ops server_step ps new_writer)"

subsection \<open>The recorder of httptest\<close>

record recorder =
  HeaderMap :: Header
  RecCode :: int
  WroteHeader :: bool
  RecBody :: string

fun recorder_step :: "(string \<Rightarrow> string) \<Rightarrow> wop \<Rightarrow> recorder \<Rightarrow> recorder option" where
  "recorder_step sniff (WriteHeader c) t =
     (if WroteHeader t then Some t
      else if bad_status c then None
      else Some (t\<lparr>RecCode := c, WroteHeader := True\<rparr>))"
| "recorder_step sniff (Write b) t =
     (let h = HeaderMap t;
          h' = (if map_of h ''Content-Type'' = None \<and> header_Get h ''Transfer-Encoding'' = []
                then Values_Set h ''Content-Type'' (sniff (take 512 b)) else h);
          t' = (if WroteHeader t then t else t\<lparr>HeaderMap := h', RecCode := 200, WroteHeader := True\<rparr>)
      in Some (t'\<lparr>RecBody := RecBody t' @ b\<rparr>))"
| "recorder_step sniff p t = Some (t\<lparr>HeaderMap := header_op p (HeaderMap t)\<rparr>)"

section \<open>Loading the document\<close>

record ('doc, 'router, 'route) kin =
  LoadFromFile :: "string \<Rightarrow> error + 'doc"
  ValidateDoc :: "'doc \<Rightarrow> error option"
  ClearServers :: "'doc \<Rightarrow> 'doc"
  NewRouter :: "'doc \<Rightarrow> error + 'router"
  FindRoute :: "'router \<Rightarrow> hreq \<Rightarrow> error + 'route"
  ValidateRequest :: "hreq \<Rightarrow> 'route \<Rightarrow> error option \<times> hreq"
  ValidateResponse :: "hreq \<Rightarrow> 'route \<Rightarrow> int \<Rightarrow> Header \<Rightarrow> string \<Rightarrow> error option"

record ('doc, 'router) Spec =
  SpecDoc :: 'doc
  SpecRouter :: 'router

text \<open>The package variables: whether loadOnce has run, and what it left.\<close>

record ('doc, 'router) load_state =
  LoadOnce :: bool
  Loaded :: "('doc, 'router) Spec option"
  LoadErr :: "error option"

definition load_spec :: "('doc, 'router, 'route) kin \<Rightarrow> string \<Rightarrow> error + ('doc, 'router) Spec" where
  "load_spec kin path =
     (case LoadFromFile kin path of
        Inl e \<Rightarrow> Inl (Wrapped (''spectest: load '' @ path) e)
      | Inr doc \<Rightarrow>
         (case ValidateDoc kin doc of
            Some e \<Rightarrow> Inl (Wrapped (''spectest: validate '' @ path) e)
          | None \<Rightarrow>
             (let doc' = ClearServers kin doc
              in case NewRouter kin doc' of
                   Inl e \<Rightarrow> Inl (Wrapped (''spectest: build router for '' @ path) e)
                 | Inr router \<Rightarrow> Inr \<lparr>SpecDoc = doc', SpecRouter = router\<rparr>)))"

definition Load ::
  "('doc, 'router, 'route) kin \<Rightarrow> string \<Rightarrow> ('doc, 'router) load_state \<Rightarrow>
     (('doc, 'router) Spec option \<times> error option) \<times> ('doc, 'router) load_state" where
  "Load kin path st =
     (let st' = (if LoadOnce st then st
                 else (case load_spec kin path of
                         Inl e \<Rightarrow> st\<lparr>LoadOnce := True, LoadErr := Some e\<rparr>
                       | Inr s \<Rightarrow> st\<lparr>LoadOnce := True, Loaded := Some s\<rparr>))
      in ((Loaded st', LoadErr st'), st'))"

definition load_start :: "('doc, 'router) load_state" where
  "load_start = \<lparr>LoadOnce = False, Loaded = None, LoadErr = None\<rparr>"

lemma Load_result:
  "fst (Load kin path load_start) =
     (case load_spec kin path of Inl e \<Rightarrow> (None, Some e) | Inr s \<Rightarrow> (Some s, None))"
  by (simp add: Load_def load_start_def split: sum.split)

lemma Load_once: "Load kin' path' (snd (Load kin path st)) = (fst (Load kin path st), snd (Load kin path st))"
  by (simp add: Load_def split: sum.split)

section \<open>The handler\<close>

text \<open>
  A fixture gets the request and says what it does with the writer and what becomes of the request. A
  reporter whose Fatalf ends the goroutine, as that of testing.T, has fatal_stops.
\<close>

type_synonym fixture = "hreq \<Rightarrow> hreq \<times> wop list"

text \<open>What the handler did: the reports, the request the fixture saw, the answer (None: aborted).\<close>

record handled =
  Reports :: "report list"
  Seen :: "hreq option"
  Answer :: "answer option"

text \<open>The body of the request as io.ReadAll returns it: the bytes read so far and the error.\<close>

definition buffer_body :: "hreq \<Rightarrow> string \<times> error option" where
  "buffer_body r = (case HBody r of None \<Rightarrow> ([], None) | Some rd \<Rightarrow> rd)"

definition bracketed_body :: "string \<Rightarrow> string \<Rightarrow> bool" where
  "bracketed_body method path \<longleftrightarrow>
     isFirewallRulesPath path \<and> method = MethodPost
     \<or> isVSwitchServerPath path \<and> (method = MethodPost \<or> method = MethodDelete)
     \<or> isTrafficPath path \<and> method = MethodPost"

definition restored :: "hreq \<Rightarrow> string \<Rightarrow> hreq" where
  "restored r b = r\<lparr>HBody := Some (b, None)\<rparr>"

text \<open>The checks of the request, and the request as the validator left it.\<close>

definition check_request ::
  "('doc, 'router, 'route) kin \<Rightarrow> 'route \<Rightarrow> hreq \<Rightarrow> string \<Rightarrow> report list \<times> hreq" where
  "check_request kin route r b =
     (let (e, r') = (if bracketed_body (HMethod r) (HPath r) then (None, r) else ValidateRequest kin r route)
      in (body_check (\<lambda>_. case e of None \<Rightarrow> [] | Some e \<Rightarrow> [BadRequest e]) (HMethod r) (HPath r) b, r'))"

text \<open>The copy of what was recorded to the real writer, as the operations it makes there.\<close>

definition replay :: "recorder \<Rightarrow> wop list" where
  "replay t = concat (map (\<lambda>(k, vs). map (AddHeader k) vs) (HeaderMap t)) @ [WriteHeader (RecCode t), Write (RecBody t)]"

definition new_recorder :: recorder where
  "new_recorder = \<lparr>HeaderMap = [(''Content-Type'', [''application/json''])], RecCode = 200, WroteHeader = False, RecBody = []\<rparr>"

definition Handler ::
  "('doc, 'router, 'route) kin \<Rightarrow> (string \<Rightarrow> string) \<Rightarrow> bool \<Rightarrow> ('doc, 'router) Spec \<Rightarrow> fixture \<Rightarrow> hreq \<Rightarrow> handled" where
  "Handler kin sniff fatal_stops spec inner r =
     (case FindRoute kin (SpecRouter spec) r of
        Inl e \<Rightarrow> \<lparr>Reports = [NoOperation e], Seen = Some r, Answer = serve sniff (snd (inner r))\<rparr>
      | Inr route \<Rightarrow>
         (let (b, e) = buffer_body r;
              unread = (case e of None \<Rightarrow> [] | Some e \<Rightarrow> [BodyUnread e])
          in if unread \<noteq> [] \<and> fatal_stops then \<lparr>Reports = unread, Seen = None, Answer = None\<rparr>
             else (let (reports, r1) = check_request kin route (restored r b) b;
                       r2 = restored r1 b;
                       (r3, ps) = inner r2
                   in case run_ops (recorder_step sniff) ps new_recorder of
                        None \<Rightarrow> \<lparr>Reports = unread @ reports, Seen = Some r2, Answer = None\<rparr>
                      | Some t \<Rightarrow>
                         \<lparr>Reports = unread @ reports @
                            (case ValidateResponse kin r3 route (RecCode t) (HeaderMap t) (RecBody t) of
                               None \<Rightarrow> [] | Some e \<Rightarrow> [BadResponse (RecCode t) e]),
                          Seen = Some r2, Answer = serve sniff (replay t)\<rparr>)))"

end
