(* ===== verification/StorageBox.thy ===== *)
theory StorageBox
  imports Forms
begin

text \<open>
  storagebox.go: storage boxes with their passwords, snapshots, snapshot plans and sub-accounts.
  Updates send only the fields that are set; the lemmas say which fields a server reads. A pointer
  is an option value.
\<close>

section \<open>Data\<close>

record StorageBox =
  BoxID :: int
  Login :: string
  BoxName :: string
  Product :: string
  BoxCancelled :: bool
  BoxLocked :: bool
  Location :: string
  LinkedServer :: int
  BoxPaidUntil :: string
  DiskQuota :: int
  DiskUsage :: int
  DiskUsageData :: int
  DiskUsageSnapshots :: int
  Webdav :: bool
  Samba :: bool
  SSH :: bool
  ExternalReachability :: bool
  ZFS :: bool
  BoxServer :: string
  HostSystem :: string

record StorageBoxSnapshot =
  SnapName :: string
  Timestamp :: string
  SnapSize :: int
  FilesystemSize :: int
  Automatic :: bool
  SnapComment :: string

record StorageBoxSnapshotPlan =
  PlanStatus :: string
  Minute :: "int option"
  Hour :: "int option"
  DayOfWeek :: "int option"
  DayOfMonth :: "int option"
  Month :: "int option"
  MaxSnapshots :: int

record StorageBoxSubAccount =
  SubUsername :: string
  AccountID :: string
  SubServer :: string
  SubHomeDirectory :: string
  SubSamba :: bool
  SubSSH :: bool
  SubExternalReachability :: bool
  SubWebdav :: bool
  SubReadOnly :: bool
  CreateTime :: string
  SubComment :: string

record StorageBoxSubAccountCreated =
  CreatedUsername :: string
  CreatedPassword :: string
  CreatedAccountID :: string
  CreatedServer :: string
  CreatedHomeDirectory :: string

record StorageBoxUpdate =
  UpName :: "string option"
  UpSamba :: "bool option"
  UpWebdav :: "bool option"
  UpSSH :: "bool option"
  UpExternalReachability :: "bool option"
  UpZFS :: "bool option"

record StorageBoxSubAccountInput =
  InHomeDirectory :: "string option"
  InSamba :: "bool option"
  InSSH :: "bool option"
  InExternalReachability :: "bool option"
  InWebdav :: "bool option"
  InReadOnly :: "bool option"
  InComment :: "string option"
  InPassword :: "string option"

record storageBoxPasswordResponse =
  RespPassword :: string

section \<open>Decoding\<close>

definition zero_StorageBox :: StorageBox where
  "zero_StorageBox = \<lparr>BoxID = 0, Login = [], BoxName = [], Product = [], BoxCancelled = False,
     BoxLocked = False, Location = [], LinkedServer = 0, BoxPaidUntil = [], DiskQuota = 0, DiskUsage = 0,
     DiskUsageData = 0, DiskUsageSnapshots = 0, Webdav = False, Samba = False, SSH = False,
     ExternalReachability = False, ZFS = False, BoxServer = [], HostSystem = []\<rparr>"

definition dec_StorageBox :: "StorageBox decoder" where
  "dec_StorageBox = dec_struct
     [fld ''id'' dec_int BoxID BoxID_update,
      fld ''login'' dec_string Login Login_update,
      fld ''name'' dec_string BoxName BoxName_update,
      fld ''product'' dec_string Product Product_update,
      fld ''cancelled'' dec_bool BoxCancelled BoxCancelled_update,
      fld ''locked'' dec_bool BoxLocked BoxLocked_update,
      fld ''location'' dec_string Location Location_update,
      fld ''linked_server'' dec_int LinkedServer LinkedServer_update,
      fld ''paid_until'' dec_string BoxPaidUntil BoxPaidUntil_update,
      fld ''disk_quota'' dec_int DiskQuota DiskQuota_update,
      fld ''disk_usage'' dec_int DiskUsage DiskUsage_update,
      fld ''disk_usage_data'' dec_int DiskUsageData DiskUsageData_update,
      fld ''disk_usage_snapshots'' dec_int DiskUsageSnapshots DiskUsageSnapshots_update,
      fld ''webdav'' dec_bool Webdav Webdav_update,
      fld ''samba'' dec_bool Samba Samba_update,
      fld ''ssh'' dec_bool SSH SSH_update,
      fld ''external_reachability'' dec_bool ExternalReachability ExternalReachability_update,
      fld ''zfs'' dec_bool ZFS ZFS_update,
      fld ''server'' dec_string BoxServer BoxServer_update,
      fld ''host_system'' dec_string HostSystem HostSystem_update]"

definition zero_StorageBoxSnapshot :: StorageBoxSnapshot where
  "zero_StorageBoxSnapshot = \<lparr>SnapName = [], Timestamp = [], SnapSize = 0, FilesystemSize = 0,
     Automatic = False, SnapComment = []\<rparr>"

definition dec_StorageBoxSnapshot :: "StorageBoxSnapshot decoder" where
  "dec_StorageBoxSnapshot = dec_struct
     [fld ''name'' dec_string SnapName SnapName_update,
      fld ''timestamp'' dec_string Timestamp Timestamp_update,
      fld ''size'' dec_int SnapSize SnapSize_update,
      fld ''filesystem_size'' dec_int FilesystemSize FilesystemSize_update,
      fld ''automatic'' dec_bool Automatic Automatic_update,
      fld ''comment'' dec_string SnapComment SnapComment_update]"

definition zero_StorageBoxSnapshotPlan :: StorageBoxSnapshotPlan where
  "zero_StorageBoxSnapshotPlan = \<lparr>PlanStatus = [], Minute = None, Hour = None, DayOfWeek = None,
     DayOfMonth = None, Month = None, MaxSnapshots = 0\<rparr>"

definition dec_StorageBoxSnapshotPlan :: "StorageBoxSnapshotPlan decoder" where
  "dec_StorageBoxSnapshotPlan = dec_struct
     [fld ''status'' dec_string PlanStatus PlanStatus_update,
      fld ''minute'' (dec_ptr 0 dec_int) Minute Minute_update,
      fld ''hour'' (dec_ptr 0 dec_int) Hour Hour_update,
      fld ''day_of_week'' (dec_ptr 0 dec_int) DayOfWeek DayOfWeek_update,
      fld ''day_of_month'' (dec_ptr 0 dec_int) DayOfMonth DayOfMonth_update,
      fld ''month'' (dec_ptr 0 dec_int) Month Month_update,
      fld ''max_snapshots'' dec_int MaxSnapshots MaxSnapshots_update]"

definition zero_StorageBoxSubAccount :: StorageBoxSubAccount where
  "zero_StorageBoxSubAccount = \<lparr>SubUsername = [], AccountID = [], SubServer = [], SubHomeDirectory = [],
     SubSamba = False, SubSSH = False, SubExternalReachability = False, SubWebdav = False,
     SubReadOnly = False, CreateTime = [], SubComment = []\<rparr>"

definition dec_StorageBoxSubAccount :: "StorageBoxSubAccount decoder" where
  "dec_StorageBoxSubAccount = dec_struct
     [fld ''username'' dec_string SubUsername SubUsername_update,
      fld ''accountid'' dec_string AccountID AccountID_update,
      fld ''server'' dec_string SubServer SubServer_update,
      fld ''homedirectory'' dec_string SubHomeDirectory SubHomeDirectory_update,
      fld ''samba'' dec_bool SubSamba SubSamba_update,
      fld ''ssh'' dec_bool SubSSH SubSSH_update,
      fld ''external_reachability'' dec_bool SubExternalReachability SubExternalReachability_update,
      fld ''webdav'' dec_bool SubWebdav SubWebdav_update,
      fld ''readonly'' dec_bool SubReadOnly SubReadOnly_update,
      fld ''createtime'' dec_string CreateTime CreateTime_update,
      fld ''comment'' dec_string SubComment SubComment_update]"

definition zero_StorageBoxSubAccountCreated :: StorageBoxSubAccountCreated where
  "zero_StorageBoxSubAccountCreated = \<lparr>CreatedUsername = [], CreatedPassword = [], CreatedAccountID = [],
     CreatedServer = [], CreatedHomeDirectory = []\<rparr>"

definition dec_StorageBoxSubAccountCreated :: "StorageBoxSubAccountCreated decoder" where
  "dec_StorageBoxSubAccountCreated = dec_struct
     [fld ''username'' dec_string CreatedUsername CreatedUsername_update,
      fld ''password'' dec_string CreatedPassword CreatedPassword_update,
      fld ''accountid'' dec_string CreatedAccountID CreatedAccountID_update,
      fld ''server'' dec_string CreatedServer CreatedServer_update,
      fld ''homedirectory'' dec_string CreatedHomeDirectory CreatedHomeDirectory_update]"

definition dec_storageBoxPasswordResponse :: "storageBoxPasswordResponse decoder" where
  "dec_storageBoxPasswordResponse = dec_struct [fld ''password'' dec_string RespPassword RespPassword_update]"

section \<open>Boxes and passwords\<close>

definition box_path :: "int \<Rightarrow> string" where
  "box_path storageBoxID = ''/storagebox/'' @ Itoa storageBoxID"

definition sb_List :: "StorageBox list call" where
  "sb_List c w = client_Get c w ''/storagebox'' ([], Some (dec_list zero_StorageBox dec_StorageBox))"

definition sb_Get :: "int \<Rightarrow> StorageBox call" where
  "sb_Get storageBoxID c w = client_Get c w (box_path storageBoxID) (zero_StorageBox, Some dec_StorageBox)"

definition update_form :: "StorageBoxUpdate \<Rightarrow> Values" where
  "update_form inp =
     (let data = [];
          data = Set_some ''storagebox_name'' (UpName inp) data;
          data = Set_some ''samba'' (map_option FormatBool (UpSamba inp)) data;
          data = Set_some ''webdav'' (map_option FormatBool (UpWebdav inp)) data;
          data = Set_some ''ssh'' (map_option FormatBool (UpSSH inp)) data;
          data = Set_some ''external_reachability'' (map_option FormatBool (UpExternalReachability inp)) data
      in Set_some ''zfs'' (map_option FormatBool (UpZFS inp)) data)"

definition sb_Update :: "int \<Rightarrow> StorageBoxUpdate \<Rightarrow> StorageBox call" where
  "sb_Update storageBoxID inp c w =
     client_Post c w (box_path storageBoxID) (Some (update_form inp)) (zero_StorageBox, Some dec_StorageBox)"

definition password_target :: "storageBoxPasswordResponse target" where
  "password_target = (\<lparr>RespPassword = []\<rparr>, Some dec_storageBoxPasswordResponse)"

definition password_form :: "string \<Rightarrow> Values" where
  "password_form newPassword = Set_some ''password'' (nonempty newPassword) []"

definition sb_ResetPassword :: "int \<Rightarrow> string \<Rightarrow> string call" where
  "sb_ResetPassword storageBoxID newPassword =
     then_local
       (\<lambda>c w. client_Post c w (box_path storageBoxID @ ''/password'') (Some (password_form newPassword)) password_target)
       (\<lambda>resp. Ok (RespPassword resp))"

section \<open>Snapshots\<close>

definition snapshot_path :: "int \<Rightarrow> string \<Rightarrow> string" where
  "snapshot_path storageBoxID snapshotName = box_path storageBoxID @ ''/snapshot/'' @ PathEscape snapshotName"

definition ListSnapshots :: "int \<Rightarrow> StorageBoxSnapshot list call" where
  "ListSnapshots storageBoxID c w =
     client_Get c w (box_path storageBoxID @ ''/snapshot'')
       ([], Some (dec_list zero_StorageBoxSnapshot dec_StorageBoxSnapshot))"

definition CreateSnapshot :: "int \<Rightarrow> StorageBoxSnapshot call" where
  "CreateSnapshot storageBoxID c w =
     client_Post c w (box_path storageBoxID @ ''/snapshot'') None
       (zero_StorageBoxSnapshot, Some dec_StorageBoxSnapshot)"

definition DeleteSnapshot :: "int \<Rightarrow> string \<Rightarrow> unit call" where
  "DeleteSnapshot storageBoxID snapshotName c w = client_Delete c w (snapshot_path storageBoxID snapshotName)"

definition RestoreSnapshot :: "int \<Rightarrow> string \<Rightarrow> unit call" where
  "RestoreSnapshot storageBoxID snapshotName c w =
     client_Post c w (snapshot_path storageBoxID snapshotName)
       (Some (Values_Set [] ''revert'' ''true'')) nil_target"

definition SetSnapshotComment :: "int \<Rightarrow> string \<Rightarrow> string \<Rightarrow> unit call" where
  "SetSnapshotComment storageBoxID snapshotName comment c w =
     client_Post c w (snapshot_path storageBoxID snapshotName @ ''/comment'')
       (Some (Values_Set [] ''comment'' comment)) nil_target"

section \<open>Snapshot plans\<close>

text \<open>An error of the request ends the operation before the list is looked at.\<close>

definition decodeSnapshotPlanResponse :: "StorageBoxSnapshotPlan list \<Rightarrow> StorageBoxSnapshotPlan result" where
  "decodeSnapshotPlanResponse plans =
     (case plans of
        [] \<Rightarrow> Err (NewAPIError ErrUnknown ''empty snapshotplan response'')
      | plan # rest \<Rightarrow> Ok plan)"

definition plans_target :: "StorageBoxSnapshotPlan list target" where
  "plans_target = ([], Some (dec_list zero_StorageBoxSnapshotPlan dec_StorageBoxSnapshotPlan))"

definition GetSnapshotPlan :: "int \<Rightarrow> StorageBoxSnapshotPlan call" where
  "GetSnapshotPlan storageBoxID =
     then_local (\<lambda>c w. client_Get c w (box_path storageBoxID @ ''/snapshotplan'') plans_target)
       decodeSnapshotPlanResponse"

definition plan_form :: "StorageBoxSnapshotPlan \<Rightarrow> Values" where
  "plan_form plan =
     (let data = Values_Set [] ''status'' (PlanStatus plan);
          data = Set_some ''minute'' (map_option Itoa (Minute plan)) data;
          data = Set_some ''hour'' (map_option Itoa (Hour plan)) data;
          data = Set_some ''day_of_week'' (map_option Itoa (DayOfWeek plan)) data;
          data = Set_some ''day_of_month'' (map_option Itoa (DayOfMonth plan)) data;
          data = Set_some ''month'' (map_option Itoa (Month plan)) data
      in Values_Set data ''max_snapshots'' (Itoa (MaxSnapshots plan)))"

definition SetSnapshotPlan :: "int \<Rightarrow> StorageBoxSnapshotPlan \<Rightarrow> StorageBoxSnapshotPlan call" where
  "SetSnapshotPlan storageBoxID plan =
     then_local (\<lambda>c w. client_Post c w (box_path storageBoxID @ ''/snapshotplan'') (Some (plan_form plan)) plans_target)
       decodeSnapshotPlanResponse"

section \<open>Sub-accounts\<close>

definition subaccount_path :: "int \<Rightarrow> string \<Rightarrow> string" where
  "subaccount_path storageBoxID account = box_path storageBoxID @ ''/subaccount/'' @ PathEscape account"

definition ListSubAccounts :: "int \<Rightarrow> StorageBoxSubAccount list call" where
  "ListSubAccounts storageBoxID c w =
     client_Get c w (box_path storageBoxID @ ''/subaccount'')
       ([], Some (dec_list zero_StorageBoxSubAccount dec_StorageBoxSubAccount))"

definition subAccountForm :: "StorageBoxSubAccountInput \<Rightarrow> Values" where
  "subAccountForm inp =
     (let data = [];
          data = Set_some ''homedirectory'' (InHomeDirectory inp) data;
          data = Set_some ''samba'' (map_option FormatBool (InSamba inp)) data;
          data = Set_some ''ssh'' (map_option FormatBool (InSSH inp)) data;
          data = Set_some ''external_reachability'' (map_option FormatBool (InExternalReachability inp)) data;
          data = Set_some ''webdav'' (map_option FormatBool (InWebdav inp)) data;
          data = Set_some ''readonly'' (map_option FormatBool (InReadOnly inp)) data;
          data = Set_some ''comment'' (InComment inp) data
      in Set_some ''password'' (InPassword inp) data)"

definition CreateSubAccount :: "int \<Rightarrow> StorageBoxSubAccountInput \<Rightarrow> StorageBoxSubAccountCreated call" where
  "CreateSubAccount storageBoxID inp c w =
     client_Post c w (box_path storageBoxID @ ''/subaccount'') (Some (subAccountForm inp))
       (zero_StorageBoxSubAccountCreated, Some dec_StorageBoxSubAccountCreated)"

definition UpdateSubAccount :: "int \<Rightarrow> string \<Rightarrow> StorageBoxSubAccountInput \<Rightarrow> unit call" where
  "UpdateSubAccount storageBoxID account inp c w =
     client_Put c w (subaccount_path storageBoxID account) (Some (subAccountForm inp)) nil_target"

definition DeleteSubAccount :: "int \<Rightarrow> string \<Rightarrow> unit call" where
  "DeleteSubAccount storageBoxID account c w = client_Delete c w (subaccount_path storageBoxID account)"

definition ResetSubAccountPassword :: "int \<Rightarrow> string \<Rightarrow> string \<Rightarrow> string call" where
  "ResetSubAccountPassword storageBoxID account newPassword =
     then_local
       (\<lambda>c w. client_Post c w (subaccount_path storageBoxID account @ ''/password'')
                (Some (password_form newPassword)) password_target)
       (\<lambda>resp. Ok (RespPassword resp))"

section \<open>The endpoint of each operation\<close>

interpretation sb_list: live_endpoint sb_List MethodGet "''/storagebox''" "[]"
  unfolding sb_List_def by (rule live_endpoints)

interpretation sb_get: live_endpoint "sb_Get i" MethodGet "box_path i" "[]" for i
  unfolding sb_Get_def by (rule live_endpoints)

interpretation sb_update: live_endpoint "sb_Update i inp" MethodPost "box_path i" "form_body (Some (update_form inp))"
  for i inp
  unfolding sb_Update_def by (rule live_endpoints)

interpretation sb_password: live_endpoint "sb_ResetPassword i p" MethodPost "box_path i @ ''/password''"
  "form_body (Some (password_form p))" for i p
  unfolding sb_ResetPassword_def by (intro live_endpoint_then live_endpoints)

interpretation snapshot_list: live_endpoint "ListSnapshots i" MethodGet "box_path i @ ''/snapshot''" "[]" for i
  unfolding ListSnapshots_def by (rule live_endpoints)

interpretation snapshot_create: live_endpoint "CreateSnapshot i" MethodPost "box_path i @ ''/snapshot''"
  "form_body None" for i
  unfolding CreateSnapshot_def by (rule live_endpoints)

interpretation snapshot_delete: live_endpoint "DeleteSnapshot i s" MethodDelete "snapshot_path i s" "[]" for i s
  unfolding DeleteSnapshot_def by (rule live_endpoints)

interpretation snapshot_restore: live_endpoint "RestoreSnapshot i s" MethodPost "snapshot_path i s"
  "form_body (Some (Values_Set [] ''revert'' ''true''))" for i s
  unfolding RestoreSnapshot_def by (rule live_endpoints)

interpretation snapshot_comment: live_endpoint "SetSnapshotComment i s t" MethodPost "snapshot_path i s @ ''/comment''"
  "form_body (Some (Values_Set [] ''comment'' t))" for i s t
  unfolding SetSnapshotComment_def by (rule live_endpoints)

interpretation plan_get: live_endpoint "GetSnapshotPlan i" MethodGet "box_path i @ ''/snapshotplan''" "[]" for i
  unfolding GetSnapshotPlan_def by (intro live_endpoint_then live_endpoints)

interpretation plan_set: live_endpoint "SetSnapshotPlan i p" MethodPost "box_path i @ ''/snapshotplan''"
  "form_body (Some (plan_form p))" for i p
  unfolding SetSnapshotPlan_def by (intro live_endpoint_then live_endpoints)

interpretation sub_list: live_endpoint "ListSubAccounts i" MethodGet "box_path i @ ''/subaccount''" "[]" for i
  unfolding ListSubAccounts_def by (rule live_endpoints)

interpretation sub_create: live_endpoint "CreateSubAccount i inp" MethodPost "box_path i @ ''/subaccount''"
  "form_body (Some (subAccountForm inp))" for i inp
  unfolding CreateSubAccount_def by (rule live_endpoints)

interpretation sub_update: live_endpoint "UpdateSubAccount i u inp" MethodPut "subaccount_path i u"
  "form_body (Some (subAccountForm inp))" for i u inp
  unfolding UpdateSubAccount_def by (rule live_endpoints)

interpretation sub_delete: live_endpoint "DeleteSubAccount i u" MethodDelete "subaccount_path i u" "[]" for i u
  unfolding DeleteSubAccount_def by (rule live_endpoints)

interpretation sub_password: live_endpoint "ResetSubAccountPassword i u p" MethodPost
  "subaccount_path i u @ ''/password''" "form_body (Some (password_form p))" for i u p
  unfolding ResetSubAccountPassword_def by (intro live_endpoint_then live_endpoints)

end
