(* ===== verification/GoTime.thy ===== *)
theory GoTime
  imports GoJson
begin

text \<open>
  BerlinTime of types.go, with the part of time.Parse it uses. A layout is the list of the chunks that
  nextStdChunk finds in it. A parsed time is the civil date and time of day with the zone offset
  that was written, None for a time in the default location; which instant that is depends on the
  time zone database and is not modelled. The zero time is None.
\<close>

section \<open>Layouts\<close>

datatype chunk =
  Literal string | StdLongYear | StdZeroMonth | StdZeroDay | StdHour | StdZeroMinute
| StdZeroSecond | StdISO8601ColonTZ

abbreviation (input) date_chunks :: "chunk list" where
  "date_chunks \<equiv> [StdLongYear, Literal ''-'', StdZeroMonth, Literal ''-'', StdZeroDay]"

abbreviation (input) clock_chunks :: "chunk list" where
  "clock_chunks \<equiv> [StdHour, Literal '':'', StdZeroMinute, Literal '':'', StdZeroSecond]"

text \<open>The layouts of BerlinTime.UnmarshalJSON in the order in which they are tried.\<close>

definition berlin_formats :: "chunk list list" where
  "berlin_formats =
     [date_chunks @ [Literal '' ''] @ clock_chunks,
      date_chunks @ [Literal ''T''] @ clock_chunks @ [StdISO8601ColonTZ],
      date_chunks @ [Literal ''T''] @ clock_chunks,
      date_chunks]"

section \<open>Parsing\<close>

record civil =
  Yr :: nat
  Mon :: nat
  Dy :: nat
  Hr :: nat
  Mi :: nat
  Sc :: nat
  Nano :: nat
  Offset :: "int option"

abbreviation (input) is_blank :: "char \<Rightarrow> bool" where "is_blank c \<equiv> c = CHR '' ''"

function skip :: "string \<Rightarrow> string \<Rightarrow> string option" where
  "skip [] v = Some v"
| "skip (p # ps) v =
     (if p = CHR '' '' then
        (if v \<noteq> [] \<and> hd v \<noteq> CHR '' '' then None
         else skip (dropWhile is_blank ps) (dropWhile is_blank v))
      else (case v of [] \<Rightarrow> None | c # cs \<Rightarrow> if c = p then skip ps cs else None))"
  by pat_completeness auto
termination
  by (relation "measure (\<lambda>(p, v). length p)") (auto simp: less_Suc_eq_le length_dropWhile_le)

definition getnum :: "bool \<Rightarrow> string \<Rightarrow> (nat \<times> string) option" where
  "getnum fixed s =
     (case s of [] \<Rightarrow> None | c # r \<Rightarrow>
       (case digit_val c of None \<Rightarrow> None | Some a \<Rightarrow>
         (case r of
            [] \<Rightarrow> if fixed then None else Some (a, r)
          | d # r' \<Rightarrow>
             (case digit_val d of
                Some b \<Rightarrow> Some (a * 10 + b, r')
              | None \<Rightarrow> if fixed then None else Some (a, r)))))"

definition in_bounds :: "nat \<Rightarrow> nat \<Rightarrow> (nat \<times> string) option \<Rightarrow> (nat \<times> string) option" where
  "in_bounds lo hi r = Option.bind r (\<lambda>(n, s). if lo \<le> n \<and> n \<le> hi then Some (n, s) else None)"

definition getyear :: "string \<Rightarrow> (nat \<times> string) option" where
  "getyear s =
     (if length s < 4 then None
      else (case uint_loop 9999 0 (take 4 s) of Inr y \<Rightarrow> Some (y, drop 4 s) | Inl e \<Rightarrow> None))"

text \<open>A fraction of a second is read although no layout has one; digits after the ninth are dropped.\<close>

definition getnano :: "string \<Rightarrow> nat \<times> string" where
  "getnano s =
     (case s of
        c # d # r \<Rightarrow>
          if (c = CHR ''.'' \<or> c = CHR '','') \<and> digit_val d \<noteq> None then
            (let ds = takeWhile (\<lambda>x. digit_val x \<noteq> None) (d # r); kept = take 9 ds
             in (case uint_loop (10 ^ 9) 0 kept of Inr n \<Rightarrow> n * 10 ^ (9 - length kept) | Inl e \<Rightarrow> 0,
                 drop (length ds) (d # r)))
          else (0, s)
      | _ \<Rightarrow> (0, s))"

definition getzone :: "string \<Rightarrow> (int \<times> string) option" where
  "getzone s =
     (if HasPrefix s ''Z'' then Some (0, drop 1 s)
      else if length s < 6 \<or> s ! 3 \<noteq> CHR '':'' then None
      else (case (in_bounds 0 24 (getnum True (take 2 (drop 1 s))), in_bounds 0 60 (getnum True (take 2 (drop 4 s)))) of
              (Some (hh, _), Some (mm, _)) \<Rightarrow>
                (if s ! 0 = CHR ''+'' then Some (int ((hh * 60 + mm) * 60), drop 6 s)
                 else if s ! 0 = CHR ''-'' then Some (- int ((hh * 60 + mm) * 60), drop 6 s)
                 else None)
            | _ \<Rightarrow> None))"

definition leap :: "nat \<Rightarrow> bool" where
  "leap y \<longleftrightarrow> y mod 4 = 0 \<and> (y mod 100 \<noteq> 0 \<or> y mod 400 = 0)"

definition daysIn :: "nat \<Rightarrow> nat \<Rightarrow> nat" where
  "daysIn m y =
     (if m = 2 then (if leap y then 29 else 28) else if m \<in> {4, 6, 9, 11} then 30 else 31)"

text \<open>What one chunk of a layout reads, and the loop over the chunks.\<close>

definition put :: "(nat \<times> string) option \<Rightarrow> (nat \<Rightarrow> civil) \<Rightarrow> (civil \<times> string) option" where
  "put r f = map_option (\<lambda>(n, s). (f n, s)) r"

fun read_chunk :: "chunk \<Rightarrow> string \<Rightarrow> civil \<Rightarrow> (civil \<times> string) option" where
  "read_chunk (Literal p) s t = map_option (Pair t) (skip p s)"
| "read_chunk StdLongYear s t = put (getyear s) (\<lambda>n. t\<lparr>Yr := n\<rparr>)"
| "read_chunk StdZeroMonth s t = put (in_bounds 1 12 (getnum True s)) (\<lambda>n. t\<lparr>Mon := n\<rparr>)"
| "read_chunk StdZeroDay s t = put (getnum True s) (\<lambda>n. t\<lparr>Dy := n\<rparr>)"
| "read_chunk StdHour s t = put (in_bounds 0 23 (getnum False s)) (\<lambda>n. t\<lparr>Hr := n\<rparr>)"
| "read_chunk StdZeroMinute s t = put (in_bounds 0 59 (getnum True s)) (\<lambda>n. t\<lparr>Mi := n\<rparr>)"
| "read_chunk StdZeroSecond s t =
     Option.bind (in_bounds 0 59 (getnum True s)) (\<lambda>(n, r).
       let (ns, r') = getnano r in Some (t\<lparr>Sc := n, Nano := ns\<rparr>, r'))"
| "read_chunk StdISO8601ColonTZ s t = map_option (\<lambda>(z, r). (t\<lparr>Offset := Some z\<rparr>, r)) (getzone s)"

fun parse_chunks :: "chunk list \<Rightarrow> string \<Rightarrow> civil \<Rightarrow> civil option" where
  "parse_chunks [] s t = (if s = [] then Some t else None)"
| "parse_chunks (ch # chs) s t = Option.bind (read_chunk ch s t) (\<lambda>(t', r). parse_chunks chs r t')"

definition time_Parse :: "chunk list \<Rightarrow> string \<Rightarrow> civil option" where
  "time_Parse layout s =
     Option.bind
       (parse_chunks layout s \<lparr>Yr = 0, Mon = 1, Dy = 1, Hr = 0, Mi = 0, Sc = 0, Nano = 0, Offset = None\<rparr>)
       (\<lambda>t. if 1 \<le> Dy t \<and> Dy t \<le> daysIn (Mon t) (Yr t) then Some t else None)"

section \<open>BerlinTime\<close>

type_synonym BerlinTime = "civil option"

fun first_format :: "chunk list list \<Rightarrow> string \<Rightarrow> civil option" where
  "first_format [] s = None"
| "first_format (f # fs) s = (case time_Parse f s of Some t \<Rightarrow> Some t | None \<Rightarrow> first_format fs s)"

fun dec_BerlinTime :: "BerlinTime decoder" where
  "dec_BerlinTime JNull x = Ok None"
| "dec_BerlinTime (JStr s) x =
     (case first_format berlin_formats s of
        Some t \<Rightarrow> Ok (Some t)
      | None \<Rightarrow> Err (ErrorString (''unable to parse timestamp: '' @ s)))"
| "dec_BerlinTime _ x = Err type_error"

section \<open>The wire format reads back\<close>

definition pad2 :: "nat \<Rightarrow> string" where
  "pad2 n = [digit_char (n div 10), digit_char (n mod 10)]"

text \<open>The layout that MarshalJSON writes, for a time that is already in the default location.\<close>

definition wire_time :: "civil \<Rightarrow> string" where
  "wire_time t = pad2 (Yr t div 100) @ pad2 (Yr t mod 100) @ ''-'' @ pad2 (Mon t) @ ''-'' @ pad2 (Dy t)
     @ '' '' @ pad2 (Hr t) @ '':'' @ pad2 (Mi t) @ '':'' @ pad2 (Sc t)"

definition valid_civil :: "civil \<Rightarrow> bool" where
  "valid_civil t \<longleftrightarrow> Yr t < 10000 \<and> Mon t \<in> {1..12} \<and> Dy t \<in> {1..daysIn (Mon t) (Yr t)}
     \<and> Hr t < 24 \<and> Mi t < 60 \<and> Sc t < 60"

lemma getnum_pad2: "n < 100 \<Longrightarrow> getnum fixed (pad2 n @ s) = Some (n, s)"
  by (simp add: getnum_def pad2_def less_mult_imp_div_less)

lemma getyear_pad: "n < 10000 \<Longrightarrow> getyear (pad2 (n div 100) @ pad2 (n mod 100) @ s) = Some (n, s)"
proof -
  assume n: "n < 10000"
  have d: "n div 100 div 10 < 10" "n mod 100 div 10 < 10" using n by (simp_all add: less_mult_imp_div_less)
  have e: "10 * (n div 100 div 10) + n div 100 mod 10 = n div 100" "10 * (n mod 100 div 10) + n mod 100 mod 10 = n mod 100"
    "100 * (n div 100) + n mod 100 = n" by (rule mult_div_mod_eq)+
  have b: "n div 100 mod 10 < 10" "n mod 100 mod 10 < 10" by simp_all
  have "uint_loop 9999 0 (pad2 (n div 100) @ pad2 (n mod 100)) = Inr n"
    using d b e n by (simp add: pad2_def del: mult_div_mod_eq) linarith
  then show ?thesis by (simp add: getyear_def pad2_def)
qed

lemma skip_one: "c \<noteq> CHR '' '' \<Longrightarrow> skip [c] (c # s) = Some s"
  by simp

lemma skip_blank: "n < 100 \<Longrightarrow> skip '' '' (CHR '' '' # pad2 n @ s) = Some (pad2 n @ s)"
proof -
  assume "n < 100"
  then have "n div 10 < 10" by (simp add: less_mult_imp_div_less)
  then have "digit_char (n div 10) \<noteq> CHR '' ''"
    using digit_char_graphic [of "n div 10"] by (auto simp: graphic_def in_range_def byte_def)
  then show ?thesis by (simp add: pad2_def)
qed

lemma read_wire_time:
  assumes "valid_civil t" and "Nano t = 0" and "Offset t = None"
  shows "first_format berlin_formats (wire_time t) = Some t"
proof -
  have b: "Yr t < 10000" "Mon t < 100" "Dy t < 100" "Hr t < 100" "Mi t < 100" "Sc t < 100"
    "1 \<le> Mon t" "Mon t \<le> 12" "Hr t \<le> 23" "Mi t \<le> 59" "Sc t \<le> 59" "1 \<le> Dy t" "Dy t \<le> daysIn (Mon t) (Yr t)"
    using assms(1) by (auto simp: valid_civil_def daysIn_def split: if_splits)
  have last: "getnum True (pad2 (Sc t)) = Some (Sc t, [])" using getnum_pad2 [OF b(6), of True "[]"] by simp
  have "time_Parse (date_chunks @ [Literal '' ''] @ clock_chunks) (wire_time t) = Some t"
    using b assms(2,3)
    by (simp add: time_Parse_def wire_time_def put_def in_bounds_def getyear_pad getnum_pad2 skip_blank last getnano_def
        del: skip.simps add: skip_one)
  then show ?thesis by (simp add: berlin_formats_def)
qed

section \<open>Whatever is read is a date\<close>

definition in_clock :: "civil \<Rightarrow> bool" where
  "in_clock t \<longleftrightarrow> Yr t < 10000 \<and> Mon t \<in> {1..12} \<and> Hr t < 24 \<and> Mi t < 60 \<and> Sc t < 60"

lemma in_boundsD: "in_bounds lo hi r = Some (n, s) \<Longrightarrow> lo \<le> n \<and> n \<le> hi"
  by (auto simp: in_bounds_def Option.bind_eq_Some_conv split: if_splits)

lemma getyear_less: "getyear s = Some (n, r) \<Longrightarrow> n < 10000"
  by (auto simp: getyear_def split: if_splits sum.splits dest: uint_loop_bound)

lemma read_chunk_in_clock: "read_chunk ch s t = Some (t', r) \<Longrightarrow> in_clock t \<Longrightarrow> in_clock t'"
  by (cases ch)
    (auto simp: in_clock_def put_def Option.bind_eq_Some_conv Let_def split_beta
      dest!: in_boundsD getyear_less)

lemma parse_chunks_in_clock: "parse_chunks chs s t = Some t' \<Longrightarrow> in_clock t \<Longrightarrow> in_clock t'"
  by (induction chs arbitrary: s t)
    (auto simp: Option.bind_eq_Some_conv split: if_splits dest: read_chunk_in_clock)

lemma time_Parse_valid: "time_Parse f s = Some t \<Longrightarrow> valid_civil t"
  by (auto simp: time_Parse_def Option.bind_eq_Some_conv valid_civil_def in_clock_def split: if_splits
      dest!: parse_chunks_in_clock)

lemma first_format_valid: "first_format fs s = Some t \<Longrightarrow> valid_civil t"
  by (induction fs) (auto split: option.splits dest: time_Parse_valid)

end
