(* ===== verification/Keys.thy ===== *)
theory Keys
  imports GoTime Forms
begin

text \<open>key.go: the SSH keys, addressed by their fingerprint.\<close>

record SSHKey =
  KeyName :: string
  Fingerprint :: string
  KeyType :: string
  KeySize :: int
  KeyData :: string
  CreatedAt :: BerlinTime

definition zero_SSHKey :: SSHKey where
  "zero_SSHKey = \<lparr>KeyName = [], Fingerprint = [], KeyType = [], KeySize = 0, KeyData = [], CreatedAt = None\<rparr>"

definition dec_SSHKey :: "SSHKey decoder" where
  "dec_SSHKey = dec_struct
     [fld ''name'' dec_string KeyName KeyName_update,
      fld ''fingerprint'' dec_string Fingerprint Fingerprint_update,
      fld ''type'' dec_string KeyType KeyType_update,
      fld ''size'' dec_int KeySize KeySize_update,
      fld ''data'' dec_string KeyData KeyData_update,
      fld ''created_at'' dec_BerlinTime CreatedAt CreatedAt_update]"

definition key_target :: "SSHKey target" where "key_target = (zero_SSHKey, Some dec_SSHKey)"

definition key_path :: "string \<Rightarrow> string" where
  "key_path fingerprint = ''/key/'' @ PathEscape fingerprint"

definition key_List :: "SSHKey list call" where
  "key_List c w = client_Get c w ''/key'' ([], Some (dec_list zero_SSHKey dec_SSHKey))"

definition key_Get :: "string \<Rightarrow> SSHKey call" where
  "key_Get fingerprint c w = client_Get c w (key_path fingerprint) key_target"

definition key_form :: "string \<Rightarrow> string \<Rightarrow> Values" where
  "key_form name data = Values_Set (Values_Set [] ''name'' name) ''data'' data"

definition key_Create :: "string \<Rightarrow> string \<Rightarrow> SSHKey call" where
  "key_Create name data c w = client_Post c w ''/key'' (Some (key_form name data)) key_target"

definition key_Rename :: "string \<Rightarrow> string \<Rightarrow> SSHKey call" where
  "key_Rename fingerprint newName c w =
     client_Post c w (key_path fingerprint) (Some (Values_Set [] ''name'' newName)) key_target"

definition key_Delete :: "string \<Rightarrow> unit call" where
  "key_Delete fingerprint c w = client_Delete c w (key_path fingerprint)"

interpretation key_list: live_endpoint key_List MethodGet "''/key''" "[]"
  unfolding key_List_def by (rule live_endpoints)

interpretation key_get: live_endpoint "key_Get f" MethodGet "key_path f" "[]" for f
  unfolding key_Get_def by (rule live_endpoints)

interpretation key_create: live_endpoint "key_Create n d" MethodPost "''/key''" "form_body (Some (key_form n d))" for n d
  unfolding key_Create_def by (rule live_endpoints)

interpretation key_rename: live_endpoint "key_Rename f n" MethodPost "key_path f"
  "form_body (Some (Values_Set [] ''name'' n))" for f n
  unfolding key_Rename_def by (rule live_endpoints)

interpretation key_delete: live_endpoint "key_Delete f" MethodDelete "key_path f" "[]" for f
  unfolding key_Delete_def by (rule live_endpoints)

end
