(* ===== verification/Rdns.thy ===== *)
theory Rdns
  imports Forms
begin

text \<open>rdns.go: the reverse DNS entries, addressed by IP address, with an optional filter by server.\<close>

record RDNS =
  RdnsIP :: string
  PTR :: string

definition zero_RDNS :: RDNS where "zero_RDNS = \<lparr>RdnsIP = [], PTR = []\<rparr>"

definition dec_RDNS :: "RDNS decoder" where
  "dec_RDNS = dec_struct [fld ''ip'' dec_string RdnsIP RdnsIP_update, fld ''ptr'' dec_string PTR PTR_update]"

definition rdns_target :: "RDNS target" where "rdns_target = (zero_RDNS, Some dec_RDNS)"

definition rdns_path :: "string \<Rightarrow> string" where
  "rdns_path ip = ''/rdns/'' @ PathEscape ip"

definition rdns_list_path :: "string \<Rightarrow> string" where
  "rdns_list_path serverIP =
     (let path = ''/rdns''
      in if serverIP \<noteq> [] then path @ ''?'' @ Encode (Values_Set [] ''server_ip'' serverIP) else path)"

definition rdns_List :: "string \<Rightarrow> RDNS list call" where
  "rdns_List serverIP c w =
     client_Get c w (rdns_list_path serverIP) ([], Some (dec_list zero_RDNS dec_RDNS))"

definition rdns_Get :: "string \<Rightarrow> RDNS call" where
  "rdns_Get ip c w = client_Get c w (rdns_path ip) rdns_target"

definition rdns_Create :: "string \<Rightarrow> string \<Rightarrow> RDNS call" where
  "rdns_Create ip ptr c w = client_Put c w (rdns_path ip) (Some (Values_Set [] ''ptr'' ptr)) rdns_target"

definition rdns_Update :: "string \<Rightarrow> string \<Rightarrow> RDNS call" where
  "rdns_Update ip ptr c w = client_Post c w (rdns_path ip) (Some (Values_Set [] ''ptr'' ptr)) rdns_target"

definition rdns_Delete :: "string \<Rightarrow> unit call" where
  "rdns_Delete ip c w = client_Delete c w (rdns_path ip)"

interpretation rdns_list: live_endpoint "rdns_List s" MethodGet "rdns_list_path s" "[]" for s
  unfolding rdns_List_def by (rule live_endpoints)

interpretation rdns_get: live_endpoint "rdns_Get ip" MethodGet "rdns_path ip" "[]" for ip
  unfolding rdns_Get_def by (rule live_endpoints)

interpretation rdns_create: live_endpoint "rdns_Create ip ptr" MethodPut "rdns_path ip"
  "form_body (Some (Values_Set [] ''ptr'' ptr))" for ip ptr
  unfolding rdns_Create_def by (rule live_endpoints)

interpretation rdns_update: live_endpoint "rdns_Update ip ptr" MethodPost "rdns_path ip"
  "form_body (Some (Values_Set [] ''ptr'' ptr))" for ip ptr
  unfolding rdns_Update_def by (rule live_endpoints)

interpretation rdns_delete: live_endpoint "rdns_Delete ip" MethodDelete "rdns_path ip" "[]" for ip
  unfolding rdns_Delete_def by (rule live_endpoints)

end
