(* ===== verification/Failovers.thy ===== *)
theory Failovers
  imports Forms
begin

text \<open>failover.go: the failover addresses and the server each is routed to, None when unrouted.\<close>

record Failover =
  FailoverIP :: string
  Netmask :: string
  FailoverServerIP :: string
  FailoverServerIPv6Net :: string
  FailoverServerNumber :: int
  ActiveServerIP :: "string option"

definition zero_Failover :: Failover where
  "zero_Failover = \<lparr>FailoverIP = [], Netmask = [], FailoverServerIP = [], FailoverServerIPv6Net = [],
     FailoverServerNumber = 0, ActiveServerIP = None\<rparr>"

definition dec_Failover :: "Failover decoder" where
  "dec_Failover = dec_struct
     [fld ''ip'' dec_string FailoverIP FailoverIP_update,
      fld ''netmask'' dec_string Netmask Netmask_update,
      fld ''server_ip'' dec_string FailoverServerIP FailoverServerIP_update,
      fld ''server_ipv6_net'' dec_string FailoverServerIPv6Net FailoverServerIPv6Net_update,
      fld ''server_number'' dec_int FailoverServerNumber FailoverServerNumber_update,
      fld ''active_server_ip'' (dec_ptr [] dec_string) ActiveServerIP ActiveServerIP_update]"

definition failover_target :: "Failover target" where
  "failover_target = (zero_Failover, Some dec_Failover)"

definition failover_path :: "string \<Rightarrow> string" where
  "failover_path ip = ''/failover/'' @ PathEscape ip"

definition failover_List :: "Failover list call" where
  "failover_List c w = client_Get c w ''/failover'' ([], Some (dec_list zero_Failover dec_Failover))"

definition failover_Get :: "string \<Rightarrow> Failover call" where
  "failover_Get ip c w = client_Get c w (failover_path ip) failover_target"

definition failover_Update :: "string \<Rightarrow> string \<Rightarrow> Failover call" where
  "failover_Update ip activeServerIP c w =
     client_Post c w (failover_path ip) (Some (Values_Set [] ''active_server_ip'' activeServerIP)) failover_target"

definition failover_Delete :: "string \<Rightarrow> unit call" where
  "failover_Delete ip c w = client_Delete c w (failover_path ip)"

interpretation failover_list: live_endpoint failover_List MethodGet "''/failover''" "[]"
  unfolding failover_List_def by (rule live_endpoints)

interpretation failover_get: live_endpoint "failover_Get ip" MethodGet "failover_path ip" "[]" for ip
  unfolding failover_Get_def by (rule live_endpoints)

interpretation failover_update: live_endpoint "failover_Update ip a" MethodPost "failover_path ip"
  "form_body (Some (Values_Set [] ''active_server_ip'' a))" for ip a
  unfolding failover_Update_def by (rule live_endpoints)

interpretation failover_delete: live_endpoint "failover_Delete ip" MethodDelete "failover_path ip" "[]" for ip
  unfolding failover_Delete_def by (rule live_endpoints)

end
