(* ===== verification/NetIP.thy ===== *)
theory NetIP
  imports GoJson "HOL-Library.Word"
begin

text \<open>
  The part of Go's net package that the IP resources use: a net.IP is a slice of bytes, To4 and To16
  give its canonical forms, String prints the dotted form or the compressed form of RFC 5952, and
  ParseIP reads both (netip.ParseAddr without a zone). Printing and parsing are inverse on the
  addresses of 4 or 16 bytes.
\<close>

section \<open>Addresses\<close>

type_synonym IP = "8 word list"

definition v4InV6Prefix :: IP where
  "v4InV6Prefix = replicate 10 0 @ [255, 255]"

definition To4 :: "IP \<Rightarrow> IP option" where
  "To4 ip =
     (if length ip = 4 then Some ip
      else if length ip = 16 \<and> take 12 ip = v4InV6Prefix then Some (drop 12 ip)
      else None)"

definition To16 :: "IP \<Rightarrow> IP option" where
  "To16 ip =
     (if length ip = 4 then Some (v4InV6Prefix @ ip)
      else if length ip = 16 then Some ip
      else None)"

section \<open>Printing\<close>

definition lower_hex :: "nat \<Rightarrow> char" where
  "lower_hex d = char_of (if d < 10 then 48 + d else 87 + d)"

definition appendHex :: "nat \<Rightarrow> string" where
  "appendHex x =
     (if x \<ge> 0x1000 then [lower_hex (x div 4096)] else [])
     @ (if x \<ge> 0x100 then [lower_hex (x div 256 mod 16)] else [])
     @ (if x \<ge> 0x10 then [lower_hex (x div 16 mod 16)] else [])
     @ [lower_hex (x mod 16)]"

text \<open>The 16-bit groups of an address, and the bytes of a list of groups.\<close>

fun groups :: "IP \<Rightarrow> nat list" where
  "groups (a # b # r) = (256 * unat a + unat b) # groups r"
| "groups _ = []"

definition group_bytes :: "nat \<Rightarrow> IP" where
  "group_bytes g = [of_nat (g div 256), of_nat (g mod 256)]"

text \<open>The first longest run of at least two zero groups; the loop starts without one.\<close>

definition run_at :: "nat list \<Rightarrow> nat \<Rightarrow> nat" where
  "run_at gs i = length (takeWhile (\<lambda>g. g = 0) (drop i gs))"

definition zero_run :: "nat list \<Rightarrow> (nat \<times> nat) option" where
  "zero_run gs =
     fold (\<lambda>i best.
         let l = run_at gs i
         in if l \<ge> 2 \<and> l > (case best of None \<Rightarrow> 0 | Some (s, e) \<Rightarrow> e - s) then Some (i, i + l) else best)
       [0..<8] None"

definition print6 :: "nat list \<Rightarrow> string" where
  "print6 gs =
     (case zero_run gs of
        None \<Rightarrow> Join (map appendHex gs) '':''
      | Some (s, e) \<Rightarrow>
          Join (map appendHex (take s gs)) '':'' @ ''::'' @ Join (map appendHex (drop e gs)) '':'')"

definition print4 :: "IP \<Rightarrow> string" where
  "print4 ip = Join (map (\<lambda>b. dec_of_nat (unat b)) ip) ''.''"

definition IP_String :: "IP \<Rightarrow> string" where
  "IP_String ip =
     (if ip = [] then ''<nil>''
      else if length ip \<noteq> 4 \<and> length ip \<noteq> 16 then
        CHR ''?'' # concat (map (\<lambda>b. [lower_hex (unat b div 16), lower_hex (unat b mod 16)]) ip)
      else (case To4 ip of Some p4 \<Rightarrow> print4 p4 | None \<Rightarrow> print6 (groups ip)))"

section \<open>Parsing\<close>

definition parse_octet :: "string \<Rightarrow> 8 word option" where
  "parse_octet p =
     (if p = [] \<or> (length p > 1 \<and> hd p = CHR ''0'') then None
      else (case uint_loop 255 0 p of Inr n \<Rightarrow> Some (of_nat n) | Inl e \<Rightarrow> None))"

definition parse4 :: "string \<Rightarrow> IP option" where
  "parse4 s =
     (let ps = split_on CHR ''.'' s
      in if length ps = 4 then those (map parse_octet ps) else None)"

definition hex_loop :: "string \<Rightarrow> nat" where
  "hex_loop h = foldl (\<lambda>acc c. acc * 16 + (case hex_val c of Some d \<Rightarrow> d | None \<Rightarrow> 0)) 0 h"

definition hex_digit :: "char \<Rightarrow> bool" where "hex_digit c \<longleftrightarrow> hex_val c \<noteq> None"

text \<open>
  The loop over the groups: the number of groups that still fit, the bytes so far, the position of
  the ellipsis and the text left. The text that is left over at the end is part of the result.
\<close>

fun v6_loop :: "nat \<Rightarrow> IP \<Rightarrow> nat option \<Rightarrow> string \<Rightarrow> (IP \<times> nat option \<times> string) option" where
  "v6_loop 0 ip ell s = Some (ip, ell, s)"
| "v6_loop (Suc k) ip ell s =
     (let h = takeWhile hex_digit s; rest = drop (length h) s; ip' = ip @ group_bytes (hex_loop h)
      in if h = [] \<or> length h > 4 then None
         else (case rest of
                 [] \<Rightarrow> Some (ip', ell, [])
               | c # t \<Rightarrow>
                  (if c = CHR ''.'' then
                     (if (ell = None \<and> length ip \<noteq> 12) \<or> length ip + 4 > 16 then None
                      else map_option (\<lambda>b. (ip @ b, ell, [])) (parse4 s))
                   else if c \<noteq> CHR '':'' then None
                   else (case t of
                           [] \<Rightarrow> None
                         | d # t' \<Rightarrow>
                            (if d = CHR '':'' then
                               (if ell \<noteq> None then None
                                else if t' = [] then Some (ip', Some (length ip'), [])
                                else v6_loop k ip' (Some (length ip')) t')
                             else v6_loop k ip' ell t)))))"

definition finish6 :: "IP \<times> nat option \<times> string \<Rightarrow> IP option" where
  "finish6 r =
     (case r of (ip, ell, s) \<Rightarrow>
       (if s \<noteq> [] then None
        else if length ip < 16 then
          (case ell of None \<Rightarrow> None
           | Some e \<Rightarrow> Some (take e ip @ replicate (16 - length ip) 0 @ drop e ip))
        else if ell \<noteq> None then None
        else Some ip))"

definition parse6 :: "string \<Rightarrow> IP option" where
  "parse6 s =
     (if CHR ''%'' \<in> set s then None
      else if HasPrefix s ''::'' then
        (if drop 2 s = [] then Some (replicate 16 0)
         else Option.bind (v6_loop 8 [] (Some 0) (drop 2 s)) finish6)
      else Option.bind (v6_loop 8 [] None s) finish6)"

text \<open>net.ParseIP; an IPv4 address comes out in its 16-byte form.\<close>

definition ParseIP :: "string \<Rightarrow> IP option" where
  "ParseIP s =
     (case dropWhile (\<lambda>c. c \<notin> {CHR ''.'', CHR '':'', CHR ''%''}) s of
        [] \<Rightarrow> None
      | c # r \<Rightarrow>
          (if c = CHR ''.'' then map_option (\<lambda>b. v4InV6Prefix @ b) (parse4 s)
           else if c = CHR '':'' then parse6 s
           else None))"

text \<open>UnmarshalText of net.IP under encoding/json: null and the empty text give a nil address.\<close>

fun dec_IP :: "IP decoder" where
  "dec_IP (JStr s) x =
     (if s = [] then Ok []
      else (case ParseIP s of Some ip \<Rightarrow> Ok ip
            | None \<Rightarrow> Err (ErrorString (''invalid IP address: '' @ s))))"
| "dec_IP JNull x = Ok []"
| "dec_IP _ x = Err type_error"

section \<open>Groups of hexadecimal digits\<close>

lemma hex_val_lower_hex [simp]: "d < 16 \<Longrightarrow> hex_val (lower_hex d) = Some d"
  by (auto simp: hex_val_def lower_hex_def in_range_def byte_def)

lemma hex_loop_appendHex: "g < 65536 \<Longrightarrow> hex_loop (appendHex g) = g"
proof -
  assume g: "g < 65536"
  then have top: "g div 4096 < 16" by (simp add: less_mult_imp_div_less)
  have e: "16 * (g div 16) + g mod 16 = g" "16 * (g div 256) + g div 16 mod 16 = g div 16"
    "16 * (g div 4096) + g div 256 mod 16 = g div 256"
    using div_mult2_eq [of g 16 16] div_mult2_eq [of g 256 16]
      mult_div_mod_eq [of 16 "g div 16"] mult_div_mod_eq [of 16 "g div 256"] by simp_all
  have "\<not> 4096 \<le> g \<Longrightarrow> g div 4096 = 0" "\<not> 256 \<le> g \<Longrightarrow> g div 256 = 0" "\<not> 16 \<le> g \<Longrightarrow> g div 16 = 0" by simp_all
  then show ?thesis
    by (cases "4096 \<le> g"; cases "256 \<le> g"; cases "16 \<le> g")
      (simp_all add: appendHex_def hex_loop_def top, (use e in linarith)+)
qed

lemma appendHex_digits: "g < 65536 \<Longrightarrow> list_all hex_digit (appendHex g)"
  by (auto simp: appendHex_def hex_digit_def less_mult_imp_div_less)

lemma appendHex_length: "appendHex g \<noteq> [] \<and> length (appendHex g) \<le> 4"
  by (simp add: appendHex_def)

lemma group_bytes_groups: "even (length ip) \<Longrightarrow> concat (map group_bytes (groups ip)) = ip"
  proof (induction ip rule: groups.induct)
  case (1 a b r)
  have "unat b < 256" using unsigned_less [of b] by simp
  with 1 show ?case by (simp add: group_bytes_def)
qed simp_all

lemma groups_length: "length (groups ip) = length ip div 2"
  by (induction ip rule: groups.induct) simp_all

lemma groups_less: "g \<in> set (groups ip) \<Longrightarrow> g < 65536"
proof (induction ip rule: groups.induct)
  case (1 a b r)
  have "unat a < 256" "unat b < 256" using unsigned_less [of a] unsigned_less [of b] by simp_all
  with 1 show ?case by auto
qed simp_all

definition wf_run :: "nat list \<Rightarrow> (nat \<times> nat) option \<Rightarrow> bool" where
  "wf_run gs r \<longleftrightarrow> (case r of None \<Rightarrow> True
     | Some (s, e) \<Rightarrow> s + 2 \<le> e \<and> e \<le> length gs \<and> take (e - s) (drop s gs) = replicate (e - s) 0)"

lemma takeWhile_zeros: "takeWhile (\<lambda>g. g = 0) xs = replicate (length (takeWhile (\<lambda>g. g = 0) xs)) (0::nat)"
  by (induction xs) auto

lemma zero_run_wf: "wf_run gs (zero_run gs)"
proof -
  have step: "wf_run gs (Some (i, i + run_at gs i))" if "2 \<le> run_at gs i" for i
  proof -
    have "run_at gs i \<le> length (drop i gs)" by (simp only: run_at_def length_takeWhile_le)
    moreover have "take (run_at gs i) (drop i gs) = replicate (run_at gs i) 0"
      unfolding run_at_def using takeWhile_zeros by (metis takeWhile_eq_take)
    ultimately show ?thesis using that by (auto simp: wf_run_def)
  qed
  have "wf_run gs b \<Longrightarrow> wf_run gs (fold (\<lambda>i best. let l = run_at gs i
      in if l \<ge> 2 \<and> l > (case best of None \<Rightarrow> 0 | Some (s, e) \<Rightarrow> e - s) then Some (i, i + l) else best) is b)" for "is" b
    by (induction "is" arbitrary: b) (auto simp: Let_def step)
  then show ?thesis by (simp add: zero_run_def wf_run_def)
qed

abbreviation (input) group_text :: "nat list \<Rightarrow> string" where
  "group_text gs \<equiv> Join (map appendHex gs) '':''"

abbreviation (input) small :: "nat list \<Rightarrow> bool" where "small gs \<equiv> \<forall>g \<in> set gs. g < 65536"

lemma colon_not_hex [simp]: "\<not> hex_digit CHR '':''" and dot_not_hex [simp]: "\<not> hex_digit CHR ''.''"
  by code_simp+

lemma hd_appendHex: "g < 65536 \<Longrightarrow> \<exists>c t. appendHex g = c # t \<and> hex_digit c \<and> c \<noteq> CHR '':''"
  using appendHex_digits [of g] appendHex_length [of g] by (cases "appendHex g") auto

lemma hd_group_text: "gs \<noteq> [] \<Longrightarrow> small gs \<Longrightarrow> \<exists>c t. group_text gs = c # t \<and> hex_digit c \<and> c \<noteq> CHR '':''"
  using hd_appendHex by (cases gs) (fastforce simp: Join_Cons)+

lemma v6_group:
  assumes "g < 65536" and "rest = [] \<or> (\<exists>t. rest = CHR '':'' # t)"
  shows "takeWhile hex_digit (appendHex g @ rest) = appendHex g"
  using assms appendHex_digits [OF assms(1)] by (auto simp: list_all_iff takeWhile_append2)

lemma v6_step:
  assumes "g < 65536" and "rest = [] \<or> (\<exists>t. rest = CHR '':'' # t)"
  shows "v6_loop (Suc k) ip ell (appendHex g @ rest) =
    (let ip' = ip @ group_bytes g
     in case rest of
          [] \<Rightarrow> Some (ip', ell, [])
        | c # t \<Rightarrow>
           (case t of
              [] \<Rightarrow> None
            | d # t' \<Rightarrow>
               (if d = CHR '':'' then
                  (if ell \<noteq> None then None
                   else if t' = [] then Some (ip', Some (length ip'), [])
                   else v6_loop k ip' (Some (length ip')) t')
                else v6_loop k ip' ell t)))"
  using assms(2) appendHex_length [of g]
  by (auto simp: v6_group [OF assms] hex_loop_appendHex [OF assms(1)] Let_def split: list.splits)

declare v6_loop.simps(2) [simp del]

lemma v6_tail:
  "gs \<noteq> [] \<Longrightarrow> small gs \<Longrightarrow> length gs \<le> k \<Longrightarrow>
   v6_loop k ip ell (group_text gs) = Some (ip @ concat (map group_bytes gs), ell, [])"
proof (induction gs arbitrary: k ip rule: list_nonempty_induct)
  case (single g)
  then obtain k' where "k = Suc k'" by (cases k) auto
  with single v6_step [of g "[]" k' ip ell] show ?case by simp
next
  case (cons g gs)
  then obtain k' where k: "k = Suc k'" by (cases k) auto
  obtain c t where ct: "group_text gs = c # t" "c \<noteq> CHR '':''"
    using hd_group_text [of gs] cons.hyps cons.prems by auto
  have "v6_loop k ip ell (group_text (g # gs)) = v6_loop k' (ip @ group_bytes g) ell (group_text gs)"
    using v6_step [of g "CHR '':'' # group_text gs" k' ip ell] cons.prems cons.hyps ct k
    by (simp add: Join_Cons)
  with cons k show ?case by simp
qed

lemma v6_head:
  assumes "rest = [] \<or> (\<exists>c t. rest = c # t \<and> c \<noteq> CHR '':'')"
  shows "gs \<noteq> [] \<Longrightarrow> small gs \<Longrightarrow> length gs \<le> k \<Longrightarrow>
   v6_loop k ip None (group_text gs @ ''::'' @ rest) =
     (let ip' = ip @ concat (map group_bytes gs)
      in if rest = [] then Some (ip', Some (length ip'), [])
         else v6_loop (k - length gs) ip' (Some (length ip')) rest)"
proof (induction gs arbitrary: k ip rule: list_nonempty_induct)
  case (single g)
  then obtain k' where "k = Suc k'" by (cases k) auto
  with single v6_step [of g "''::'' @ rest" k' ip None] show ?case by (simp add: Let_def)
next
  case (cons g gs)
  then obtain k' where k: "k = Suc k'" by (cases k) auto
  obtain c t where ct: "group_text gs = c # t" "c \<noteq> CHR '':''"
    using hd_group_text [of gs] cons.hyps cons.prems by auto
  have "v6_loop k ip None (group_text (g # gs) @ ''::'' @ rest) =
      v6_loop k' (ip @ group_bytes g) None (group_text gs @ ''::'' @ rest)"
    using v6_step [of g "CHR '':'' # group_text gs @ ''::'' @ rest" k' ip None] cons.prems cons.hyps ct k
    by (simp add: Join_Cons)
  with cons k show ?case by (simp add: Let_def)
qed

section \<open>Printing and parsing are inverse\<close>

lemma bytes_length: "length (concat (map group_bytes gs)) = 2 * length gs"
  by (induction gs) (simp_all add: group_bytes_def)

lemma bytes_of_zeros: "concat (replicate n (group_bytes 0)) = replicate (2 * n) 0"
  by (induction n) (simp_all add: group_bytes_def)

lemma percent_not_hex: "\<not> hex_digit CHR ''%''"
  by code_simp

lemma set_group_text: "small gs \<Longrightarrow> set (group_text gs) \<subseteq> {c. hex_digit c \<or> c = CHR '':''}"
proof
  fix c
  assume "small gs" and "c \<in> set (group_text gs)"
  with set_Join [of "map appendHex gs" "'':''"] have "c = CHR '':'' \<or> (\<exists>g \<in> set gs. c \<in> set (appendHex g))" by auto
  with \<open>small gs\<close> appendHex_digits show "c \<in> {c. hex_digit c \<or> c = CHR '':''}" by (auto simp: list_all_iff)
qed

lemma not_ellipsis: "gs \<noteq> [] \<Longrightarrow> small gs \<Longrightarrow> \<not> HasPrefix (group_text gs @ r) ''::''"
  using hd_group_text [of gs] by (auto simp: HasPrefix_def)

lemma parse6_plain:
  assumes "length gs = 8" and "small gs"
  shows "parse6 (group_text gs) = Some (concat (map group_bytes gs))"
proof -
  have "gs \<noteq> []" using assms(1) by auto
  moreover have "CHR ''%'' \<notin> set (group_text gs)"
    using set_group_text [OF assms(2)] percent_not_hex by auto
  ultimately show ?thesis
    using v6_tail [of gs 8 "[]" None] not_ellipsis [of gs "[]"] assms
    by (simp add: parse6_def finish6_def bytes_length)
qed

lemma parse6_run:
  assumes "small (xs @ ys)" and "length xs + length ys + n = 8" and "2 \<le> n"
  shows "parse6 (group_text xs @ ''::'' @ group_text ys) =
    Some (concat (map group_bytes (xs @ replicate n 0 @ ys)))"
proof -
  let ?b = "\<lambda>gs. concat (map group_bytes gs)"
  have pct: "CHR ''%'' \<notin> set (group_text xs @ ''::'' @ group_text ys)"
    using set_group_text [of xs] set_group_text [of ys] assms(1) percent_not_hex by auto
  have ell: "ys \<noteq> [] \<Longrightarrow> v6_loop (8 - length xs) (?b xs) (Some (2 * length xs)) (group_text ys)
      = Some (?b xs @ ?b ys, Some (2 * length xs), [])"
    using v6_tail [of ys "8 - length xs" "?b xs" "Some (2 * length xs)"] assms by simp
  have fin: "finish6 (?b xs @ ?b ys, Some (2 * length xs), []) = Some (?b (xs @ replicate n 0 @ ys))"
  proof -
    have "length (?b xs @ ?b ys) < 16" and "16 - length (?b xs @ ?b ys) = 2 * n"
      using assms(2,3) bytes_length [of xs] bytes_length [of ys] by simp_all
    then show ?thesis by (simp add: finish6_def bytes_length bytes_of_zeros)
  qed
  have rest: "group_text ys = [] \<longleftrightarrow> ys = []" "group_text ys = [] \<or> (\<exists>c t. group_text ys = c # t \<and> c \<noteq> CHR '':'')"
    using hd_group_text [of ys] assms(1) by (cases "ys = []"; auto)+
  show ?thesis
  proof (cases "xs = []")
    case True
    show ?thesis
    proof (cases "ys = []")
      case True
      with \<open>xs = []\<close> assms(2) bytes_of_zeros [of 8] show ?thesis by (simp add: parse6_def HasPrefix_def)
    next
      case False
      with \<open>xs = []\<close> pct ell fin rest(1) show ?thesis by (simp add: parse6_def HasPrefix_def)
    qed
  next
    case False
    with v6_head [OF rest(2), of xs 8 "[]"] assms
    have "v6_loop 8 [] None (group_text xs @ ''::'' @ group_text ys) = Some (?b xs @ ?b ys, Some (2 * length xs), [])"
      using ell rest(1) by (cases "ys = []") (simp_all add: bytes_length Let_def)
    with pct fin not_ellipsis [OF False, of "''::'' @ group_text ys"] assms(1) show ?thesis
      by (simp add: parse6_def)
  qed
qed

lemma parse6_print6:
  assumes "length gs = 8" and "small gs"
  shows "parse6 (print6 gs) = Some (concat (map group_bytes gs))"
proof (cases "zero_run gs")
  case None
  with assms parse6_plain show ?thesis by (simp add: print6_def)
next
  case (Some r)
  obtain s e where r: "r = (s, e)" by force
  with zero_run_wf [of gs] Some assms(1) have run: "s + 2 \<le> e" "e \<le> 8"
    "take (e - s) (drop s gs) = replicate (e - s) 0" by (simp_all add: wf_run_def)
  have "gs = take s gs @ take (e - s) (drop s gs) @ drop e gs"
    using run(1,2) by (metis add_leD1 append_take_drop_id drop_drop le_add_diff_inverse2)
  with run(3) have "take s gs @ replicate (e - s) 0 @ drop e gs = gs" by simp
  moreover have "small (take s gs @ drop e gs)"
    using assms(2) by (auto dest: in_set_takeD in_set_dropD)
  ultimately show ?thesis
    using parse6_run [of "take s gs" "drop e gs" "e - s"] assms(1) run(1,2) Some r
    by (simp add: print6_def)
qed

lemma hd_dec_of_nat: "0 < n \<Longrightarrow> hd (dec_of_nat n) \<noteq> CHR ''0''"
proof (induction n rule: dec_of_nat.induct)
  case (1 n)
  show ?case
  proof (cases "n < 10")
    case True
    have "digit_val CHR ''0'' = Some 0" by code_simp
    with True 1 have "digit_char n \<noteq> CHR ''0''" by (metis digit_val_digit_char less_irrefl option.inject)
    with True show ?thesis by (simp add: dec_of_nat.simps [of n])
  next
    case False
    with 1 show ?thesis by (simp add: dec_of_nat.simps [of n] hd_append)
  qed
qed

lemma parse_octet_dec: "parse_octet (dec_of_nat (unat b)) = Some b"
proof -
  have "unat b < 256" using unsigned_less [of b] by simp
  then have "unat b \<le> 255" by simp
  then have "uint_loop 255 0 (dec_of_nat (unat b)) = Inr (unat b)" by (rule uint_loop_dec_of_nat)
  moreover have "length (dec_of_nat (unat b)) > 1 \<Longrightarrow> 0 < unat b"
    by (cases "unat b = 0") (simp_all add: dec_of_nat.simps [of 0])
  ultimately show ?thesis using hd_dec_of_nat [of "unat b"] by (auto simp: parse_octet_def)
qed

lemma parse4_print4: "length ip = 4 \<Longrightarrow> parse4 (print4 ip) = Some ip"
proof -
  assume len: "length ip = 4"
  let ?ps = "map (\<lambda>b. dec_of_nat (unat b)) ip"
  have dot: "CHR ''.'' \<notin> set (dec_of_nat n)" for n
    using dec_of_nat_digits [of "CHR ''.''" n] by (auto simp: digit_val_def)
  have "ip \<noteq> []" using len by auto
  with dot have "split_on CHR ''.'' (print4 ip) = ?ps"
    unfolding print4_def by (intro split_on_Join) auto
  moreover have "those (map (parse_octet \<circ> (\<lambda>b. dec_of_nat (unat b))) bs) = Some bs" for bs
    by (induction bs) (simp_all add: parse_octet_dec)
  ultimately show ?thesis using len by (simp add: parse4_def)
qed

definition separator :: "char \<Rightarrow> bool" where "separator c \<longleftrightarrow> c \<in> {CHR ''.'', CHR '':'', CHR ''%''}"

lemma ParseIP_first:
  assumes "\<forall>c \<in> set a. \<not> separator c"
  shows "ParseIP (a @ CHR ''.'' # b) = map_option (\<lambda>x. v4InV6Prefix @ x) (parse4 (a @ CHR ''.'' # b))"
    and "ParseIP (a @ CHR '':'' # b) = parse6 (a @ CHR '':'' # b)"
proof -
  have "dropWhile (\<lambda>c. \<not> separator c) (a @ x) = dropWhile (\<lambda>c. \<not> separator c) x" for x
    using assms by (intro dropWhile_append2) auto
  then show "ParseIP (a @ CHR ''.'' # b) = map_option (\<lambda>x. v4InV6Prefix @ x) (parse4 (a @ CHR ''.'' # b))"
    and "ParseIP (a @ CHR '':'' # b) = parse6 (a @ CHR '':'' # b)"
    by (simp_all add: ParseIP_def separator_def)
qed

lemma hex_not_separator: "hex_digit c \<Longrightarrow> \<not> separator c"
  by (auto simp: separator_def percent_not_hex)

lemma appendHex_no_separator: "g < 65536 \<Longrightarrow> \<forall>c \<in> set (appendHex g). \<not> separator c"
  using appendHex_digits hex_not_separator by (auto simp: list_all_iff)

lemma ParseIP_groups:
  assumes "length xs \<noteq> 1 \<or> rest \<noteq> []" and "xs \<noteq> []" and "small xs" and "rest = [] \<or> (\<exists>t. rest = CHR '':'' # t)"
  shows "ParseIP (group_text xs @ rest) = parse6 (group_text xs @ rest)"
proof -
  obtain g gs where xs: "xs = g # gs" using assms(2) by (cases xs) auto
  with assms have "\<exists>t. group_text xs @ rest = appendHex g @ CHR '':'' # t"
    by (auto simp: Join_Cons)
  with ParseIP_first(2) [OF appendHex_no_separator] assms(3) xs show ?thesis by auto
qed

lemma ParseIP_print6:
  assumes "length gs = 8" and "small gs"
  shows "ParseIP (print6 gs) = Some (concat (map group_bytes gs))"
proof -
  have "ParseIP (print6 gs) = parse6 (print6 gs)"
  proof (cases "zero_run gs")
    case None
    moreover have "gs \<noteq> []" using assms(1) by auto
    ultimately show ?thesis using assms ParseIP_groups [of gs "[]"] by (simp add: print6_def)
  next
    case (Some r)
    obtain s e where r: "r = (s, e)" by force
    show ?thesis
    proof (cases "take s gs = []")
      case True
      with Some r ParseIP_first(2) [of "[]"] show ?thesis by (simp add: print6_def del: take_eq_Nil)
    next
      case False
      moreover have "small (take s gs)" using assms(2) by (auto dest: in_set_takeD)
      ultimately show ?thesis
        using Some r ParseIP_groups [of "take s gs" "''::'' @ group_text (drop e gs)"] by (simp add: print6_def)
    qed
  qed
  with parse6_print6 [OF assms] show ?thesis by simp
qed

lemma ParseIP_print4:
  assumes "length ip = 4"
  shows "ParseIP (print4 ip) = Some (v4InV6Prefix @ ip)"
proof -
  obtain a b c d where ip: "ip = [a, b, c, d]"
    using assms by (auto simp: length_Suc_conv numeral_eq_Suc)
  have "\<forall>c \<in> set (dec_of_nat (unat a)). \<not> separator c"
    using dec_of_nat_digits by (fastforce simp: separator_def digit_val_def)
  moreover have "\<exists>t. print4 ip = dec_of_nat (unat a) @ CHR ''.'' # t"
    by (simp add: ip print4_def)
  ultimately show ?thesis
    using ParseIP_first(1) parse4_print4 [OF assms] by auto
qed

lemma ParseIP_IP_String:
  assumes "length ip = 4 \<or> length ip = 16"
  shows "ParseIP (IP_String ip) = To16 ip"
proof (cases "To4 ip")
  case (Some p4)
  then have "length p4 = 4" "To16 ip = Some (v4InV6Prefix @ p4)"
    using append_take_drop_id [of 12 ip]
    by (auto simp: To4_def To16_def v4InV6Prefix_def simp del: append_take_drop_id split: if_splits)
  with Some assms ParseIP_print4 show ?thesis by (auto simp: IP_String_def)
next
  case None
  then have len: "length ip = 16" using assms by (auto simp: To4_def)
  then have "concat (map group_bytes (groups ip)) = ip" "length (groups ip) = 8"
    by (simp_all add: group_bytes_groups groups_length)
  with None len ParseIP_print6 [of "groups ip"] groups_less show ?thesis
    by (auto simp: IP_String_def To16_def)
qed

end
