(* ===== verification/IPResources.thy ===== *)
theory IPResources
  imports NetIP Forms
begin

text \<open>
  ip.go, and the IPAddress type of types.go. An address goes into the path as text without escaping,
  so each operation first checks that it has 4 or 16 bytes; cancelling an address is refused by the
  client's policy.
\<close>

section \<open>Data\<close>

record IPAddress =
  AddrIP :: IP
  Gateway :: IP
  Mask :: int
  Broadcast :: IP
  AddrServerIP :: IP
  AddrServerNumber :: int
  AddrLocked :: bool
  SeparateMac :: string
  AddrTrafficWarnings :: bool
  AddrTrafficHourly :: int
  AddrTrafficDaily :: int
  AddrTrafficMonthly :: int

record IPMAC =
  MacIP :: IP
  MAC :: string

definition zero_IPAddress :: IPAddress where
  "zero_IPAddress = \<lparr>AddrIP = [], Gateway = [], Mask = 0, Broadcast = [], AddrServerIP = [],
     AddrServerNumber = 0, AddrLocked = False, SeparateMac = [], AddrTrafficWarnings = False,
     AddrTrafficHourly = 0, AddrTrafficDaily = 0, AddrTrafficMonthly = 0\<rparr>"

definition dec_IPAddress :: "IPAddress decoder" where
  "dec_IPAddress = dec_struct
     [fld ''ip'' dec_IP AddrIP AddrIP_update,
      fld ''gateway'' dec_IP Gateway Gateway_update,
      fld ''mask'' dec_int Mask Mask_update,
      fld ''broadcast'' dec_IP Broadcast Broadcast_update,
      fld ''server_ip'' dec_IP AddrServerIP AddrServerIP_update,
      fld ''server_number'' dec_int AddrServerNumber AddrServerNumber_update,
      fld ''locked'' dec_bool AddrLocked AddrLocked_update,
      fld ''separate_mac'' dec_string SeparateMac SeparateMac_update,
      fld ''traffic_warnings'' dec_bool AddrTrafficWarnings AddrTrafficWarnings_update,
      fld ''traffic_hourly'' dec_int AddrTrafficHourly AddrTrafficHourly_update,
      fld ''traffic_daily'' dec_int AddrTrafficDaily AddrTrafficDaily_update,
      fld ''traffic_monthly'' dec_int AddrTrafficMonthly AddrTrafficMonthly_update]"

definition dec_IPMAC :: "IPMAC decoder" where
  "dec_IPMAC = dec_struct [fld ''ip'' dec_IP MacIP MacIP_update, fld ''mac'' dec_string MAC MAC_update]"

definition address_target :: "IPAddress target" where
  "address_target = (zero_IPAddress, Some dec_IPAddress)"

definition mac_target :: "IPMAC target" where
  "mac_target = (\<lparr>MacIP = [], MAC = []\<rparr>, Some dec_IPMAC)"

section \<open>Operations\<close>

definition validIP :: "IP \<Rightarrow> bool" where
  "validIP ip \<longleftrightarrow> To16 ip \<noteq> None"

text \<open>The check in front of each operation.\<close>

definition ip_check :: "IP \<Rightarrow> error option" where
  "ip_check ip = (if \<not> validIP ip then Some (NewParseError ''invalid ip address'' None) else None)"

definition ip_path :: "IP \<Rightarrow> string" where
  "ip_path ip = ''/ip/'' @ IP_String ip"

definition ip_List :: "IPAddress list call" where
  "ip_List c w = client_Get c w ''/ip'' ([], Some (dec_list zero_IPAddress dec_IPAddress))"

definition ip_Get :: "IP \<Rightarrow> IPAddress call" where
  "ip_Get ip = guarded (ip_check ip) (\<lambda>c w. client_Get c w (ip_path ip) address_target)"

definition warnings_form :: "bool \<Rightarrow> Values" where
  "warnings_form enabled =
     (if enabled then Values_Set [] ''traffic_warnings'' ''true''
      else Values_Set [] ''traffic_warnings'' ''false'')"

definition SetTrafficWarnings :: "IP \<Rightarrow> bool \<Rightarrow> IPAddress call" where
  "SetTrafficWarnings ip enabled =
     guarded (ip_check ip) (\<lambda>c w. client_Post c w (ip_path ip) (Some (warnings_form enabled)) address_target)"

definition CancelIP :: "IP \<Rightarrow> string \<Rightarrow> unit call" where
  "CancelIP ip date c w = (Err (NewPolicyError ''IPService.CancelIP''), c, w)"

definition WithdrawIPCancellation :: "IP \<Rightarrow> unit call" where
  "WithdrawIPCancellation ip =
     guarded (ip_check ip) (\<lambda>c w. client_Delete c w (ip_path ip @ ''/cancellation''))"

definition ip_GetMAC :: "IP \<Rightarrow> IPMAC call" where
  "ip_GetMAC ip = guarded (ip_check ip) (\<lambda>c w. client_Get c w (ip_path ip @ ''/mac'') mac_target)"

definition ip_SetMAC :: "IP \<Rightarrow> IPMAC call" where
  "ip_SetMAC ip = guarded (ip_check ip) (\<lambda>c w. client_Put c w (ip_path ip @ ''/mac'') None mac_target)"

definition ip_DeleteMAC :: "IP \<Rightarrow> unit call" where
  "ip_DeleteMAC ip = guarded (ip_check ip) (\<lambda>c w. client_Delete c w (ip_path ip @ ''/mac''))"

section \<open>Endpoints\<close>

interpretation ip_list: live_endpoint ip_List MethodGet "''/ip''" "[]"
  unfolding ip_List_def by (rule live_endpoints)

interpretation ip_get: endpoint "ip_Get ip" MethodGet "ip_path ip" "[]" for ip
  unfolding ip_Get_def by (intro endpoint_guarded endpoints)

interpretation ip_warnings: endpoint "SetTrafficWarnings ip b" MethodPost "ip_path ip"
  "form_body (Some (warnings_form b))" for ip b
  unfolding SetTrafficWarnings_def by (intro endpoint_guarded endpoints)

interpretation ip_withdraw: endpoint "WithdrawIPCancellation ip" MethodDelete "ip_path ip @ ''/cancellation''" "[]"
  for ip
  unfolding WithdrawIPCancellation_def by (intro endpoint_guarded endpoints)

interpretation ip_get_mac: endpoint "ip_GetMAC ip" MethodGet "ip_path ip @ ''/mac''" "[]" for ip
  unfolding ip_GetMAC_def by (intro endpoint_guarded endpoints)

interpretation ip_set_mac: endpoint "ip_SetMAC ip" MethodPut "ip_path ip @ ''/mac''" "form_body None" for ip
  unfolding ip_SetMAC_def by (intro endpoint_guarded endpoints)

interpretation ip_delete_mac: endpoint "ip_DeleteMAC ip" MethodDelete "ip_path ip @ ''/mac''" "[]" for ip
  unfolding ip_DeleteMAC_def by (intro endpoint_guarded endpoints)

section \<open>Addresses in paths\<close>

lemma validIP_length: "validIP ip \<longleftrightarrow> length ip = 4 \<or> length ip = 16"
  by (simp add: validIP_def To16_def)

text \<open>The printed form of a valid address needs no escaping.\<close>

definition address_char :: "char \<Rightarrow> bool" where
  "address_char c \<longleftrightarrow> hex_digit c \<or> c = CHR '':'' \<or> c = CHR ''.''"

lemma set_print4: "set (print4 ip) \<subseteq> {c. address_char c}"
proof
  fix c
  assume "c \<in> set (print4 ip)"
  then have "c = CHR ''.'' \<or> (\<exists>n. c \<in> set (dec_of_nat n))"
    using set_Join [of "map (\<lambda>b. dec_of_nat (unat b)) ip" "''.''"] by (auto simp: print4_def)
  moreover have "digit_val c \<noteq> None \<Longrightarrow> hex_digit c"
    by (auto simp: digit_val_def hex_digit_def hex_val_def in_range_def byte_def Let_def split: if_splits)
  ultimately show "c \<in> {c. address_char c}"
    using dec_of_nat_digits by (auto simp: address_char_def)
qed

lemma set_print6: "small gs \<Longrightarrow> set (print6 gs) \<subseteq> {c. address_char c}"
proof -
  assume gs: "small gs"
  have "set (group_text xs) \<subseteq> {c. address_char c}" if "set xs \<subseteq> set gs" for xs
    using set_group_text [of xs] gs that by (auto simp: address_char_def)
  note part = this
  show ?thesis
    using part [of gs] part [OF set_take_subset] part [OF set_drop_subset]
    by (auto simp: print6_def address_char_def split: option.splits prod.splits dest!: subsetD)
qed

lemma set_IP_String: "validIP ip \<Longrightarrow> set (IP_String ip) \<subseteq> {c. address_char c}"
  using set_print4 set_print6 [of "groups ip"] groups_less
  by (auto simp: IP_String_def validIP_length split: option.splits)

lemma address_char_plain: "address_char c \<Longrightarrow> path_escape_char c = [c]"
  by (auto simp: address_char_def hex_digit_def hex_val_def path_escape_char_def unreserved_def alnum_def
      in_range_def byte_def split: if_splits)

lemma PathEscape_IP: "validIP ip \<Longrightarrow> PathEscape (IP_String ip) = IP_String ip"
proof -
  assume "validIP ip"
  then have "list_all address_char (IP_String ip)" using set_IP_String by (auto simp: list_all_iff)
  moreover have "list_all address_char s \<Longrightarrow> PathEscape s = s" for s
    by (induction s) (auto simp: PathEscape_def address_char_plain)
  ultimately show ?thesis by blast
qed

end
