(* ===== verification/GoFloat.thy ===== *)
theory GoFloat
  imports GoJson
begin

text \<open>
  The float64 values the client meets: numbers of JSON documents and of traffic quotas. A finite
  value is a sign, a mantissa and a binary exponent. strconv.ParseFloat on a decimal literal
  is the nearest value, ties to the even mantissa; None is the range error. Conversion to an
  integer truncates.
\<close>

section \<open>Values\<close>

record float64 =
  Negative :: bool
  Mantissa :: nat
  Exponent :: int

definition zero_float64 :: float64 where
  "zero_float64 = \<lparr>Negative = False, Mantissa = 0, Exponent = 0\<rparr>"

fun bit_length :: "nat \<Rightarrow> nat" where
  "bit_length n = (if n = 0 then 0 else Suc (bit_length (n div 2)))"

declare bit_length.simps [simp del]

text \<open>The numerator and the denominator of num / (den * 2 ^ e), and the integer nearest to a ratio.\<close>

definition scaled :: "nat \<Rightarrow> nat \<Rightarrow> int \<Rightarrow> nat \<times> nat" where
  "scaled num den e =
     (if e \<le> 0 then (num * 2 ^ nat (- e), den) else (num, den * 2 ^ nat e))"

definition half_even :: "nat \<Rightarrow> nat \<Rightarrow> nat" where
  "half_even num den =
     (let q = num div den; r = num mod den
      in if 2 * r < den then q else if 2 * r > den then Suc q else if even q then q else Suc q)"

definition float_exponent :: "nat \<Rightarrow> nat \<Rightarrow> int" where
  "float_exponent num den =
     (let e = int (bit_length num) - int (bit_length den) - 53;
          (a, b) = scaled num den e
      in max (-1074) (if a div b \<ge> 2 ^ 53 then e + 1 else e))"

text \<open>
  The nearest value to num / den. The mantissa has 53 bits unless the exponent is the least one, so
  the value reaches 2 ^ 1024, where the range of float64 ends, exactly under the condition written here.
\<close>

definition round_ratio :: "bool \<Rightarrow> nat \<Rightarrow> nat \<Rightarrow> float64 option" where
  "round_ratio neg num den =
     (if num = 0 then Some (zero_float64\<lparr>Negative := neg\<rparr>)
      else (let e = float_exponent num den; (a, b) = scaled num den e; m = half_even a b
            in if e > 971 \<or> (e = 971 \<and> m = 2 ^ 53) then None
               else Some \<lparr>Negative = neg, Mantissa = m, Exponent = e\<rparr>))"

section \<open>ParseFloat of a decimal literal\<close>

definition digits_value :: "string \<Rightarrow> nat" where
  "digits_value s = foldl (\<lambda>n c. n * 10 + (case digit_val c of Some d \<Rightarrow> d | None \<Rightarrow> 0)) 0 s"

text \<open>
  The literals of JSON: an integer, a fraction, an exponent. The exponent is read as a decimal with a sign.
\<close>

definition exponent_value :: "string \<Rightarrow> int" where
  "exponent_value s =
     (case s of
        [] \<Rightarrow> 0
      | c # r \<Rightarrow>
          (if c = CHR ''-'' then - int (digits_value r)
           else if c = CHR ''+'' then int (digits_value r)
           else int (digits_value s)))"

definition ParseFloat :: "string \<Rightarrow> float64 option" where
  "ParseFloat s =
     (let neg = HasPrefix s ''-'';
          body = (if neg then drop 1 s else s);
          mantissa = takeWhile (\<lambda>c. c \<noteq> CHR ''e'' \<and> c \<noteq> CHR ''E'') body;
          exponent = drop (Suc (length mantissa)) body;
          (whole, frac, dot) = Cut mantissa CHR ''.'';
          digits = digits_value (whole @ frac);
          k = exponent_value exponent - int (length frac)
      in if k \<ge> 0 then round_ratio neg (digits * 10 ^ nat k) 1
         else round_ratio neg digits (10 ^ nat (- k)))"

section \<open>Conversions\<close>

definition truncated :: "float64 \<Rightarrow> nat" where
  "truncated f =
     (if Exponent f \<ge> 0 then Mantissa f * 2 ^ nat (Exponent f)
      else Mantissa f div 2 ^ nat (- Exponent f))"

text \<open>
  int(f). Outside the range of int64 the language leaves the result to the implementation; the
  processors of the 64-bit platforms in use give different values, and the model takes that of amd64.
\<close>

definition float_to_int :: "float64 \<Rightarrow> int" where
  "float_to_int f =
     (let i = (if Negative f then - int (truncated f) else int (truncated f))
      in if in_int64 i then i else MinInt64)"

fun dec_float :: "float64 decoder" where
  "dec_float (JNum n) x = (case ParseFloat n of Some f \<Rightarrow> Ok f | None \<Rightarrow> Err type_error)"
| "dec_float JNull x = Ok x"
| "dec_float _ x = Err type_error"

section \<open>Integers below 2 ^ 53 are exact\<close>

lemma bit_length_bounds: "0 < n \<Longrightarrow> 2 ^ (bit_length n - 1) \<le> n \<and> n < 2 ^ bit_length n"
proof (induction n rule: bit_length.induct)
  case (1 n)
  show ?case
  proof (cases "n div 2 = 0")
    case True
    with 1 show ?thesis by (simp add: bit_length.simps [of n] bit_length.simps [of 0])
  next
    case False
    with 1 have ih: "2 ^ (bit_length (n div 2) - 1) \<le> n div 2" "n div 2 < 2 ^ bit_length (n div 2)" by auto
    obtain k where k: "bit_length (n div 2) = Suc k"
      using False bit_length.simps [of "n div 2"] by auto
    with 1 have l: "bit_length n = Suc (Suc k)" by (simp add: bit_length.simps [of n])
    from ih k have "2 ^ k * 2 \<le> n" "n < 2 ^ Suc k * 2" by simp_all
    with l show ?thesis by simp
  qed
qed

lemma bit_length_le: "n < 2 ^ k \<Longrightarrow> bit_length n \<le> k"
proof (cases "n = 0")
  case False
  assume "n < 2 ^ k"
  with bit_length_bounds [of n] False have "(2::nat) ^ (bit_length n - 1) < 2 ^ k" by linarith
  then have "bit_length n - 1 < k" by (rule power_less_imp_less_exp [rotated]) simp
  then show ?thesis by simp
qed (simp add: bit_length.simps)

lemma digits_value_append: "digits_value (s @ [c]) = digits_value s * 10 + (case digit_val c of Some d \<Rightarrow> d | None \<Rightarrow> 0)"
  by (simp add: digits_value_def)

lemma digits_value_dec: "digits_value (dec_of_nat n) = n"
proof (induction n rule: dec_of_nat.induct)
  case (1 n)
  then show ?case
    by (cases "n < 10") (simp_all add: dec_of_nat.simps [of n] digits_value_append, simp add: digits_value_def)
qed


text \<open>The value m * 2 ^ e of a float with e <= 0 is the integer n.\<close>

definition float_is :: "float64 \<Rightarrow> nat \<Rightarrow> bool" where
  "float_is f n \<longleftrightarrow> \<not> Negative f \<and> Exponent f \<le> 0 \<and> Mantissa f = n * 2 ^ nat (- Exponent f)"

lemma half_even_exact: "half_even n (Suc 0) = n"
  by (simp add: half_even_def Let_def)

lemma round_ratio_exact:
  assumes "n < 2 ^ 53"
  shows "\<exists>f. round_ratio False n 1 = Some f \<and> float_is f n"
proof (cases "n = 0")
  case True
  then show ?thesis by (simp add: round_ratio_def float_is_def zero_float64_def)
next
  case False
  let ?e = "float_exponent n 1"
  have one: "bit_length 1 = 1" by code_simp
  have bl: "bit_length n \<le> 53" using bit_length_le [OF assms] .
  have e: "?e \<le> 0" "- 54 \<le> ?e"
    using bl one by (auto simp: float_exponent_def scaled_def Let_def max_def split: if_splits)
  with False e show ?thesis
    by (simp add: round_ratio_def scaled_def half_even_exact Let_def float_is_def)
qed

lemma takeWhile_dec: "takeWhile (\<lambda>c. c \<noteq> CHR ''e'' \<and> c \<noteq> CHR ''E'') (dec_of_nat n) = dec_of_nat n"
  using dec_of_nat_digits by (fastforce simp: takeWhile_eq_all_conv digit_val_def)

lemma ParseFloat_dec_of_nat: "ParseFloat (dec_of_nat n) = round_ratio False n 1"
proof -
  have nodot: "Cut (dec_of_nat n) CHR ''.'' = (dec_of_nat n, [], False)"
    using dec_of_nat_digits by (intro Cut_absent) (fastforce simp: digit_val_def)
  have "\<not> HasPrefix (dec_of_nat n) ''-''"
  proof
    assume "HasPrefix (dec_of_nat n) ''-''"
    then have "CHR ''-'' \<in> set (dec_of_nat n)" by (cases "dec_of_nat n") (auto simp: HasPrefix_def)
    then show False using dec_of_nat_digits by (fastforce simp: digit_val_def)
  qed
  then show ?thesis
    by (simp add: ParseFloat_def takeWhile_dec nodot digits_value_dec exponent_value_def Let_def)
qed

lemma ParseFloat_dec:
  assumes "n < 2 ^ 53"
  shows "\<exists>f. ParseFloat (dec_of_nat n) = Some f \<and> float_is f n"
  unfolding ParseFloat_dec_of_nat by (rule round_ratio_exact [OF assms])

lemma float_is_int: "float_is f n \<Longrightarrow> n < 2 ^ 63 \<Longrightarrow> float_to_int f = int n"
  by (auto simp: float_is_def float_to_int_def truncated_def in_int64_def MinInt64_def MaxInt64_def Let_def)

section \<open>Larger integers\<close>

text \<open>From 2 ^ 53 on an integer is rounded to a multiple of a power of two, by at most half of it.\<close>

lemma bit_length_less: "2 ^ k \<le> n \<Longrightarrow> k < bit_length n"
proof -
  assume n: "2 ^ k \<le> n"
  then have "0 < n" using less_le_trans [of 0 "2 ^ k" n] by simp
  with bit_length_bounds [of n] n have "(2::nat) ^ k < 2 ^ bit_length n" by linarith
  then show ?thesis by (rule power_less_imp_less_exp [rotated]) simp
qed

lemma float_exponent_large:
  assumes "2 ^ 53 \<le> n"
  shows "float_exponent n 1 = int (bit_length n) - 53"
proof -
  have one: "bit_length 1 = 1" by code_simp
  have l: "54 \<le> bit_length n" using bit_length_less [OF assms] by simp
  define k where "k = bit_length n - 54"
  have "2 ^ 53 * 2 ^ k = (2::nat) ^ (bit_length n - 1)"
    using l by (simp only: power_add [symmetric]) (simp add: k_def)
  also have "\<dots> \<le> n" using bit_length_bounds [of n] assms by simp
  finally have "2 ^ 53 \<le> n div 2 ^ k" by (simp add: less_eq_div_iff_mult_less_eq)
  with l one show ?thesis
    by (auto simp: float_exponent_def scaled_def k_def Let_def nat_diff_distrib' of_nat_diff)
qed

lemma half_even_near:
  assumes "0 < d"
  shows "2 * (half_even n d * d) \<le> 2 * n + d" and "2 * n \<le> 2 * (half_even n d * d) + d"
proof -
  obtain q r where qr: "n = q * d + r" "r < d" using assms mod_less_divisor div_mult_mod_eq by metis
  then have "n div d = q" "n mod d = r" by simp_all
  then have "half_even n d = q \<and> 2 * r \<le> d \<or> half_even n d = Suc q \<and> d \<le> 2 * r"
    by (auto simp: half_even_def Let_def)
  with qr show "2 * (half_even n d * d) \<le> 2 * n + d" "2 * n \<le> 2 * (half_even n d * d) + d"
    by auto
qed

lemma half_even_ge: "n div d \<le> half_even n d"
  by (simp add: half_even_def Let_def)

lemma round_ratio_large:
  assumes "2 ^ 53 \<le> n" and "n < 2 ^ 1023"
  shows "\<exists>m k. round_ratio False n 1 = Some \<lparr>Negative = False, Mantissa = m, Exponent = int k\<rparr>
    \<and> 2 ^ 53 * \<bar>int (m * 2 ^ k) - int n\<bar> \<le> int n \<and> (\<forall>j. 2 ^ j \<le> n \<longrightarrow> 2 ^ j \<le> m * 2 ^ k)"
proof -
  define k where "k = bit_length n - 53"
  let ?m = "half_even n (2 ^ k)"
  have l: "54 \<le> bit_length n" "bit_length n \<le> 1023"
    using bit_length_less [OF assms(1)] bit_length_le [OF assms(2)] by simp_all
  have bounds: "2 ^ (bit_length n - 1) \<le> n" "n < 2 ^ bit_length n" using bit_length_bounds [of n] assms(1) by simp_all
  have "bit_length n - 1 = 52 + k" using l by (simp add: k_def)
  then have low: "2 ^ 52 * 2 ^ k \<le> n" using bounds(1) by (simp only: power_add)
  have diff: "2 * \<bar>int x - int n\<bar> \<le> int d" if "2 * x \<le> 2 * n + d" "2 * n \<le> 2 * x + d" for x d
    using that by (cases "int n \<le> int x") simp_all
  have step: "2 * \<bar>int (?m * 2 ^ k) - int n\<bar> \<le> int (2 ^ k)" by (intro diff half_even_near) simp_all
  have "2 * (2 ^ 52 * \<bar>int (?m * 2 ^ k) - int n\<bar>) \<le> 2 ^ 52 * int (2 ^ k)"
    using mult_left_mono [OF step, of "2 ^ 52"] by simp
  also have "\<dots> \<le> int n" using low by (metis of_nat_le_iff of_nat_mult of_nat_numeral of_nat_power)
  finally have near: "2 ^ 53 * \<bar>int (?m * 2 ^ k) - int n\<bar> \<le> int n" by simp
  have "2 ^ j \<le> ?m * 2 ^ k" if "2 ^ j \<le> n" for j
  proof -
    have "2 ^ 52 \<le> n div 2 ^ k" using low by (simp add: less_eq_div_iff_mult_less_eq)
    then have "2 ^ 52 * 2 ^ k \<le> ?m * 2 ^ k" using half_even_ge [of n "2 ^ k"] by (intro mult_le_mono1) linarith
    moreover have "j \<le> 52 + k" using bit_length_less [OF that] l by (simp add: k_def)
    then have "(2::nat) ^ j \<le> 2 ^ 52 * 2 ^ k" unfolding power_add [symmetric] by (rule power_increasing) simp
    ultimately show ?thesis by linarith
  qed
  moreover have "round_ratio False n 1 = Some \<lparr>Negative = False, Mantissa = ?m, Exponent = int k\<rparr>"
    using l assms(1) float_exponent_large [OF assms(1)]
    by (auto simp: round_ratio_def scaled_def k_def Let_def nat_diff_distrib' of_nat_diff)
  ultimately show ?thesis using near by blast
qed

lemma round_ratio_overflow:
  assumes "2 ^ 1024 \<le> n"
  shows "round_ratio False n 1 = None"
proof -
  have "(2::nat) ^ 53 \<le> 2 ^ 1024" by (rule power_increasing) simp_all
  then have "2 ^ 53 \<le> n" using assms by linarith
  moreover have "1025 \<le> bit_length n" using bit_length_less [OF assms] by simp
  moreover have "n \<noteq> 0" using calculation(1) by (intro notI) simp
  ultimately have "n \<noteq> 0" and "971 < float_exponent n 1" using float_exponent_large [of n] by linarith+
  then show ?thesis by (simp add: round_ratio_def Let_def split_beta)
qed

end
