(* ===== verification/Traffic.thy ===== *)
theory Traffic
  imports GoFloat Forms
begin

text \<open>
  traffic.go: the traffic statistics of addresses and subnets over a period. The body joins an encoded
  form with literal bracketed keys; which of the two shapes the answer has depends on the
  request, so its data member is kept raw and decoded in a second step.
\<close>

section \<open>Data\<close>

definition TrafficTypeDay :: string where "TrafficTypeDay = ''day''"
definition TrafficTypeMonth :: string where "TrafficTypeMonth = ''month''"
definition TrafficTypeYear :: string where "TrafficTypeYear = ''year''"

record TrafficStats =
  StatIn :: float64
  StatOut :: float64
  StatSum :: float64

record ServerTrafficData =
  DataType :: string
  DataFrom :: string
  DataTo :: string
  Data :: "(string \<times> TrafficStats) list"
  SingleData :: "(string \<times> (string \<times> TrafficStats) list) list"

record TrafficGetParams =
  ParType :: string
  ParFrom :: string
  ParTo :: string
  ParIP :: string
  ParIPs :: "string list"
  ParSubnets :: "string list"
  ParSingleValues :: bool

text \<open>The struct the answer is decoded into first; the last member is None when it is absent.\<close>

record raw_traffic =
  RawType :: string
  RawFrom :: string
  RawTo :: string
  RawData :: "json option"

definition zero_TrafficStats :: TrafficStats where
  "zero_TrafficStats = \<lparr>StatIn = zero_float64, StatOut = zero_float64, StatSum = zero_float64\<rparr>"

definition dec_TrafficStats :: "TrafficStats decoder" where
  "dec_TrafficStats = dec_struct
     [fld ''in'' dec_float StatIn StatIn_update,
      fld ''out'' dec_float StatOut StatOut_update,
      fld ''sum'' dec_float StatSum StatSum_update]"

definition dec_stats :: "(string \<times> TrafficStats) list decoder" where
  "dec_stats = dec_map zero_TrafficStats dec_TrafficStats"

definition dec_raw_traffic :: "raw_traffic decoder" where
  "dec_raw_traffic = dec_struct
     [fld ''type'' dec_string RawType RawType_update,
      fld ''from'' dec_string RawFrom RawFrom_update,
      fld ''to'' dec_string RawTo RawTo_update,
      fld ''data'' dec_raw RawData RawData_update]"

definition raw_traffic_target :: "raw_traffic target" where
  "raw_traffic_target =
     (\<lparr>RawType = [], RawFrom = [], RawTo = [], RawData = None\<rparr>, Some dec_raw_traffic)"

section \<open>The request\<close>

fun appendBracketArray :: "string \<Rightarrow> string \<Rightarrow> string list \<Rightarrow> string" where
  "appendBracketArray body name [] = body"
| "appendBracketArray body name (v # vs) =
     (let pair = name @ ''[]='' @ QueryEscape v
      in appendBracketArray (if body = [] then pair else Join [body, pair] ''&'') name vs)"

definition traffic_form :: "TrafficGetParams \<Rightarrow> Values" where
  "traffic_form params =
     (let formData = Values_Set [] ''type'' (ParType params);
          formData = Values_Set formData ''from'' (ParFrom params);
          formData = Values_Set formData ''to'' (ParTo params)
      in if ParSingleValues params then Values_Set formData ''single_values'' ''true'' else formData)"

definition traffic_ips :: "TrafficGetParams \<Rightarrow> string list" where
  "traffic_ips params = (if ParIP params \<noteq> [] then ParIP params # ParIPs params else ParIPs params)"

definition traffic_body :: "TrafficGetParams \<Rightarrow> string" where
  "traffic_body params =
     (let body = Encode (traffic_form params);
          body = appendBracketArray body ''ip'' (traffic_ips params)
      in appendBracketArray body ''subnet'' (ParSubnets params))"

section \<open>The answer\<close>

definition decode_traffic :: "TrafficGetParams \<Rightarrow> raw_traffic \<Rightarrow> ServerTrafficData result" where
  "decode_traffic params rt =
     (let result = \<lparr>DataType = RawType rt, DataFrom = RawFrom rt, DataTo = RawTo rt, Data = [],
                    SingleData = []\<rparr>
      in case RawData rt of
           None \<Rightarrow> Ok result
         | Some j \<Rightarrow>
            (if ParSingleValues params then
               (case Unmarshal (dec_map [] dec_stats) (Sub j) [] of
                  Ok m \<Rightarrow> Ok (result\<lparr>SingleData := m\<rparr>)
                | Err err \<Rightarrow> Err (NewParseError ''failed to decode traffic single_values data'' (Some err))
                | Panic p \<Rightarrow> Panic p)
             else
               (case Unmarshal dec_stats (Sub j) [] of
                  Ok m \<Rightarrow> Ok (result\<lparr>Data := m\<rparr>)
                | Err err \<Rightarrow> Err (NewParseError ''failed to decode traffic data'' (Some err))
                | Panic p \<Rightarrow> Panic p)))"

definition traffic_Get :: "TrafficGetParams \<Rightarrow> ServerTrafficData call" where
  "traffic_Get params =
     then_local (\<lambda>c w. client_PostRaw c w ''/traffic'' (traffic_body params) raw_traffic_target)
       (decode_traffic params)"

interpretation traffic_get: live_endpoint "traffic_Get params" MethodPost "''/traffic''" "traffic_body params" for params
  unfolding traffic_Get_def by (intro live_endpoint_then live_endpoints)

section \<open>What a server reads in the body\<close>

definition traffic_pairs :: "TrafficGetParams \<Rightarrow> form" where
  "traffic_pairs params =
     [(''from'', ParFrom params)]
     @ (if ParSingleValues params then [(''single_values'', ''true'')] else [])
     @ [(''to'', ParTo params), (''type'', ParType params)]
     @ map (Pair ''ip[]'') (traffic_ips params) @ map (Pair ''subnet[]'') (ParSubnets params)"

lemma appendBracketArray_pairs:
  "ps \<noteq> [] \<Longrightarrow> appendBracketArray (Join (map (form_pair QueryEscape) ps) ''&'') name vs =
     Join (map (form_pair QueryEscape) (ps @ map (Pair (name @ ''[]'')) vs)) ''&''"
proof (induction vs arbitrary: ps)
  case (Cons v vs)
  have "Join (map (form_pair QueryEscape) ps) ''&'' \<noteq> []"
    using Cons.prems by (cases ps) (auto simp: Join_Cons form_pair_def)
  then have "appendBracketArray (Join (map (form_pair QueryEscape) ps) ''&'') name (v # vs) =
      appendBracketArray (Join (map (form_pair QueryEscape) (ps @ [(name @ ''[]'', v)])) ''&'') name vs"
    using Cons.prems by (simp add: Let_def Join_append form_pair_def)
  also have "\<dots> = Join (map (form_pair QueryEscape) ((ps @ [(name @ ''[]'', v)]) @ map (Pair (name @ ''[]'')) vs)) ''&''"
    by (rule Cons.IH) simp
  finally show ?case by simp
qed simp

lemma Encode_traffic_form:
  "Encode (traffic_form params) = Join (map (form_pair QueryEscape)
     ([(''from'', ParFrom params)] @ (if ParSingleValues params then [(''single_values'', ''true'')] else [])
      @ [(''to'', ParTo params), (''type'', ParType params)])) ''&''"
proof -
  have keys: "sort [''type'', ''from'', ''to''] = [''from'', ''to'', ''type'']"
    "sort [''type'', ''from'', ''to'', ''single_values''] = [''from'', ''single_values'', ''to'', ''type'']"
    by code_simp+
  have esc: "QueryEscape ''from'' = ''from''" "QueryEscape ''to'' = ''to''" "QueryEscape ''type'' = ''type''"
    "QueryEscape ''single_values'' = ''single_values''" by code_simp+
  show ?thesis
    by (simp add: Encode_def Values_pairs_def sortedKeys_def traffic_form_def Values_Set_def Let_def keys esc
        form_pair_def)
qed

lemma traffic_body_pairs:
  "traffic_body params = Join (map (form_pair QueryEscape) (traffic_pairs params)) ''&''"
  unfolding traffic_body_def Let_def Encode_traffic_form
  by (subst appendBracketArray_pairs, simp, subst appendBracketArray_pairs, simp)
    (simp only: traffic_pairs_def append_assoc append_Cons append_Nil)

lemma traffic_pairs_plain: "\<forall>(k, v) \<in> set (traffic_pairs params). plain_key k"
  by (auto simp: traffic_pairs_def plain_key_def)

lemma values_of_Pair: "values_of (map (Pair k) vs) k' = (if k = k' then vs else [])"
  by (induction vs) (auto simp: values_of_def)

end
