(* ===== verification/VSwitches.thy ===== *)
theory VSwitches
  imports Forms
begin

text \<open>
  vswitch.go: the vSwitches with their servers, subnets and cloud networks. Servers are added and
  removed with raw bodies of literal bracketed keys; a change is over when every server of the
  vSwitch is ready, and waiting for that fails as soon as one has failed.
\<close>

section \<open>Data\<close>

definition VSwitchServerStatusReady :: string where "VSwitchServerStatusReady = ''ready''"
definition VSwitchServerStatusProcessing :: string where "VSwitchServerStatusProcessing = ''in process''"
definition VSwitchServerStatusFailed :: string where "VSwitchServerStatusFailed = ''failed''"

record VSwitchListItem =
  ItemID :: int
  ItemName :: string
  ItemVLAN :: int
  ItemCancelled :: bool

record VSwitchServer =
  VServerIP :: string
  VServerIPv6Net :: string
  VServerNumber :: int
  VServerStatus :: string

record VSwitchSubnet =
  VSubnetIP :: string
  VSubnetMask :: int
  VSubnetGateway :: string

record CloudNetwork =
  CloudID :: int
  CloudIP :: string
  CloudMask :: int
  CloudGateway :: string

record VSwitch =
  VID :: int
  VName :: string
  VLAN :: int
  VCancelled :: bool
  Servers :: "VSwitchServer list"
  Subnets :: "VSwitchSubnet list"
  CloudNetworks :: "CloudNetwork list"

definition zero_VSwitchListItem :: VSwitchListItem where
  "zero_VSwitchListItem = \<lparr>ItemID = 0, ItemName = [], ItemVLAN = 0, ItemCancelled = False\<rparr>"

definition dec_VSwitchListItem :: "VSwitchListItem decoder" where
  "dec_VSwitchListItem = dec_struct
     [fld ''id'' dec_int ItemID ItemID_update,
      fld ''name'' dec_string ItemName ItemName_update,
      fld ''vlan'' dec_int ItemVLAN ItemVLAN_update,
      fld ''cancelled'' dec_bool ItemCancelled ItemCancelled_update]"

definition zero_VSwitchServer :: VSwitchServer where
  "zero_VSwitchServer = \<lparr>VServerIP = [], VServerIPv6Net = [], VServerNumber = 0, VServerStatus = []\<rparr>"

definition dec_VSwitchServer :: "VSwitchServer decoder" where
  "dec_VSwitchServer = dec_struct
     [fld ''server_ip'' dec_string VServerIP VServerIP_update,
      fld ''server_ipv6_net'' dec_string VServerIPv6Net VServerIPv6Net_update,
      fld ''server_number'' dec_int VServerNumber VServerNumber_update,
      fld ''status'' dec_string VServerStatus VServerStatus_update]"

definition zero_VSwitchSubnet :: VSwitchSubnet where
  "zero_VSwitchSubnet = \<lparr>VSubnetIP = [], VSubnetMask = 0, VSubnetGateway = []\<rparr>"

definition dec_VSwitchSubnet :: "VSwitchSubnet decoder" where
  "dec_VSwitchSubnet = dec_struct
     [fld ''ip'' dec_string VSubnetIP VSubnetIP_update,
      fld ''mask'' dec_int VSubnetMask VSubnetMask_update,
      fld ''gateway'' dec_string VSubnetGateway VSubnetGateway_update]"

definition zero_CloudNetwork :: CloudNetwork where
  "zero_CloudNetwork = \<lparr>CloudID = 0, CloudIP = [], CloudMask = 0, CloudGateway = []\<rparr>"

definition dec_CloudNetwork :: "CloudNetwork decoder" where
  "dec_CloudNetwork = dec_struct
     [fld ''id'' dec_int CloudID CloudID_update,
      fld ''ip'' dec_string CloudIP CloudIP_update,
      fld ''mask'' dec_int CloudMask CloudMask_update,
      fld ''gateway'' dec_string CloudGateway CloudGateway_update]"

definition zero_VSwitch :: VSwitch where
  "zero_VSwitch = \<lparr>VID = 0, VName = [], VLAN = 0, VCancelled = False, Servers = [], Subnets = [],
     CloudNetworks = []\<rparr>"

definition dec_VSwitch :: "VSwitch decoder" where
  "dec_VSwitch = dec_struct
     [fld ''id'' dec_int VID VID_update,
      fld ''name'' dec_string VName VName_update,
      fld ''vlan'' dec_int VLAN VLAN_update,
      fld ''cancelled'' dec_bool VCancelled VCancelled_update,
      fld ''server'' (dec_list zero_VSwitchServer dec_VSwitchServer) Servers Servers_update,
      fld ''subnet'' (dec_list zero_VSwitchSubnet dec_VSwitchSubnet) Subnets Subnets_update,
      fld ''cloud_network'' (dec_list zero_CloudNetwork dec_CloudNetwork) CloudNetworks CloudNetworks_update]"

definition vswitch_target :: "VSwitch target" where "vswitch_target = (zero_VSwitch, Some dec_VSwitch)"

section \<open>Operations\<close>

definition vswitch_path :: "int \<Rightarrow> string" where
  "vswitch_path i = ''/vswitch/'' @ Itoa i"

definition vs_List :: "VSwitchListItem list call" where
  "vs_List c w =
     client_Get c w ''/vswitch'' ([], Some (dec_list zero_VSwitchListItem dec_VSwitchListItem))"

definition vs_Get :: "int \<Rightarrow> VSwitch call" where
  "vs_Get i c w = client_Get c w (vswitch_path i) vswitch_target"

definition vswitch_form :: "string \<Rightarrow> int \<Rightarrow> Values" where
  "vswitch_form name vlan = Values_Set (Values_Set [] ''name'' name) ''vlan'' (Itoa vlan)"

definition vs_Create :: "string \<Rightarrow> int \<Rightarrow> VSwitch call" where
  "vs_Create name vlan c w = client_Post c w ''/vswitch'' (Some (vswitch_form name vlan)) vswitch_target"

definition vs_Update :: "int \<Rightarrow> string \<Rightarrow> int \<Rightarrow> unit call" where
  "vs_Update i name vlan c w = client_Post c w (vswitch_path i) (Some (vswitch_form name vlan)) nil_target"

definition vs_Delete :: "int \<Rightarrow> string \<Rightarrow> unit call" where
  "vs_Delete i cancellationDate c w =
     client_DeleteWithBody c w (vswitch_path i)
       (Some (Values_Set [] ''cancellation_date'' cancellationDate)) nil_target"

definition servers_body :: "string list \<Rightarrow> string" where
  "servers_body servers = Join (map (\<lambda>server. ''server[]='' @ QueryEscape server) servers) ''&''"

definition AddServers :: "int \<Rightarrow> string list \<Rightarrow> unit call" where
  "AddServers i servers c w =
     client_PostRaw c w (vswitch_path i @ ''/server'') (servers_body servers) nil_target"

definition RemoveServers :: "int \<Rightarrow> string list \<Rightarrow> unit call" where
  "RemoveServers i servers c w =
     client_DeleteRaw c w (vswitch_path i @ ''/server'') (servers_body servers) nil_target"

section \<open>Waiting\<close>

fun servers_ready :: "int \<Rightarrow> VSwitchServer list \<Rightarrow> bool result" where
  "servers_ready i [] = Ok True"
| "servers_ready i (server # servers) =
     (if VServerStatus server = VSwitchServerStatusFailed then
        Err (ErrorString (''vswitch '' @ Itoa i @ '': server '' @ Itoa (VServerNumber server)
          @ '' is in status failed''))
      else if VServerStatus server \<noteq> VSwitchServerStatusReady then Ok False
      else servers_ready i servers)"

definition vswitch_ready :: "int \<Rightarrow> condition" where
  "vswitch_ready i = then_local (vs_Get i) (\<lambda>vswitch. servers_ready i (Servers vswitch))"

definition WaitForVSwitchReady :: "int \<Rightarrow> unit call" where
  "WaitForVSwitchReady i = waitForCondition (vswitch_ready i)"

section \<open>Endpoints\<close>

interpretation vs_list: live_endpoint vs_List MethodGet "''/vswitch''" "[]"
  unfolding vs_List_def by (rule live_endpoints)

interpretation vs_get: live_endpoint "vs_Get i" MethodGet "vswitch_path i" "[]" for i
  unfolding vs_Get_def by (rule live_endpoints)

interpretation vs_create: live_endpoint "vs_Create n v" MethodPost "''/vswitch''" "form_body (Some (vswitch_form n v))"
  for n v
  unfolding vs_Create_def by (rule live_endpoints)

interpretation vs_update: live_endpoint "vs_Update i n v" MethodPost "vswitch_path i"
  "form_body (Some (vswitch_form n v))" for i n v
  unfolding vs_Update_def by (rule live_endpoints)

interpretation vs_delete: live_endpoint "vs_Delete i d" MethodDelete "vswitch_path i"
  "form_body (Some (Values_Set [] ''cancellation_date'' d))" for i d
  unfolding vs_Delete_def by (rule live_endpoints)

interpretation vs_add: live_endpoint "AddServers i ss" MethodPost "vswitch_path i @ ''/server''" "servers_body ss" for i ss
  unfolding AddServers_def by (rule live_endpoints)

interpretation vs_remove: live_endpoint "RemoveServers i ss" MethodDelete "vswitch_path i @ ''/server''" "servers_body ss"
  for i ss
  unfolding RemoveServers_def by (rule live_endpoints)

interpretation vs_ready: live_endpoint "vswitch_ready i" MethodGet "vswitch_path i" "[]" for i
  unfolding vswitch_ready_def by (intro live_endpoint_then vs_get.live_endpoint_axioms)

interpretation vs_wait: api_call "WaitForVSwitchReady i" 90 for i
  unfolding WaitForVSwitchReady_def using api_call_wait [OF vs_ready.as_call.api_call_axioms] by simp

section \<open>Bodies and readiness\<close>

lemma servers_body_pairs:
  "servers_body ss = Join (map (form_pair QueryEscape) (map (Pair ''server[]'') ss)) ''&''"
  by (simp add: servers_body_def form_pair_def comp_def)

lemma servers_ready_True: "servers_ready i ss = Ok True \<longleftrightarrow> (\<forall>s \<in> set ss. VServerStatus s = ''ready'')"
  by (induction ss) (auto simp: VSwitchServerStatusReady_def VSwitchServerStatusFailed_def)

text \<open>The first server that is not ready decides.\<close>

lemma servers_ready_find:
  "servers_ready i ss =
     (case find (\<lambda>s. VServerStatus s \<noteq> ''ready'') ss of
        None \<Rightarrow> Ok True
      | Some s \<Rightarrow> if VServerStatus s = ''failed'' then Err (ErrorString (''vswitch '' @ Itoa i @ '': server ''
                   @ Itoa (VServerNumber s) @ '' is in status failed'')) else Ok False)"
  by (induction i ss rule: servers_ready.induct)
    (auto simp: VSwitchServerStatusFailed_def VSwitchServerStatusReady_def)

end
