(* ===== verification/Subnets.thy ===== *)
theory Subnets
  imports Forms
begin

text \<open>
  subnet.go: the subnets with their traffic warnings, MAC addresses and cancellations. Cancelling a
  subnet is refused by the client's policy.
\<close>

section \<open>Data\<close>

record SubnetResource =
  SubnetIP :: string
  SubnetMask :: int
  SubnetGateway :: string
  SubnetServerIP :: string
  SubnetServerNumber :: int
  SubnetFailover :: bool
  SubnetLocked :: bool
  SubnetTrafficWarnings :: bool
  SubnetTrafficHourly :: int
  SubnetTrafficDaily :: int
  SubnetTrafficMonthly :: int

record SubnetMAC =
  SMacIP :: string
  SMacMask :: string
  SMacMAC :: string
  PossibleMAC :: "(string \<times> string) list"

record SubnetCancellation =
  CancelIPNet :: string
  CancelMask :: string
  CancelServerNumber :: int
  EarliestCancellationDate :: string
  CancelledNow :: bool
  CancellationDate :: "string option"

definition zero_SubnetResource :: SubnetResource where
  "zero_SubnetResource = \<lparr>SubnetIP = [], SubnetMask = 0, SubnetGateway = [], SubnetServerIP = [],
     SubnetServerNumber = 0, SubnetFailover = False, SubnetLocked = False, SubnetTrafficWarnings = False,
     SubnetTrafficHourly = 0, SubnetTrafficDaily = 0, SubnetTrafficMonthly = 0\<rparr>"

definition dec_SubnetResource :: "SubnetResource decoder" where
  "dec_SubnetResource = dec_struct
     [fld ''ip'' dec_string SubnetIP SubnetIP_update,
      fld ''mask'' dec_int SubnetMask SubnetMask_update,
      fld ''gateway'' dec_string SubnetGateway SubnetGateway_update,
      fld ''server_ip'' dec_string SubnetServerIP SubnetServerIP_update,
      fld ''server_number'' dec_int SubnetServerNumber SubnetServerNumber_update,
      fld ''failover'' dec_bool SubnetFailover SubnetFailover_update,
      fld ''locked'' dec_bool SubnetLocked SubnetLocked_update,
      fld ''traffic_warnings'' dec_bool SubnetTrafficWarnings SubnetTrafficWarnings_update,
      fld ''traffic_hourly'' dec_int SubnetTrafficHourly SubnetTrafficHourly_update,
      fld ''traffic_daily'' dec_int SubnetTrafficDaily SubnetTrafficDaily_update,
      fld ''traffic_monthly'' dec_int SubnetTrafficMonthly SubnetTrafficMonthly_update]"

definition zero_SubnetMAC :: SubnetMAC where
  "zero_SubnetMAC = \<lparr>SMacIP = [], SMacMask = [], SMacMAC = [], PossibleMAC = []\<rparr>"

definition dec_SubnetMAC :: "SubnetMAC decoder" where
  "dec_SubnetMAC = dec_struct
     [fld ''ip'' dec_string SMacIP SMacIP_update,
      fld ''mask'' dec_string SMacMask SMacMask_update,
      fld ''mac'' dec_string SMacMAC SMacMAC_update,
      fld ''possible_mac'' (dec_map [] dec_string) PossibleMAC PossibleMAC_update]"

definition zero_SubnetCancellation :: SubnetCancellation where
  "zero_SubnetCancellation = \<lparr>CancelIPNet = [], CancelMask = [], CancelServerNumber = 0,
     EarliestCancellationDate = [], CancelledNow = False, CancellationDate = None\<rparr>"

definition dec_SubnetCancellation :: "SubnetCancellation decoder" where
  "dec_SubnetCancellation = dec_struct
     [fld ''ip'' dec_string CancelIPNet CancelIPNet_update,
      fld ''mask'' dec_string CancelMask CancelMask_update,
      fld ''server_number'' dec_int CancelServerNumber CancelServerNumber_update,
      fld ''earliest_cancellation_date'' dec_string EarliestCancellationDate EarliestCancellationDate_update,
      fld ''cancelled'' dec_bool CancelledNow CancelledNow_update,
      fld ''cancellation_date'' (dec_ptr [] dec_string) CancellationDate CancellationDate_update]"

definition subnet_target :: "SubnetResource target" where
  "subnet_target = (zero_SubnetResource, Some dec_SubnetResource)"

definition subnet_mac_target :: "SubnetMAC target" where
  "subnet_mac_target = (zero_SubnetMAC, Some dec_SubnetMAC)"

section \<open>Operations\<close>

definition subnet_path :: "string \<Rightarrow> string" where
  "subnet_path netIP = ''/subnet/'' @ PathEscape netIP"

definition subnet_List :: "SubnetResource list call" where
  "subnet_List c w =
     client_Get c w ''/subnet'' ([], Some (dec_list zero_SubnetResource dec_SubnetResource))"

definition subnet_Get :: "string \<Rightarrow> SubnetResource call" where
  "subnet_Get netIP c w = client_Get c w (subnet_path netIP) subnet_target"

definition subnet_form :: "bool \<Rightarrow> int \<Rightarrow> int \<Rightarrow> int \<Rightarrow> Values" where
  "subnet_form trafficWarnings trafficHourly trafficDaily trafficMonthly =
     (let data = Values_Set [] ''traffic_warnings'' (FormatBool trafficWarnings);
          data = Values_Set data ''traffic_hourly'' (Itoa trafficHourly);
          data = Values_Set data ''traffic_daily'' (Itoa trafficDaily)
      in Values_Set data ''traffic_monthly'' (Itoa trafficMonthly))"

definition subnet_Update :: "string \<Rightarrow> bool \<Rightarrow> int \<Rightarrow> int \<Rightarrow> int \<Rightarrow> SubnetResource call" where
  "subnet_Update netIP warnings hourly daily monthly c w =
     client_Post c w (subnet_path netIP) (Some (subnet_form warnings hourly daily monthly)) subnet_target"

definition subnet_GetMAC :: "string \<Rightarrow> SubnetMAC call" where
  "subnet_GetMAC netIP c w = client_Get c w (subnet_path netIP @ ''/mac'') subnet_mac_target"

definition subnet_SetMAC :: "string \<Rightarrow> string \<Rightarrow> SubnetMAC call" where
  "subnet_SetMAC netIP mac c w =
     client_Put c w (subnet_path netIP @ ''/mac'') (Some (Values_Set [] ''mac'' mac)) subnet_mac_target"

definition subnet_DeleteMAC :: "string \<Rightarrow> unit call" where
  "subnet_DeleteMAC netIP c w = client_Delete c w (subnet_path netIP @ ''/mac'')"

definition subnet_GetCancellation :: "string \<Rightarrow> SubnetCancellation call" where
  "subnet_GetCancellation netIP c w =
     client_Get c w (subnet_path netIP @ ''/cancellation'')
       (zero_SubnetCancellation, Some dec_SubnetCancellation)"

definition subnet_Cancel :: "string \<Rightarrow> string \<Rightarrow> SubnetCancellation call" where
  "subnet_Cancel netIP date c w = (Err (NewPolicyError ''SubnetService.Cancel''), c, w)"

definition subnet_WithdrawCancellation :: "string \<Rightarrow> unit call" where
  "subnet_WithdrawCancellation netIP c w = client_Delete c w (subnet_path netIP @ ''/cancellation'')"

section \<open>Endpoints\<close>

interpretation subnet_list: live_endpoint subnet_List MethodGet "''/subnet''" "[]"
  unfolding subnet_List_def by (rule live_endpoints)

interpretation subnet_get: live_endpoint "subnet_Get n" MethodGet "subnet_path n" "[]" for n
  unfolding subnet_Get_def by (rule live_endpoints)

interpretation subnet_update: live_endpoint "subnet_Update n tw h d m" MethodPost "subnet_path n"
  "form_body (Some (subnet_form tw h d m))" for n tw h d m
  unfolding subnet_Update_def by (rule live_endpoints)

interpretation subnet_get_mac: live_endpoint "subnet_GetMAC n" MethodGet "subnet_path n @ ''/mac''" "[]" for n
  unfolding subnet_GetMAC_def by (rule live_endpoints)

interpretation subnet_set_mac: live_endpoint "subnet_SetMAC n a" MethodPut "subnet_path n @ ''/mac''"
  "form_body (Some (Values_Set [] ''mac'' a))" for n a
  unfolding subnet_SetMAC_def by (rule live_endpoints)

interpretation subnet_delete_mac: live_endpoint "subnet_DeleteMAC n" MethodDelete "subnet_path n @ ''/mac''" "[]" for n
  unfolding subnet_DeleteMAC_def by (rule live_endpoints)

interpretation subnet_get_cancellation: live_endpoint "subnet_GetCancellation n" MethodGet
  "subnet_path n @ ''/cancellation''" "[]" for n
  unfolding subnet_GetCancellation_def by (rule live_endpoints)

interpretation subnet_withdraw: live_endpoint "subnet_WithdrawCancellation n" MethodDelete
  "subnet_path n @ ''/cancellation''" "[]" for n
  unfolding subnet_WithdrawCancellation_def by (rule live_endpoints)

end
