(* ===== verification/TrafficSizes.thy ===== *)
theory TrafficSizes
  imports GoFloat "HOL-Library.Word"
begin

text \<open>
  TrafficSize of types.go: a traffic quota, which the API writes as "unlimited", as a number with a
  unit, or as a number of bytes. The regular expression trafficSizePattern is a function that
  returns its two groups. The bytes are a 64-bit word, at whose end the decoder saturates.
  MarshalJSON yields a JSON value; its text is left to encoding/json.
\<close>

section \<open>The type and its pattern\<close>

record TrafficSize =
  Unlimited :: bool
  Bytes :: "64 word"
  Raw :: string

definition zero_TrafficSize :: TrafficSize where
  "zero_TrafficSize = \<lparr>Unlimited = False, Bytes = 0, Raw = []\<rparr>"

definition re_space :: "char \<Rightarrow> bool" where
  "re_space c \<longleftrightarrow> c \<in> set [CHR 0x09, CHR 0x0A, CHR 0x0C, CHR 0x0D, CHR 0x20]"

definition skip_space :: "string \<Rightarrow> string" where
  "skip_space s = dropWhile re_space s"

text \<open>
  The number with its optional fraction, and what follows. The unit is matched up to case, and under
  Unicode folding the Kelvin sign is a K.
\<close>

definition size_number :: "string \<Rightarrow> (string \<times> string) option" where
  "size_number s =
     (let whole = takeWhile is_digit s; r = drop (length whole) s
      in if whole = [] then None
         else (case r of
                 c # r' \<Rightarrow>
                   (let frac = takeWhile is_digit r'
                    in if c = CHR ''.'' \<and> frac \<noteq> [] then Some (whole @ c # frac, drop (length frac) r')
                       else Some (whole, r))
               | [] \<Rightarrow> Some (whole, r)))"

definition trafficSizePattern :: "string \<Rightarrow> (string \<times> string) option" where
  "trafficSizePattern s =
     (case size_number (skip_space s) of
        None \<Rightarrow> None
      | Some (num, r) \<Rightarrow>
         (let unit = rev (skip_space (rev (skip_space r)))
          in if fold_name unit \<in> set [''B'', ''KB'', ''MB'', ''GB'', ''TB''] then Some (num, unit) else None))"

definition ToUpper :: "string \<Rightarrow> string" where
  "ToUpper s = map (\<lambda>c. if in_range 97 c 122 then char_of (byte c - 32) else c) s"

definition unit_multiplier :: "string \<Rightarrow> nat" where
  "unit_multiplier unit =
     (if unit = ''B'' then 1
      else if unit = ''KB'' then 1024
      else if unit = ''MB'' then 1024 * 1024
      else if unit = ''GB'' then 1024 * 1024 * 1024
      else if unit = ''TB'' then 1024 * 1024 * 1024 * 1024
      else 1)"

section \<open>Decoding and encoding\<close>

definition MaxUint64 :: nat where "MaxUint64 = 2 ^ 64 - 1"

text \<open>
  num * float64(multiplier): the product with a power of two is exact, so its integral part is that
  of the scaled mantissa; a product beyond the range of float64 saturates like any other large one.
\<close>

definition scaled_bytes :: "float64 \<Rightarrow> nat \<Rightarrow> nat" where
  "scaled_bytes num multiplier =
     (let m = Mantissa num * multiplier; e = Exponent num;
          bytes = (if e \<ge> 0 then m * 2 ^ nat e else m div 2 ^ nat (- e))
      in if bytes \<ge> 2 ^ 64 then MaxUint64 else bytes)"

definition size_of_string :: "string \<Rightarrow> TrafficSize" where
  "size_of_string str =
     (let t = zero_TrafficSize\<lparr>Raw := str\<rparr>;
          plain = (case ParseUint str 64 of Inr n \<Rightarrow> t\<lparr>Bytes := of_nat n\<rparr> | Inl e \<Rightarrow> t)
      in if str = ''unlimited'' then t\<lparr>Unlimited := True\<rparr>
         else (case trafficSizePattern str of
                 Some (numStr, unit) \<Rightarrow>
                   (case ParseFloat numStr of
                      Some num \<Rightarrow> t\<lparr>Bytes := of_nat (scaled_bytes num (unit_multiplier (ToUpper unit)))\<rparr>
                    | None \<Rightarrow> plain)
               | None \<Rightarrow> plain))"

fun dec_TrafficSize :: "TrafficSize decoder" where
  "dec_TrafficSize JNull x = Ok zero_TrafficSize"
| "dec_TrafficSize (JStr str) x = Ok (size_of_string str)"
| "dec_TrafficSize (JNum n) x =
     (case ParseUint n 64 of
        Inr u \<Rightarrow> Ok (zero_TrafficSize\<lparr>Bytes := of_nat u\<rparr>)
      | Inl e \<Rightarrow> Err type_error)"
| "dec_TrafficSize _ x = Err type_error"

definition TrafficSize_MarshalJSON :: "TrafficSize \<Rightarrow> json" where
  "TrafficSize_MarshalJSON t =
     (if Raw t \<noteq> [] then JStr (Raw t)
      else if Unlimited t then JStr ''unlimited''
      else JNum (dec_of_nat (unat (Bytes t))))"

section \<open>Printing\<close>

function div_exp :: "nat \<Rightarrow> nat \<Rightarrow> nat \<Rightarrow> nat \<times> nat" where
  "div_exp n d k = (if n \<ge> 1024 then div_exp (n div 1024) (d * 1024) (k + 1) else (d, k))"
  by pat_completeness auto
termination
  by (relation "measure (\<lambda>(n, d, k). n)") auto

declare div_exp.simps [simp del]

text \<open>The verb .1f of a float64 divided by a power of two.\<close>

definition one_decimal :: "float64 \<Rightarrow> nat \<Rightarrow> string" where
  "one_decimal f d =
     (let (a, b) = (if Exponent f \<ge> 0 then (Mantissa f * 2 ^ nat (Exponent f), d)
                    else (Mantissa f, d * 2 ^ nat (- Exponent f)));
          tenths = half_even (10 * a) b
      in dec_of_nat (tenths div 10) @ CHR ''.'' # [digit_char (tenths mod 10)])"

definition float_of_uint :: "nat \<Rightarrow> float64" where
  "float_of_uint n = (case round_ratio False n 1 of Some f \<Rightarrow> f | None \<Rightarrow> zero_float64)"

definition formatBytes :: "64 word \<Rightarrow> string" where
  "formatBytes w =
     (let bytes = unat w
      in if bytes < 1024 then dec_of_nat bytes @ '' B''
         else (let (d, k) = div_exp (bytes div 1024) 1024 0
               in one_decimal (float_of_uint bytes) d @ '' '' @ [''KMGTPE'' ! k] @ ''B''))"

definition TrafficSize_String :: "TrafficSize \<Rightarrow> string" where
  "TrafficSize_String t =
     (if Raw t \<noteq> [] then Raw t else if Unlimited t then ''unlimited'' else formatBytes (Bytes t))"

section \<open>FlexibleID\<close>

fun dec_FlexibleID :: "string decoder" where
  "dec_FlexibleID JNull x = Ok []"
| "dec_FlexibleID (JStr s) x = Ok s"
| "dec_FlexibleID (JNum n) x = Ok n"
| "dec_FlexibleID _ x = Err type_error"

section \<open>Quotas with a unit\<close>

definition size_units :: "string list" where "size_units = [''B'', ''KB'', ''MB'', ''GB'', ''TB'']"

lemma dec_of_nat_is_digit: "c \<in> set (dec_of_nat n) \<Longrightarrow> is_digit c"
  using dec_of_nat_digits [of c n]
  by (auto simp: digit_val_def is_digit_def in_range_def byte_def Let_def split: if_splits)

lemma dec_of_nat_hd: "is_digit (hd (dec_of_nat n))"
  by (rule dec_of_nat_is_digit [OF hd_in_set]) simp

lemma digit_not_space: "is_digit c \<Longrightarrow> \<not> re_space c"
  by (auto simp: is_digit_def re_space_def in_range_def byte_def)

lemma re_space_plain: "re_space c \<Longrightarrow> \<not> is_digit c \<and> c \<noteq> CHR ''.''"
  using digit_not_space by (auto simp: re_space_def)

lemma skip_space_append: "list_all re_space a \<Longrightarrow> skip_space (a @ s) = skip_space s"
  unfolding skip_space_def by (induction a) simp_all

lemma skip_space_none: "s \<noteq> [] \<Longrightarrow> \<not> re_space (hd s) \<Longrightarrow> skip_space s = s"
  unfolding skip_space_def by (cases s) simp_all

text \<open>The units in any mixture of cases: one or two of ten letters.\<close>

definition unit_letters :: string where "unit_letters = ''BbKkMmGgTt''"

definition upper_char :: "char \<Rightarrow> char" where
  "upper_char c = (if in_range 97 c 122 then char_of (byte c - 32) else c)"

lemma up_letter: "upper_char c \<in> set ''BKMGT'' \<Longrightarrow> c \<in> set unit_letters"
proof -
  assume c: "upper_char c \<in> set ''BKMGT''"
  have "map byte ''BKMGT'' = [66, 75, 77, 71, 84]" by (simp add: byte_def)
  with imageI [OF c, of byte] have "byte (upper_char c) \<in> set [66, 75, 77, 71, 84]" by (simp only: set_map [symmetric])
  moreover have "byte (upper_char c) = (if in_range 97 c 122 then byte c - 32 else byte c)"
    using byte_shift(1) [of c] by (simp add: upper_char_def in_range_def)
  ultimately have "byte c \<in> set [66, 98, 75, 107, 77, 109, 71, 103, 84, 116]"
    by (auto simp: in_range_def split: if_splits)
  moreover have "char_of (byte c) = c" by (simp add: byte_def)
  moreover have "map char_of [66, 98, 75, 107, 77, 109, 71, 103, 84, 116 :: nat] = unit_letters"
    by (simp add: unit_letters_def char_of_def bit_numeral_rec bit_0)
  ultimately show ?thesis using imageI [of "byte c" _ char_of] by (metis set_map)
qed

definition unit_texts :: "string list" where
  "unit_texts = map (\<lambda>x. [x]) unit_letters @ concat (map (\<lambda>x. map (\<lambda>y. [x, y]) unit_letters) unit_letters)"

lemma unit_text:
  assumes "ToUpper u \<in> set size_units"
  shows "fold_name u = ToUpper u" and "u \<noteq> []" and "\<not> re_space (hd u)" and "\<not> re_space (last u)"
    and "\<not> is_digit (hd u)" and "hd u \<noteq> CHR ''.''"
proof -
  let ?ok = "\<lambda>u. fold_name u = ToUpper u \<and> u \<noteq> [] \<and> \<not> re_space (hd u) \<and> \<not> re_space (last u)
      \<and> \<not> is_digit (hd u) \<and> hd u \<noteq> CHR ''.''"
  have U: "ToUpper u = map upper_char u" by (simp add: ToUpper_def upper_char_def)
  have "list_all (\<lambda>s. (length s = 1 \<or> length s = 2) \<and> set s \<subseteq> set ''BKMGT'') size_units" by code_simp
  with assms have "length (ToUpper u) = 1 \<or> length (ToUpper u) = 2" "set (ToUpper u) \<subseteq> set ''BKMGT''"
    by (simp_all only: list_all_iff)
  then have "length u = 1 \<or> length u = 2" and "\<forall>c \<in> set u. c \<in> set unit_letters"
    using up_letter by (simp_all only: U length_map set_map) blast+
  then have "u \<in> set unit_texts"
    unfolding unit_texts_def set_append set_concat set_map by (fastforce simp: length_Suc_conv numeral_2_eq_2)
  moreover have "list_all (\<lambda>u. ToUpper u \<in> set size_units \<longrightarrow> ?ok u) unit_texts" by code_simp
  ultimately have "?ok u" using assms unfolding list_all_iff by blast
  then show "fold_name u = ToUpper u" and "u \<noteq> []" and "\<not> re_space (hd u)" and "\<not> re_space (last u)"
    and "\<not> is_digit (hd u)" and "hd u \<noteq> CHR ''.''" by simp_all
qed

text \<open>A quota: a number in decimal and a unit, with any blanks around them.\<close>

definition quota_text :: "string \<Rightarrow> nat \<Rightarrow> string \<Rightarrow> string \<Rightarrow> string \<Rightarrow> string" where
  "quota_text a n b u d = a @ dec_of_nat n @ b @ u @ d"

lemma size_number_unit:
  assumes "list_all re_space b" and "ToUpper u \<in> set size_units"
  shows "size_number (dec_of_nat n @ b @ u @ d) = Some (dec_of_nat n, b @ u @ d)"
proof -
  obtain c r where r: "b @ u @ d = c # r" using unit_text(2) [OF assms(2)] by (cases b; cases u) auto
  have c: "\<not> is_digit c" "c \<noteq> CHR ''.''"
    using r assms(1) re_space_plain [of c] unit_text(2,5,6) [OF assms(2)] by (cases b; cases u; force)+
  have "takeWhile is_digit (dec_of_nat n @ c # r) = dec_of_nat n"
    using dec_of_nat_is_digit c(1) by (subst takeWhile_append2) auto
  then show ?thesis using c(2) by (simp add: r size_number_def Let_def)
qed

lemma pattern_unit:
  assumes "list_all re_space a" "list_all re_space b" "list_all re_space d" and "ToUpper u \<in> set size_units"
  shows "trafficSizePattern (quota_text a n b u d) = Some (dec_of_nat n, u)"
proof -
  note u = unit_text [OF assms(4)]
  have "skip_space (dec_of_nat n @ b @ u @ d) = dec_of_nat n @ b @ u @ d"
    using digit_not_space [OF dec_of_nat_hd] by (intro skip_space_none) simp_all
  then have "skip_space (quota_text a n b u d) = dec_of_nat n @ b @ u @ d"
    by (simp add: quota_text_def skip_space_append [OF assms(1)])
  moreover have "skip_space (b @ u @ d) = u @ d"
    using u(2,3) by (simp add: skip_space_append [OF assms(2)] skip_space_none)
  moreover have "skip_space (rev d @ rev u) = rev u"
    using assms(3) u(2,4) by (simp add: skip_space_append list_all_rev skip_space_none hd_rev)
  ultimately show ?thesis
    using assms(4) u(1) size_number_unit [OF assms(2,4), of n d]
    by (simp add: trafficSizePattern_def size_units_def)
qed

text \<open>The value of a float64 that is read from an integer, and the bytes that are computed from it.\<close>

lemma unit_multiplier_power: "\<exists>j. unit_multiplier u = 2 ^ j \<and> j \<le> 40"
proof -
  have "unit_multiplier u \<in> set (map (\<lambda>j. 2 ^ j) [0, 10, 20, 30, 40])" by (simp add: unit_multiplier_def)
  then obtain j where "j \<in> set [0, 10, 20, 30, 40]" "unit_multiplier u = 2 ^ j" by (auto simp only: set_map)
  then show ?thesis by auto
qed

lemma quota_value:
  assumes "n < 2 ^ 1023"
  shows "\<exists>f v. ParseFloat (dec_of_nat n) = Some f
    \<and> (\<forall>k. scaled_bytes f k = (if v * k \<ge> 2 ^ 64 then MaxUint64 else v * k))
    \<and> (n \<le> 2 ^ 53 \<longrightarrow> v = n) \<and> 2 ^ 53 * \<bar>int v - int n\<bar> \<le> int n \<and> (\<forall>j. 2 ^ j \<le> n \<longrightarrow> 2 ^ j \<le> v)"
proof (cases "n < 2 ^ 53")
  case True
  then obtain f where f: "ParseFloat (dec_of_nat n) = Some f" "float_is f n" using ParseFloat_dec by blast
  then have "Mantissa f * k = n * k * 2 ^ nat (- Exponent f)" for k by (simp add: float_is_def)
  with f have "scaled_bytes f k = (if n * k \<ge> 2 ^ 64 then MaxUint64 else n * k)" for k
    by (auto simp: float_is_def scaled_bytes_def Let_def)
  with f(1) show ?thesis by (intro exI [of _ f] exI [of _ n]) simp
next
  case False
  then obtain m k where f: "ParseFloat (dec_of_nat n) = Some \<lparr>Negative = False, Mantissa = m, Exponent = int k\<rparr>"
    and near: "2 ^ 53 * \<bar>int (m * 2 ^ k) - int n\<bar> \<le> int n" and low: "\<And>j. 2 ^ j \<le> n \<Longrightarrow> 2 ^ j \<le> m * 2 ^ k"
    using round_ratio_large [of n] assms unfolding ParseFloat_dec_of_nat by auto
  have "m * 2 ^ k = n" if "n \<le> 2 ^ 53"
  proof -
    have "n = 2 ^ 53" using False that by simp
    moreover have "map_option (\<lambda>f. (Mantissa f, Exponent f)) (round_ratio False (2 ^ 53) 1) = Some (2 ^ 52, 1)" by code_simp
    ultimately have "m = 2 ^ 52" "int k = 1" using f unfolding ParseFloat_dec_of_nat by simp_all
    with \<open>n = 2 ^ 53\<close> show ?thesis by simp
  qed
  moreover have "scaled_bytes \<lparr>Negative = False, Mantissa = m, Exponent = int k\<rparr> u
      = (if m * 2 ^ k * u \<ge> 2 ^ 64 then MaxUint64 else m * 2 ^ k * u)" for u
    by (simp add: scaled_bytes_def Let_def mult.commute mult.left_commute)
  ultimately show ?thesis using f near low by blast
qed

lemma size_of_quota:
  assumes "list_all re_space a" "list_all re_space b" "list_all re_space d" and "ToUpper u \<in> set size_units"
    and "ParseFloat (dec_of_nat n) = Some f"
  shows "size_of_string (quota_text a n b u d) =
    \<lparr>Unlimited = False, Bytes = of_nat (scaled_bytes f (unit_multiplier (ToUpper u))), Raw = quota_text a n b u d\<rparr>"
proof -
  have "list_all (\<lambda>c. \<not> is_digit c) ''unlimited''" by code_simp
  moreover have "hd (dec_of_nat n) \<in> set (quota_text a n b u d)" by (simp add: quota_text_def)
  moreover note dec_of_nat_hd [of n]
  ultimately have "quota_text a n b u d \<noteq> ''unlimited''" by (metis list_all_iff)
  then show ?thesis
    unfolding size_of_string_def Let_def pattern_unit [OF assms(1-4)] option.case prod.case assms(5)
    by (simp only: if_False) (simp add: zero_TrafficSize_def)
qed

text \<open>A number beyond the range of float64 makes ParseFloat fail, and the quota is read as no bytes at all.\<close>

lemma uint_loop_letter: "c \<in> set s \<Longrightarrow> digit_val c = None \<Longrightarrow> \<exists>e. uint_loop mx acc s = Inl e"
  by (induction mx acc s rule: uint_loop.induct) (auto split: option.split)

lemma huge_quota:
  assumes "list_all re_space a" "list_all re_space b" "list_all re_space d" and "ToUpper u \<in> set size_units"
    and "2 ^ 1024 \<le> n"
  shows "Bytes (size_of_string (quota_text a n b u d)) = 0"
proof -
  have "ParseFloat (dec_of_nat n) = None" by (simp only: ParseFloat_dec_of_nat round_ratio_overflow [OF assms(5)])
  moreover have "hd u \<in> set (quota_text a n b u d)" using unit_text(2) [OF assms(4)] by (simp add: quota_text_def)
  then have "\<exists>e. ParseUint (quota_text a n b u d) 64 = Inl e"
    using uint_loop_letter [of "hd u"] unit_text(5) [OF assms(4)]
    by (auto simp: ParseUint_def digit_val_def is_digit_def in_range_def byte_def Let_def)
  ultimately show ?thesis
    by (auto simp: size_of_string_def pattern_unit [OF assms(1-4)] zero_TrafficSize_def Let_def)
qed

text \<open>
  C26: quotas are read as precisely as a float64 allows. A whole number below 2 ^ 1023 and one of the
  five units in any mixture of cases, with any blanks before, between and behind them, decode to a
  number of bytes, and the text is kept. The product with the unit, capped at the largest 64-bit value, is
  what the quota means: up to 2 ^ 53 the decoded number is exactly this; beyond, it differs from it by at
  most one part in 2 ^ 53 of the product; and a product of 2 ^ 64 or more always yields the largest
  64-bit value instead of wrapping around.
\<close>

theorem TrafficSize_quota:
  assumes "list_all re_space a" "list_all re_space b" "list_all re_space d"
    and "ToUpper u \<in> set size_units" and "n < 2 ^ 1023"
  shows "\<exists>t. dec_TrafficSize (JStr (quota_text a n b u d)) old = Ok t
    \<and> \<not> Unlimited t \<and> Raw t = quota_text a n b u d
    \<and> (n \<le> 2 ^ 53 \<longrightarrow> unat (Bytes t) = min (n * unit_multiplier (ToUpper u)) (2 ^ 64 - 1))
    \<and> 2 ^ 53 * \<bar>int (unat (Bytes t)) - int (min (n * unit_multiplier (ToUpper u)) (2 ^ 64 - 1))\<bar>
        \<le> int (n * unit_multiplier (ToUpper u))
    \<and> (2 ^ 64 \<le> n * unit_multiplier (ToUpper u) \<longrightarrow> unat (Bytes t) = 2 ^ 64 - 1)"
proof -
  let ?k = "unit_multiplier (ToUpper u)" and ?t = "size_of_string (quota_text a n b u d)"
  obtain f v where f: "ParseFloat (dec_of_nat n) = Some f"
    and sc: "\<And>k. scaled_bytes f k = (if v * k \<ge> 2 ^ 64 then MaxUint64 else v * k)"
    and exact: "n \<le> 2 ^ 53 \<Longrightarrow> v = n" and near: "2 ^ 53 * \<bar>int v - int n\<bar> \<le> int n"
    and low: "\<And>j. 2 ^ j \<le> n \<Longrightarrow> 2 ^ j \<le> v" using quota_value [OF assms(5)] by blast
  note t = size_of_quota [OF assms(1-4) f]
  have cap: "scaled_bytes f ?k = min (v * ?k) (2 ^ 64 - 1)" by (auto simp: sc MaxUint64_def)
  have bytes: "unat (Bytes ?t) = min (v * ?k) (2 ^ 64 - 1)"
    by (simp add: t cap unat_of_nat take_bit_nat_eq_self)
  have "2 ^ 53 * \<bar>int (v * ?k) - int (n * ?k)\<bar> \<le> int (n * ?k)"
  proof -
    have "int (v * ?k) - int (n * ?k) = (int v - int n) * int ?k" by (simp add: left_diff_distrib)
    then have "\<bar>int (v * ?k) - int (n * ?k)\<bar> = \<bar>int v - int n\<bar> * int ?k" by (simp only: abs_mult abs_of_nat)
    then show ?thesis using mult_right_mono [OF near, of "int ?k"] by (simp add: mult.assoc)
  qed
  moreover have "\<bar>int (min x z) - int (min y z)\<bar> \<le> \<bar>int x - int y\<bar>" for x y z :: nat by (simp add: min_def)
  ultimately have diff: "2 ^ 53 * \<bar>int (unat (Bytes ?t)) - int (min (n * ?k) (2 ^ 64 - 1))\<bar> \<le> int (n * ?k)"
    unfolding bytes by (meson mult_left_mono order_trans zero_le_numeral zero_le_power)
  have sat: "2 ^ 64 \<le> v * ?k" if "2 ^ 64 \<le> n * ?k"
  proof -
    obtain j where j: "?k = 2 ^ j" "j \<le> 40" using unit_multiplier_power by blast
    then have split: "(2::nat) ^ 64 = 2 ^ (64 - j) * 2 ^ j" by (simp only: power_add [symmetric]) simp
    from that have "2 ^ (64 - j) * 2 ^ j \<le> n * 2 ^ j" by (simp only: split j(1))
    then have "2 ^ (64 - j) \<le> n" by (simp only: mult_le_cancel2) simp
    then have "2 ^ (64 - j) \<le> v" by (rule low)
    then show ?thesis unfolding split j(1) by (rule mult_le_mono1)
  qed
  have "dec_TrafficSize (JStr (quota_text a n b u d)) old = Ok ?t" by simp
  moreover have "\<not> Unlimited ?t" "Raw ?t = quota_text a n b u d" by (simp_all add: t)
  moreover have "2 ^ 64 \<le> n * ?k \<longrightarrow> unat (Bytes ?t) = 2 ^ 64 - 1"
  proof
    assume "2 ^ 64 \<le> n * ?k"
    from sat [OF this] show "unat (Bytes ?t) = 2 ^ 64 - 1" by (simp add: bytes min_def)
  qed
  ultimately show ?thesis using bytes exact diff by blast
qed

theorem TrafficSize_quota_witness:
  "(\<exists>t. dec_TrafficSize (JStr '' 20 tB'') zero_TrafficSize = Ok t \<and> unat (Bytes t) = 21990232555520)
   \<and> (\<exists>t. dec_TrafficSize (JStr ''9007199254740993B'') zero_TrafficSize = Ok t
        \<and> \<bar>int (unat (Bytes t)) - 9007199254740993\<bar> \<le> 1)"
proof
  have "quota_text '' '' 20 '' '' ''tB'' [] = '' 20 tB''" "quota_text [] 9007199254740993 [] ''B'' [] = ''9007199254740993B''"
    by code_simp+
  moreover have "list_all re_space '' ''" "list_all re_space []" by code_simp+
  moreover have up: "ToUpper ''tB'' = ''TB''" "ToUpper ''B'' = ''B''" by code_simp+
  moreover have "ToUpper ''tB'' \<in> set size_units" "ToUpper ''B'' \<in> set size_units"
    unfolding up by (simp_all add: size_units_def)
  moreover have "(20::nat) < 2 ^ 1023" "(9007199254740993::nat) < 2 ^ 1023" by simp_all
  ultimately obtain t t' where t: "dec_TrafficSize (JStr '' 20 tB'') zero_TrafficSize = Ok t"
      "unat (Bytes t) = min (20 * unit_multiplier ''TB'') (2 ^ 64 - 1)"
    and t': "dec_TrafficSize (JStr ''9007199254740993B'') zero_TrafficSize = Ok t'"
      "2 ^ 53 * \<bar>int (unat (Bytes t')) - int (min (9007199254740993 * unit_multiplier ''B'') (2 ^ 64 - 1))\<bar>
        \<le> int (9007199254740993 * unit_multiplier ''B'')"
    using TrafficSize_quota [of "'' ''" "'' ''" "[]" "''tB''" 20 zero_TrafficSize]
      TrafficSize_quota [of "[]" "[]" "[]" "''B''" 9007199254740993 zero_TrafficSize] by auto
  show "\<exists>t. dec_TrafficSize (JStr '' 20 tB'') zero_TrafficSize = Ok t \<and> unat (Bytes t) = 21990232555520"
    using t by (simp add: unit_multiplier_def)
  show "\<exists>t. dec_TrafficSize (JStr ''9007199254740993B'') zero_TrafficSize = Ok t
      \<and> \<bar>int (unat (Bytes t)) - 9007199254740993\<bar> \<le> 1"
    using t' by (simp add: unit_multiplier_def)
qed

text \<open>The bound is met: the first number that a float64 cannot hold is read as its even neighbour.\<close>

lemma inexact_quota:
  "(case dec_TrafficSize (JStr ''9007199254740993 B'') zero_TrafficSize of Ok t \<Rightarrow> Bytes t = 9007199254740992 | _ \<Rightarrow> False)"
  by code_simp

section \<open>Encoding keeps what was decoded\<close>

text \<open>
  C27: a decoded quota survives being encoded and decoded again: the second decoding gives the same
  value, whatever form the first document had.
\<close>

theorem TrafficSize_reencode:
  assumes "dec_TrafficSize j old = Ok t"
  shows "dec_TrafficSize (TrafficSize_MarshalJSON t) old' = Ok t"
proof -
  have bytes: "ParseUint (dec_of_nat (unat w)) 64 = Inr (unat w)" for w :: "64 word"
    by (rule ParseUint_dec_of_nat) (use unsigned_less [of w] in simp)
  have raw: "Raw (size_of_string s) = s" for s
    by (simp add: size_of_string_def zero_TrafficSize_def Let_def split: sum.split option.split)
  have empty: "size_of_string [] = zero_TrafficSize" by code_simp
  show ?thesis
  proof (cases j)
    case (JStr s)
    with assms raw [of s] empty bytes [of 0] show ?thesis
      by (auto simp: TrafficSize_MarshalJSON_def zero_TrafficSize_def)
  qed (use assms bytes in \<open>auto simp: TrafficSize_MarshalJSON_def zero_TrafficSize_def split: sum.splits\<close>)
qed

theorem TrafficSize_reencode_witness:
  "dec_TrafficSize (TrafficSize_MarshalJSON (size_of_string ''1.5 gb'')) zero_TrafficSize
     = Ok (size_of_string ''1.5 gb'') \<and> Bytes (size_of_string ''1.5 gb'') = 1610612736"
proof
  show "dec_TrafficSize (TrafficSize_MarshalJSON (size_of_string ''1.5 gb'')) zero_TrafficSize
     = Ok (size_of_string ''1.5 gb'')"
    by (rule TrafficSize_reencode [of "JStr ''1.5 gb''" zero_TrafficSize]) simp
  show "Bytes (size_of_string ''1.5 gb'') = 1610612736" by code_simp
qed

section \<open>The unit letter exists\<close>

lemma div_exp_bound: "n < 1024 ^ Suc j \<Longrightarrow> snd (div_exp n d k) \<le> k + j"
proof (induction n d k arbitrary: j rule: div_exp.induct)
  case (1 n d k)
  show ?case
  proof (cases "1024 \<le> n")
    case True
    with "1.prems" obtain j' where "j = Suc j'" by (cases j) auto
    with 1 True have "snd (div_exp (n div 1024) (d * 1024) (k + 1)) \<le> k + 1 + j'"
      by (simp add: less_mult_imp_div_less)
    with True \<open>j = Suc j'\<close> show ?thesis by (subst div_exp.simps) simp
  qed (simp add: div_exp.simps [of n])
qed

lemma unit_letter_exists: "snd (div_exp (unat (w :: 64 word) div 1024) 1024 0) < length ''KMGTPE''"
proof -
  have "unat w < 2 ^ 64" using unsigned_less [of w] by simp
  then have "unat w div 1024 < 1024 ^ Suc 5" by (simp add: less_mult_imp_div_less)
  from div_exp_bound [OF this, of 1024 0] show ?thesis by simp
qed

text \<open>A K that is a Kelvin sign is matched by the pattern but multiplies by one.\<close>

lemma kelvin_unit:
  "(case dec_TrafficSize (JStr (''5 '' @ [CHR 0xE2, CHR 0x84, CHR 0xAA] @ ''B'')) zero_TrafficSize of
      Ok t \<Rightarrow> Bytes t = 5 | _ \<Rightarrow> False)
   \<and> trafficSizePattern (''5 '' @ [CHR 0xE2, CHR 0x84, CHR 0xAA] @ ''B'') \<noteq> None"
  by code_simp

end
