(* ===== verification/Servers.thy ===== *)
theory Servers
  imports NetIP TrafficSizes Forms
begin

text \<open>
  server.go, reset.go and wol.go, with the Server, Subnet and Reset types of types.go. Cancelling a
  server is refused by the client's policy. Reset has a decoder of its own, because its
  type member is an array in one response and a string in another; on null that
  decoder dereferences a nil pointer.
\<close>

section \<open>Servers\<close>

record Subnet =
  NetIP :: IP
  NetMask :: string

record Server =
  ServerIP :: IP
  ServerNumber :: int
  ServerName :: string
  ServerProduct :: string
  DC :: string
  Traffic :: TrafficSize
  ServerStatus :: string
  Cancelled :: bool
  PaidUntil :: string
  ServerIPs :: "IP list"
  IPv6Net :: string
  ServerSubnets :: "Subnet list"
  HasReset :: bool
  HasRescue :: bool
  HasVNC :: bool
  HasWindows :: bool
  HasWOL :: bool
  HotSwap :: bool
  LinkedStorageBox :: "int option"

definition ServerStatusReady :: string where "ServerStatusReady = ''ready''"
definition ServerStatusInProcess :: string where "ServerStatusInProcess = ''in process''"
definition ServerStatusCancelled :: string where "ServerStatusCancelled = ''cancelled''"

definition zero_Subnet :: Subnet where "zero_Subnet = \<lparr>NetIP = [], NetMask = []\<rparr>"

definition dec_Subnet :: "Subnet decoder" where
  "dec_Subnet = dec_struct [fld ''ip'' dec_IP NetIP NetIP_update, fld ''mask'' dec_string NetMask NetMask_update]"

definition zero_Server :: Server where
  "zero_Server = \<lparr>ServerIP = [], ServerNumber = 0, ServerName = [], ServerProduct = [], DC = [],
     Traffic = zero_TrafficSize, ServerStatus = [], Cancelled = False, PaidUntil = [], ServerIPs = [],
     IPv6Net = [], ServerSubnets = [], HasReset = False, HasRescue = False, HasVNC = False,
     HasWindows = False, HasWOL = False, HotSwap = False, LinkedStorageBox = None\<rparr>"

definition dec_Server :: "Server decoder" where
  "dec_Server = dec_struct
     [fld ''server_ip'' dec_IP ServerIP ServerIP_update,
      fld ''server_number'' dec_int ServerNumber ServerNumber_update,
      fld ''server_name'' dec_string ServerName ServerName_update,
      fld ''product'' dec_string ServerProduct ServerProduct_update,
      fld ''dc'' dec_string DC DC_update,
      fld ''traffic'' dec_TrafficSize Traffic Traffic_update,
      fld ''status'' dec_string ServerStatus ServerStatus_update,
      fld ''cancelled'' dec_bool Cancelled Cancelled_update,
      fld ''paid_until'' dec_string PaidUntil PaidUntil_update,
      fld ''ip'' (dec_list [] dec_IP) ServerIPs ServerIPs_update,
      fld ''server_ipv6_net'' dec_string IPv6Net IPv6Net_update,
      fld ''subnet'' (dec_list zero_Subnet dec_Subnet) ServerSubnets ServerSubnets_update,
      fld ''reset'' dec_bool HasReset HasReset_update,
      fld ''rescue'' dec_bool HasRescue HasRescue_update,
      fld ''vnc'' dec_bool HasVNC HasVNC_update,
      fld ''windows'' dec_bool HasWindows HasWindows_update,
      fld ''wol'' dec_bool HasWOL HasWOL_update,
      fld ''hot_swap'' dec_bool HotSwap HotSwap_update,
      fld ''linked_storagebox'' (dec_ptr 0 dec_int) LinkedStorageBox LinkedStorageBox_update]"

definition server_target :: "Server target" where "server_target = (zero_Server, Some dec_Server)"

definition ServerID_String :: "int \<Rightarrow> string" where "ServerID_String s = Itoa s"

definition srv_path :: "int \<Rightarrow> string" where
  "srv_path serverID = ''/server/'' @ ServerID_String serverID"

definition srv_List :: "Server list call" where
  "srv_List c w = client_Get c w ''/server'' ([], Some (dec_list zero_Server dec_Server))"

definition srv_Get :: "int \<Rightarrow> Server call" where
  "srv_Get serverID c w = client_Get c w (srv_path serverID) server_target"

definition SetName :: "int \<Rightarrow> string \<Rightarrow> Server call" where
  "SetName serverID name c w =
     client_Post c w (srv_path serverID) (Some (encodeForm [(''server_name'', name)])) server_target"

record Cancellation =
  CancelServerID :: int
  CancelDate :: string
  CancelReason :: string

definition RequestCancellation :: "Cancellation \<Rightarrow> unit call" where
  "RequestCancellation cancellation c w = (Err (NewPolicyError ''ServerService.RequestCancellation''), c, w)"

definition WithdrawCancellation :: "int \<Rightarrow> unit call" where
  "WithdrawCancellation serverID c w = client_Delete c w (srv_path serverID @ ''/cancellation'')"

interpretation srv_list: live_endpoint srv_List MethodGet "''/server''" "[]"
  unfolding srv_List_def by (rule live_endpoints)

interpretation srv_get: live_endpoint "srv_Get i" MethodGet "srv_path i" "[]" for i
  unfolding srv_Get_def by (rule live_endpoints)

interpretation srv_set_name: live_endpoint "SetName i n" MethodPost "srv_path i"
  "form_body (Some (encodeForm [(''server_name'', n)]))" for i n
  unfolding SetName_def by (rule live_endpoints)

interpretation srv_withdraw: live_endpoint "WithdrawCancellation i" MethodDelete "srv_path i @ ''/cancellation''" "[]" for i
  unfolding WithdrawCancellation_def by (rule live_endpoints)

section \<open>Resets\<close>

definition ResetTypeSoftware :: string where "ResetTypeSoftware = ''sw''"
definition ResetTypeHardware :: string where "ResetTypeHardware = ''hw''"
definition ResetTypePower :: string where "ResetTypePower = ''power''"
definition ResetTypePowerLong :: string where "ResetTypePowerLong = ''power_long''"
definition ResetTypeManual :: string where "ResetTypeManual = ''man''"

record ResetConfig =
  ResetServerIP :: IP
  ResetServerIPv6Net :: string
  ResetServerNumber :: int
  ResetTypes :: "string list"
  OperatingStatus :: string

definition zero_ResetConfig :: ResetConfig where
  "zero_ResetConfig = \<lparr>ResetServerIP = [], ResetServerIPv6Net = [], ResetServerNumber = 0,
     ResetTypes = [], OperatingStatus = []\<rparr>"

text \<open>
  The auxiliary struct of UnmarshalJSON: the raw type member, which hides that of the embedded
  alias, and the receiver. It is reached through a pointer, which null sets to nil.
\<close>

definition aux_reset_fields :: "(json option \<times> ResetConfig) fields" where
  "aux_reset_fields =
     [fld ''type'' dec_raw fst apfst,
      fld ''server_ip'' dec_IP (ResetServerIP \<circ> snd) (apsnd \<circ> ResetServerIP_update),
      fld ''server_ipv6_net'' dec_string (ResetServerIPv6Net \<circ> snd) (apsnd \<circ> ResetServerIPv6Net_update),
      fld ''server_number'' dec_int (ResetServerNumber \<circ> snd) (apsnd \<circ> ResetServerNumber_update),
      fld ''operating_status'' dec_string (OperatingStatus \<circ> snd) (apsnd \<circ> OperatingStatus_update)]"

definition reset_types :: "json option \<Rightarrow> string list option" where
  "reset_types t =
     (case t of
        None \<Rightarrow> None
      | Some j \<Rightarrow>
         (case dec_list [] dec_string j [] of
            Ok ts \<Rightarrow> Some ts
          | _ \<Rightarrow> (case dec_string j [] of Ok s \<Rightarrow> Some [s] | _ \<Rightarrow> None)))"

definition dec_ResetConfig :: "ResetConfig decoder" where
  "dec_ResetConfig j r =
     (if j = JNull then Panic ''nil pointer dereference''
      else bind_result (dec_struct aux_reset_fields j (None, r)) (\<lambda>(t, r').
        case reset_types t of
          Some ts \<Rightarrow> Ok (r'\<lparr>ResetTypes := ts\<rparr>)
        | None \<Rightarrow> Err (ErrorString ''type field must be either string or array'')))"

definition reset_target :: "ResetConfig target" where
  "reset_target = (zero_ResetConfig, Some dec_ResetConfig)"

definition reset_path :: "int \<Rightarrow> string" where
  "reset_path serverID = ''/reset/'' @ ServerID_String serverID"

definition reset_List :: "ResetConfig list call" where
  "reset_List c w = client_Get c w ''/reset'' ([], Some (dec_list zero_ResetConfig dec_ResetConfig))"

definition reset_Get :: "int \<Rightarrow> ResetConfig call" where
  "reset_Get serverID c w = client_Get c w (reset_path serverID) reset_target"

definition Execute :: "int \<Rightarrow> string \<Rightarrow> ResetConfig call" where
  "Execute serverID resetType c w =
     client_Post c w (reset_path serverID) (Some (Values_Set [] ''type'' resetType)) reset_target"

definition ExecuteSoftware :: "int \<Rightarrow> ResetConfig call" where
  "ExecuteSoftware serverID = Execute serverID ResetTypeSoftware"

definition ExecuteHardware :: "int \<Rightarrow> ResetConfig call" where
  "ExecuteHardware serverID = Execute serverID ResetTypeHardware"

definition ExecutePower :: "int \<Rightarrow> ResetConfig call" where
  "ExecutePower serverID = Execute serverID ResetTypePower"

interpretation reset_list: live_endpoint reset_List MethodGet "''/reset''" "[]"
  unfolding reset_List_def by (rule live_endpoints)

interpretation reset_get: live_endpoint "reset_Get i" MethodGet "reset_path i" "[]" for i
  unfolding reset_Get_def by (rule live_endpoints)

interpretation reset_execute: live_endpoint "Execute i t" MethodPost "reset_path i"
  "form_body (Some (Values_Set [] ''type'' t))" for i t
  unfolding Execute_def by (rule live_endpoints)

section \<open>Wake on LAN\<close>

record WOLResponse =
  WOLServerIP :: string
  WOLServerIPv6Net :: string
  WOLServerNumber :: int

definition zero_WOLResponse :: WOLResponse where
  "zero_WOLResponse = \<lparr>WOLServerIP = [], WOLServerIPv6Net = [], WOLServerNumber = 0\<rparr>"

definition dec_WOLResponse :: "WOLResponse decoder" where
  "dec_WOLResponse = dec_struct
     [fld ''server_ip'' dec_string WOLServerIP WOLServerIP_update,
      fld ''server_ipv6_net'' dec_string WOLServerIPv6Net WOLServerIPv6Net_update,
      fld ''server_number'' dec_int WOLServerNumber WOLServerNumber_update]"

definition wol_target :: "WOLResponse target" where "wol_target = (zero_WOLResponse, Some dec_WOLResponse)"

definition wol_path :: "int \<Rightarrow> string" where
  "wol_path serverID = ''/wol/'' @ ServerID_String serverID"

definition wol_Send :: "int \<Rightarrow> WOLResponse call" where
  "wol_Send serverID c w = client_Post c w (wol_path serverID) None wol_target"

definition wol_Get :: "int \<Rightarrow> WOLResponse call" where
  "wol_Get serverID c w = client_Get c w (wol_path serverID) wol_target"

interpretation wol_send: live_endpoint "wol_Send i" MethodPost "wol_path i" "form_body None" for i
  unfolding wol_Send_def by (rule live_endpoints)

interpretation wol_get: live_endpoint "wol_Get i" MethodGet "wol_path i" "[]" for i
  unfolding wol_Get_def by (rule live_endpoints)

end
