(* ===== verification/Boot.thy ===== *)
theory Boot
  imports GoFloat Forms
begin

text \<open>
  boot.go: the boot configurations of a server. A member of type any holds the chosen value while the
  configuration is active and the list of choices while it is not; the accessors tell the two
  apart. Activations check their required options before anything is sent.
\<close>

section \<open>Values of type any\<close>

datatype any_value =
  AnyNil | AnyBool bool | AnyFloat float64 | AnyStr string
| AnySlice "any_value list" | AnyMap "(string \<times> any_value) list"

text \<open>Decoding into an empty interface; a number outside the range of float64 is an error.\<close>

fun to_any :: "json \<Rightarrow> any_value result"
  and to_anys :: "json list \<Rightarrow> any_value list result"
  and to_any_members :: "(string \<times> json) list \<Rightarrow> (string \<times> any_value) list \<Rightarrow> (string \<times> any_value) list result"
  where
  "to_any JNull = Ok AnyNil"
| "to_any (JBool b) = Ok (AnyBool b)"
| "to_any (JNum n) = (case ParseFloat n of Some f \<Rightarrow> Ok (AnyFloat f) | None \<Rightarrow> Err type_error)"
| "to_any (JStr s) = Ok (AnyStr s)"
| "to_any (JArr js) = bind_result (to_anys js) (\<lambda>xs. Ok (AnySlice xs))"
| "to_any (JObj ms) = bind_result (to_any_members ms []) (\<lambda>m. Ok (AnyMap m))"
| "to_anys [] = Ok []"
| "to_anys (j # js) = bind_result (to_any j) (\<lambda>x. bind_result (to_anys js) (\<lambda>xs. Ok (x # xs)))"
| "to_any_members [] m = Ok m"
| "to_any_members ((k, j) # ms) m =
     bind_result (to_any j) (\<lambda>x. to_any_members ms (AList.update k x m))"

definition dec_any :: "any_value decoder" where "dec_any j x = to_any j"

text \<open>
  The accessors. The client puts only decoded values into these members, so the case int of the
  code's type switches does not arise here.
\<close>

definition scalarString :: "any_value \<Rightarrow> string" where
  "scalarString v = (case v of AnyStr s \<Rightarrow> s | _ \<Rightarrow> [])"

definition optionStrings :: "any_value \<Rightarrow> string list" where
  "optionStrings v = (case v of AnySlice arr \<Rightarrow> [s. AnyStr s \<leftarrow> arr] | _ \<Rightarrow> [])"

definition scalarInt :: "any_value \<Rightarrow> int" where
  "scalarInt v = (case v of AnyFloat n \<Rightarrow> float_to_int n | _ \<Rightarrow> 0)"

definition optionInts :: "any_value \<Rightarrow> int list" where
  "optionInts v = (case v of AnySlice arr \<Rightarrow> [float_to_int n. AnyFloat n \<leftarrow> arr] | _ \<Rightarrow> [])"

section \<open>Data\<close>

record BootKeyDetail =
  DetailName :: string
  DetailFingerprint :: string
  DetailType :: string
  DetailSize :: int

record BootKey =
  BKey :: BootKeyDetail

record RescueConfig =
  RescueServerIP :: string
  RescueServerIPv6Net :: string
  RescueServerNumber :: int
  RescueActive :: bool
  RescueOS :: any_value
  RescueArch :: any_value
  RescueAuthorizedKeys :: "BootKey list"
  RescueHostKeys :: "BootKey list"
  RescuePassword :: "string option"

record LinuxConfig =
  LinuxServerIP :: string
  LinuxServerIPv6Net :: string
  LinuxServerNumber :: int
  LinuxDist :: any_value
  LinuxArch :: any_value
  LinuxLang :: any_value
  LinuxActive :: bool
  LinuxHostname :: string
  LinuxPassword :: "string option"
  LinuxAuthorizedKeys :: "BootKey list"
  LinuxHostKeys :: "BootKey list"

record VNCConfig =
  VNCServerIP :: string
  VNCServerIPv6Net :: string
  VNCServerNumber :: int
  VNCActive :: bool
  VNCDist :: any_value
  VNCArch :: any_value
  VNCLang :: any_value
  VNCPassword :: "string option"

record WindowsConfig =
  WindowsServerIP :: string
  WindowsServerIPv6Net :: string
  WindowsServerNumber :: int
  WindowsActive :: bool
  WindowsOS :: any_value
  WindowsLang :: any_value
  WindowsPassword :: "string option"

record PleskConfig =
  PleskActive :: bool
  PleskHostname :: string

record CPanelConfig =
  CPanelActive :: bool
  CPanelHostname :: string

record BootConfig =
  Rescue :: "RescueConfig option"
  Linux :: "LinuxConfig option"
  VNC :: "VNCConfig option"
  Windows :: "WindowsConfig option"
  Plesk :: "PleskConfig option"
  CPanel :: "CPanelConfig option"

section \<open>Decoding\<close>

definition zero_BootKeyDetail :: BootKeyDetail where
  "zero_BootKeyDetail = \<lparr>DetailName = [], DetailFingerprint = [], DetailType = [], DetailSize = 0\<rparr>"

definition dec_BootKeyDetail :: "BootKeyDetail decoder" where
  "dec_BootKeyDetail = dec_struct
     [fld ''name'' dec_string DetailName DetailName_update,
      fld ''fingerprint'' dec_string DetailFingerprint DetailFingerprint_update,
      fld ''type'' dec_string DetailType DetailType_update,
      fld ''size'' dec_int DetailSize DetailSize_update]"

definition dec_BootKey :: "BootKey decoder" where
  "dec_BootKey = dec_struct [fld ''key'' dec_BootKeyDetail BKey BKey_update]"

definition dec_keys :: "BootKey list decoder" where
  "dec_keys = dec_list \<lparr>BKey = zero_BootKeyDetail\<rparr> dec_BootKey"

definition zero_RescueConfig :: RescueConfig where
  "zero_RescueConfig = \<lparr>RescueServerIP = [], RescueServerIPv6Net = [], RescueServerNumber = 0,
     RescueActive = False, RescueOS = AnyNil, RescueArch = AnyNil, RescueAuthorizedKeys = [],
     RescueHostKeys = [], RescuePassword = None\<rparr>"

definition dec_RescueConfig :: "RescueConfig decoder" where
  "dec_RescueConfig = dec_struct
     [fld ''server_ip'' dec_string RescueServerIP RescueServerIP_update,
      fld ''server_ipv6_net'' dec_string RescueServerIPv6Net RescueServerIPv6Net_update,
      fld ''server_number'' dec_int RescueServerNumber RescueServerNumber_update,
      fld ''active'' dec_bool RescueActive RescueActive_update,
      fld ''os'' dec_any RescueOS RescueOS_update,
      fld ''arch'' dec_any RescueArch RescueArch_update,
      fld ''authorized_key'' dec_keys RescueAuthorizedKeys RescueAuthorizedKeys_update,
      fld ''host_key'' dec_keys RescueHostKeys RescueHostKeys_update,
      fld ''password'' (dec_ptr [] dec_string) RescuePassword RescuePassword_update]"

definition zero_LinuxConfig :: LinuxConfig where
  "zero_LinuxConfig = \<lparr>LinuxServerIP = [], LinuxServerIPv6Net = [], LinuxServerNumber = 0,
     LinuxDist = AnyNil, LinuxArch = AnyNil, LinuxLang = AnyNil, LinuxActive = False, LinuxHostname = [],
     LinuxPassword = None, LinuxAuthorizedKeys = [], LinuxHostKeys = []\<rparr>"

definition dec_LinuxConfig :: "LinuxConfig decoder" where
  "dec_LinuxConfig = dec_struct
     [fld ''server_ip'' dec_string LinuxServerIP LinuxServerIP_update,
      fld ''server_ipv6_net'' dec_string LinuxServerIPv6Net LinuxServerIPv6Net_update,
      fld ''server_number'' dec_int LinuxServerNumber LinuxServerNumber_update,
      fld ''dist'' dec_any LinuxDist LinuxDist_update,
      fld ''arch'' dec_any LinuxArch LinuxArch_update,
      fld ''lang'' dec_any LinuxLang LinuxLang_update,
      fld ''active'' dec_bool LinuxActive LinuxActive_update,
      fld ''hostname'' dec_string LinuxHostname LinuxHostname_update,
      fld ''password'' (dec_ptr [] dec_string) LinuxPassword LinuxPassword_update,
      fld ''authorized_key'' dec_keys LinuxAuthorizedKeys LinuxAuthorizedKeys_update,
      fld ''host_key'' dec_keys LinuxHostKeys LinuxHostKeys_update]"

definition zero_VNCConfig :: VNCConfig where
  "zero_VNCConfig = \<lparr>VNCServerIP = [], VNCServerIPv6Net = [], VNCServerNumber = 0, VNCActive = False,
     VNCDist = AnyNil, VNCArch = AnyNil, VNCLang = AnyNil, VNCPassword = None\<rparr>"

definition dec_VNCConfig :: "VNCConfig decoder" where
  "dec_VNCConfig = dec_struct
     [fld ''server_ip'' dec_string VNCServerIP VNCServerIP_update,
      fld ''server_ipv6_net'' dec_string VNCServerIPv6Net VNCServerIPv6Net_update,
      fld ''server_number'' dec_int VNCServerNumber VNCServerNumber_update,
      fld ''active'' dec_bool VNCActive VNCActive_update,
      fld ''dist'' dec_any VNCDist VNCDist_update,
      fld ''arch'' dec_any VNCArch VNCArch_update,
      fld ''lang'' dec_any VNCLang VNCLang_update,
      fld ''password'' (dec_ptr [] dec_string) VNCPassword VNCPassword_update]"

definition zero_WindowsConfig :: WindowsConfig where
  "zero_WindowsConfig = \<lparr>WindowsServerIP = [], WindowsServerIPv6Net = [], WindowsServerNumber = 0,
     WindowsActive = False, WindowsOS = AnyNil, WindowsLang = AnyNil, WindowsPassword = None\<rparr>"

definition dec_WindowsConfig :: "WindowsConfig decoder" where
  "dec_WindowsConfig = dec_struct
     [fld ''server_ip'' dec_string WindowsServerIP WindowsServerIP_update,
      fld ''server_ipv6_net'' dec_string WindowsServerIPv6Net WindowsServerIPv6Net_update,
      fld ''server_number'' dec_int WindowsServerNumber WindowsServerNumber_update,
      fld ''active'' dec_bool WindowsActive WindowsActive_update,
      fld ''os'' dec_any WindowsOS WindowsOS_update,
      fld ''lang'' dec_any WindowsLang WindowsLang_update,
      fld ''password'' (dec_ptr [] dec_string) WindowsPassword WindowsPassword_update]"

definition dec_PleskConfig :: "PleskConfig decoder" where
  "dec_PleskConfig = dec_struct
     [fld ''active'' dec_bool PleskActive PleskActive_update,
      fld ''hostname'' dec_string PleskHostname PleskHostname_update]"

definition dec_CPanelConfig :: "CPanelConfig decoder" where
  "dec_CPanelConfig = dec_struct
     [fld ''active'' dec_bool CPanelActive CPanelActive_update,
      fld ''hostname'' dec_string CPanelHostname CPanelHostname_update]"

definition zero_BootConfig :: BootConfig where
  "zero_BootConfig = \<lparr>Rescue = None, Linux = None, VNC = None, Windows = None, Plesk = None, CPanel = None\<rparr>"

definition dec_BootConfig :: "BootConfig decoder" where
  "dec_BootConfig = dec_struct
     [fld ''rescue'' (dec_ptr zero_RescueConfig dec_RescueConfig) Rescue Rescue_update,
      fld ''linux'' (dec_ptr zero_LinuxConfig dec_LinuxConfig) Linux Linux_update,
      fld ''vnc'' (dec_ptr zero_VNCConfig dec_VNCConfig) VNC VNC_update,
      fld ''windows'' (dec_ptr zero_WindowsConfig dec_WindowsConfig) Windows Windows_update,
      fld ''plesk'' (dec_ptr \<lparr>PleskActive = False, PleskHostname = []\<rparr> dec_PleskConfig) Plesk Plesk_update,
      fld ''cpanel'' (dec_ptr \<lparr>CPanelActive = False, CPanelHostname = []\<rparr> dec_CPanelConfig) CPanel CPanel_update]"

definition rescue_target :: "RescueConfig target" where
  "rescue_target = (zero_RescueConfig, Some dec_RescueConfig)"

definition linux_target :: "LinuxConfig target" where
  "linux_target = (zero_LinuxConfig, Some dec_LinuxConfig)"

definition vnc_target :: "VNCConfig target" where "vnc_target = (zero_VNCConfig, Some dec_VNCConfig)"

definition windows_target :: "WindowsConfig target" where
  "windows_target = (zero_WindowsConfig, Some dec_WindowsConfig)"

section \<open>Accessors of the configurations\<close>

definition Rescue_ActiveOS :: "RescueConfig \<Rightarrow> string" where "Rescue_ActiveOS c = scalarString (RescueOS c)"
definition Rescue_AvailableOS :: "RescueConfig \<Rightarrow> string list" where
  "Rescue_AvailableOS c = optionStrings (RescueOS c)"
definition Rescue_ActiveArch :: "RescueConfig \<Rightarrow> int" where "Rescue_ActiveArch c = scalarInt (RescueArch c)"
definition Rescue_AvailableArchs :: "RescueConfig \<Rightarrow> int list" where
  "Rescue_AvailableArchs c = optionInts (RescueArch c)"
definition Linux_ActiveDist :: "LinuxConfig \<Rightarrow> string" where "Linux_ActiveDist c = scalarString (LinuxDist c)"
definition Linux_AvailableDists :: "LinuxConfig \<Rightarrow> string list" where
  "Linux_AvailableDists c = optionStrings (LinuxDist c)"
definition Linux_ActiveArch :: "LinuxConfig \<Rightarrow> int" where "Linux_ActiveArch c = scalarInt (LinuxArch c)"
definition Linux_AvailableArchs :: "LinuxConfig \<Rightarrow> int list" where
  "Linux_AvailableArchs c = optionInts (LinuxArch c)"
definition Linux_ActiveLang :: "LinuxConfig \<Rightarrow> string" where "Linux_ActiveLang c = scalarString (LinuxLang c)"
definition Linux_AvailableLangs :: "LinuxConfig \<Rightarrow> string list" where
  "Linux_AvailableLangs c = optionStrings (LinuxLang c)"
definition VNC_ActiveDist :: "VNCConfig \<Rightarrow> string" where "VNC_ActiveDist c = scalarString (VNCDist c)"
definition VNC_AvailableDists :: "VNCConfig \<Rightarrow> string list" where
  "VNC_AvailableDists c = optionStrings (VNCDist c)"
definition VNC_ActiveArch :: "VNCConfig \<Rightarrow> int" where "VNC_ActiveArch c = scalarInt (VNCArch c)"
definition VNC_AvailableArchs :: "VNCConfig \<Rightarrow> int list" where "VNC_AvailableArchs c = optionInts (VNCArch c)"
definition VNC_ActiveLang :: "VNCConfig \<Rightarrow> string" where "VNC_ActiveLang c = scalarString (VNCLang c)"
definition VNC_AvailableLangs :: "VNCConfig \<Rightarrow> string list" where
  "VNC_AvailableLangs c = optionStrings (VNCLang c)"
definition Windows_ActiveOS :: "WindowsConfig \<Rightarrow> string" where
  "Windows_ActiveOS c = scalarString (WindowsOS c)"
definition Windows_AvailableOS :: "WindowsConfig \<Rightarrow> string list" where
  "Windows_AvailableOS c = optionStrings (WindowsOS c)"
definition Windows_ActiveLang :: "WindowsConfig \<Rightarrow> string" where
  "Windows_ActiveLang c = scalarString (WindowsLang c)"
definition Windows_AvailableLangs :: "WindowsConfig \<Rightarrow> string list" where
  "Windows_AvailableLangs c = optionStrings (WindowsLang c)"

section \<open>Operations\<close>

record RescueActivateOpts =
  RescueOptOS :: string
  RescueOptAuthorizedKeys :: "string list"
  RescueOptKeyboard :: string
  RescueOptArch :: int

record LinuxActivateOpts =
  LinuxOptDist :: string
  LinuxOptLang :: string
  LinuxOptAuthorizedKeys :: "string list"
  LinuxOptArch :: int

record VNCActivateOpts =
  VNCOptDist :: string
  VNCOptLang :: string
  VNCOptArch :: int

definition boot_path :: "int \<Rightarrow> string" where
  "boot_path serverID = ''/boot/'' @ Itoa serverID"

text \<open>The first of the required options that is empty decides.\<close>

fun required :: "(string \<times> string) list \<Rightarrow> error option" where
  "required [] = None"
| "required ((name, value) # opts) =
     (if value = [] then Some (NewParseError (name @ '' is required'') None) else required opts)"

definition nonzero :: "int \<Rightarrow> string option" where
  "nonzero i = (if i \<noteq> 0 then Some (Itoa i) else None)"

definition boot_Get :: "int \<Rightarrow> BootConfig call" where
  "boot_Get serverID c w = client_Get c w (boot_path serverID) (zero_BootConfig, Some dec_BootConfig)"

definition rescue_form :: "RescueActivateOpts \<Rightarrow> Values" where
  "rescue_form opts =
     (let data = Values_Set [] ''os'' (RescueOptOS opts);
          data = Set_some ''arch'' (nonzero (RescueOptArch opts)) data;
          data = Set_some ''keyboard'' (nonempty (RescueOptKeyboard opts)) data
      in Add_all ''authorized_key[]'' (RescueOptAuthorizedKeys opts) data)"

definition ActivateRescue :: "int \<Rightarrow> RescueActivateOpts \<Rightarrow> RescueConfig call" where
  "ActivateRescue serverID opts =
     guarded (required [(''os'', RescueOptOS opts)])
       (\<lambda>c w. client_Post c w (boot_path serverID @ ''/rescue'') (Some (rescue_form opts)) rescue_target)"

definition DeactivateRescue :: "int \<Rightarrow> unit call" where
  "DeactivateRescue serverID c w = client_Delete c w (boot_path serverID @ ''/rescue'')"

definition GetLastRescue :: "int \<Rightarrow> RescueConfig call" where
  "GetLastRescue serverID c w = client_Get c w (boot_path serverID @ ''/rescue/last'') rescue_target"

definition linux_form :: "LinuxActivateOpts \<Rightarrow> Values" where
  "linux_form opts =
     (let data = Values_Set [] ''dist'' (LinuxOptDist opts);
          data = Values_Set data ''lang'' (LinuxOptLang opts);
          data = Set_some ''arch'' (nonzero (LinuxOptArch opts)) data
      in Add_all ''authorized_key[]'' (LinuxOptAuthorizedKeys opts) data)"

definition ActivateLinux :: "int \<Rightarrow> LinuxActivateOpts \<Rightarrow> LinuxConfig call" where
  "ActivateLinux serverID opts =
     guarded (required [(''dist'', LinuxOptDist opts), (''lang'', LinuxOptLang opts)])
       (\<lambda>c w. client_Post c w (boot_path serverID @ ''/linux'') (Some (linux_form opts)) linux_target)"

definition DeactivateLinux :: "int \<Rightarrow> unit call" where
  "DeactivateLinux serverID c w = client_Delete c w (boot_path serverID @ ''/linux'')"

definition vnc_form :: "VNCActivateOpts \<Rightarrow> Values" where
  "vnc_form opts =
     (let data = Values_Set [] ''dist'' (VNCOptDist opts);
          data = Values_Set data ''lang'' (VNCOptLang opts)
      in Set_some ''arch'' (nonzero (VNCOptArch opts)) data)"

definition ActivateVNC :: "int \<Rightarrow> VNCActivateOpts \<Rightarrow> VNCConfig call" where
  "ActivateVNC serverID opts =
     guarded (required [(''dist'', VNCOptDist opts), (''lang'', VNCOptLang opts)])
       (\<lambda>c w. client_Post c w (boot_path serverID @ ''/vnc'') (Some (vnc_form opts)) vnc_target)"

definition DeactivateVNC :: "int \<Rightarrow> unit call" where
  "DeactivateVNC serverID c w = client_Delete c w (boot_path serverID @ ''/vnc'')"

definition GetLastLinux :: "int \<Rightarrow> LinuxConfig call" where
  "GetLastLinux serverID c w = client_Get c w (boot_path serverID @ ''/linux/last'') linux_target"

definition GetWindows :: "int \<Rightarrow> WindowsConfig call" where
  "GetWindows serverID c w = client_Get c w (boot_path serverID @ ''/windows'') windows_target"

definition windows_form :: "string \<Rightarrow> string \<Rightarrow> Values" where
  "windows_form lang os = Values_Set (Values_Set [] ''lang'' lang) ''os'' os"

definition ActivateWindows :: "int \<Rightarrow> string \<Rightarrow> string \<Rightarrow> WindowsConfig call" where
  "ActivateWindows serverID lang os =
     guarded (required [(''lang'', lang), (''os'', os)])
       (\<lambda>c w. client_Post c w (boot_path serverID @ ''/windows'') (Some (windows_form lang os)) windows_target)"

definition DeactivateWindows :: "int \<Rightarrow> unit call" where
  "DeactivateWindows serverID c w = client_Delete c w (boot_path serverID @ ''/windows'')"

section \<open>Endpoints\<close>

interpretation boot_get: live_endpoint "boot_Get i" MethodGet "boot_path i" "[]" for i
  unfolding boot_Get_def by (rule live_endpoints)

interpretation rescue_on: endpoint "ActivateRescue i opts" MethodPost "boot_path i @ ''/rescue''"
  "form_body (Some (rescue_form opts))" for i opts
  unfolding ActivateRescue_def by (intro endpoint_guarded endpoints)

interpretation rescue_off: live_endpoint "DeactivateRescue i" MethodDelete "boot_path i @ ''/rescue''" "[]" for i
  unfolding DeactivateRescue_def by (rule live_endpoints)

interpretation rescue_last: live_endpoint "GetLastRescue i" MethodGet "boot_path i @ ''/rescue/last''" "[]" for i
  unfolding GetLastRescue_def by (rule live_endpoints)

interpretation linux_on: endpoint "ActivateLinux i opts" MethodPost "boot_path i @ ''/linux''"
  "form_body (Some (linux_form opts))" for i opts
  unfolding ActivateLinux_def by (intro endpoint_guarded endpoints)

interpretation linux_off: live_endpoint "DeactivateLinux i" MethodDelete "boot_path i @ ''/linux''" "[]" for i
  unfolding DeactivateLinux_def by (rule live_endpoints)

interpretation linux_last: live_endpoint "GetLastLinux i" MethodGet "boot_path i @ ''/linux/last''" "[]" for i
  unfolding GetLastLinux_def by (rule live_endpoints)

interpretation vnc_on: endpoint "ActivateVNC i opts" MethodPost "boot_path i @ ''/vnc''"
  "form_body (Some (vnc_form opts))" for i opts
  unfolding ActivateVNC_def by (intro endpoint_guarded endpoints)

interpretation vnc_off: live_endpoint "DeactivateVNC i" MethodDelete "boot_path i @ ''/vnc''" "[]" for i
  unfolding DeactivateVNC_def by (rule live_endpoints)

interpretation windows_get: live_endpoint "GetWindows i" MethodGet "boot_path i @ ''/windows''" "[]" for i
  unfolding GetWindows_def by (rule live_endpoints)

interpretation windows_on: endpoint "ActivateWindows i lang os" MethodPost "boot_path i @ ''/windows''"
  "form_body (Some (windows_form lang os))" for i lang os
  unfolding ActivateWindows_def by (intro endpoint_guarded endpoints)

interpretation windows_off: live_endpoint "DeactivateWindows i" MethodDelete "boot_path i @ ''/windows''" "[]" for i
  unfolding DeactivateWindows_def by (rule live_endpoints)

end
