(* ===== verification/ServiceProps.thy ===== *)
theory ServiceProps
  imports StorageBox Keys Rdns Failovers IPResources Traffic VSwitches Subnets Servers Boot SpecTest
begin

text \<open>
  The properties of the service operations: which options they require, what the requests carry, how
  answers are read and how waiting ends. They rest on the endpoint of each operation and on the
  lookup rules of forms (form_simps).
\<close>

section \<open>Required options\<close>

text \<open>The fields of an activation: the key, and the value when the field is set.\<close>

definition form_is :: "string \<Rightarrow> (string \<times> string list) list \<Rightarrow> bool" where
  "form_is body entries \<longleftrightarrow>
     (\<forall>k. form_value body k = (case map_of entries k of Some (v # vs) \<Rightarrow> Some (v # vs) | _ \<Rightarrow> None))"

lemma form_is_body:
  "distinct (map fst m) \<Longrightarrow> (\<And>k. go_index m k = go_index entries k) \<Longrightarrow> form_is (form_body (Some m)) entries"
proof -
  assume m: "distinct (map fst m)" and eq: "\<And>k. go_index m k = go_index entries k"
  have "(case map_of m k of Some (v # vs) \<Rightarrow> Some (v # vs) | _ \<Rightarrow> None) =
      (case map_of entries k of Some (v # vs) \<Rightarrow> Some (v # vs) | _ \<Rightarrow> None)" for k
    using eq [of k] by (auto simp: go_index_def split: option.splits list.splits)
  with m show ?thesis by (simp add: form_is_def form_value_form_body)
qed

definition given :: "string option \<Rightarrow> string list" where
  "given v = (case v of None \<Rightarrow> [] | Some s \<Rightarrow> [s])"

lemma go_index_lookup [form_simps]: "go_index m k = (case map_of m k of Some v \<Rightarrow> v | None \<Rightarrow> [])"
  by (simp add: go_index_def)

text \<open>What the body of each activation says.\<close>

lemma rescue_form_is:
  "form_is (form_body (Some (rescue_form opts)))
     [(''os'', [RescueOptOS opts]), (''arch'', given (nonzero (RescueOptArch opts))),
      (''keyboard'', given (nonempty (RescueOptKeyboard opts))), (''authorized_key[]'', RescueOptAuthorizedKeys opts)]"
  by (rule form_is_body)
    (auto simp: rescue_form_def Let_def given_def form_simps split: option.split)

lemma linux_form_is:
  "form_is (form_body (Some (linux_form opts)))
     [(''dist'', [LinuxOptDist opts]), (''lang'', [LinuxOptLang opts]), (''arch'', given (nonzero (LinuxOptArch opts))),
      (''authorized_key[]'', LinuxOptAuthorizedKeys opts)]"
  by (rule form_is_body)
    (auto simp: linux_form_def Let_def given_def form_simps split: option.split)

lemma vnc_form_is:
  "form_is (form_body (Some (vnc_form opts)))
     [(''dist'', [VNCOptDist opts]), (''lang'', [VNCOptLang opts]), (''arch'', given (nonzero (VNCOptArch opts)))]"
  by (rule form_is_body) (auto simp: vnc_form_def Let_def given_def form_simps split: option.split)

lemma windows_form_is: "form_is (form_body (Some (windows_form lang os))) [(''lang'', [lang]), (''os'', [os])]"
  by (rule form_is_body) (auto simp: windows_form_def form_simps)

text \<open>
  Every request of a call has one method and one path, and its body holds exactly the given entries; at
  least one is sent when nothing stands in the way.
\<close>

definition carries ::
  "client \<Rightarrow> 'a call \<Rightarrow> string \<Rightarrow> string \<Rightarrow> (string \<times> string list) list \<Rightarrow> bool" where
  "carries c call m path entries \<longleftrightarrow>
     (\<forall>w r c' w'. call c w = (r, c', w') \<longrightarrow>
        (\<forall>q \<in> set (sent (new_events w w')).
           Method q = m \<and> ReqURL q = baseURL c @ path \<and> form_is (ReqBody q) entries)
        \<and> (sendable c w path \<longrightarrow> sent (new_events w w') \<noteq> []))"

lemma carriesI:
  assumes "wf_client c" and "live_endpoint call m path body" and "form_is body entries"
  shows "carries c call m path entries"
  unfolding carries_def
  using endpoint.requests [OF live_endpoint.axioms(1) [OF assms(2)] assms(1)] assms(3)
    live_endpoint.not_silent [OF assms(2)]
  by blast

text \<open>
  What an activation does: the first required option that is empty is reported and nothing happens;
  otherwise each request is a POST to the path, its body holds exactly the given entries, and at least
  one is sent when nothing stands in the way.
\<close>

definition activation ::
  "client \<Rightarrow> 'a call \<Rightarrow> string \<Rightarrow> (string \<times> string) list \<Rightarrow> (string \<times> string list) list \<Rightarrow> bool" where
  "activation c call path req entries \<longleftrightarrow>
     (\<forall>w r c' w'. call c w = (r, c', w') \<longrightarrow>
        (case find (\<lambda>opt. snd opt = []) req of
           Some opt \<Rightarrow> r = Err (NewParseError (fst opt @ '' is required'') None) \<and> c' = c \<and> w' = w
         | None \<Rightarrow> (\<forall>q \<in> set (sent (new_events w w')).
             Method q = ''POST'' \<and> ReqURL q = baseURL c @ path \<and> form_is (ReqBody q) entries)
             \<and> (sendable c w path \<longrightarrow> sent (new_events w w') \<noteq> [])))"

lemma required_find:
  "required req = map_option (\<lambda>opt. NewParseError (fst opt @ '' is required'') None) (find (\<lambda>opt. snd opt = []) req)"
  by (induction req rule: required.induct) auto

lemma activationI:
  assumes "wf_client c" and "live_endpoint call MethodPost path body" and "form_is body entries"
  shows "activation c (guarded (required req) call) path req entries"
proof (cases "find (\<lambda>opt. snd opt = []) req")
  case None
  with carriesI [OF assms] show ?thesis by (simp add: activation_def carries_def required_find)
next
  case (Some opt)
  then show ?thesis by (simp add: activation_def required_find)
qed

lemma rescue_activation:
  "wf_client c \<Longrightarrow> activation c (ActivateRescue i ropts) (''/boot/'' @ Itoa i @ ''/rescue'') [(''os'', RescueOptOS ropts)]
     [(''os'', [RescueOptOS ropts]), (''arch'', given (nonzero (RescueOptArch ropts))),
      (''keyboard'', given (nonempty (RescueOptKeyboard ropts))),
      (''authorized_key[]'', RescueOptAuthorizedKeys ropts)]"
  using activationI [OF _ post_at.live_endpoint_axioms rescue_form_is]
  by (simp only: ActivateRescue_def boot_path_def append_assoc)

lemma linux_activation:
  "wf_client c \<Longrightarrow> activation c (ActivateLinux i lopts) (''/boot/'' @ Itoa i @ ''/linux'') 
     [(''dist'', LinuxOptDist lopts), (''lang'', LinuxOptLang lopts)]
     [(''dist'', [LinuxOptDist lopts]), (''lang'', [LinuxOptLang lopts]),
      (''arch'', given (nonzero (LinuxOptArch lopts))), (''authorized_key[]'', LinuxOptAuthorizedKeys lopts)]"
  using activationI [OF _ post_at.live_endpoint_axioms linux_form_is]
  by (simp only: ActivateLinux_def boot_path_def append_assoc)

lemma vnc_activation:
  "wf_client c \<Longrightarrow> activation c (ActivateVNC i vopts) (''/boot/'' @ Itoa i @ ''/vnc'') 
     [(''dist'', VNCOptDist vopts), (''lang'', VNCOptLang vopts)]
     [(''dist'', [VNCOptDist vopts]), (''lang'', [VNCOptLang vopts]), (''arch'', given (nonzero (VNCOptArch vopts)))]"
  using activationI [OF _ post_at.live_endpoint_axioms vnc_form_is]
  by (simp only: ActivateVNC_def boot_path_def append_assoc)

lemma windows_activation:
  "wf_client c \<Longrightarrow> activation c (ActivateWindows i lang os) (''/boot/'' @ Itoa i @ ''/windows'') 
     [(''lang'', lang), (''os'', os)]
     [(''lang'', [lang]), (''os'', [os])]"
  using activationI [OF _ post_at.live_endpoint_axioms windows_form_is]
  by (simp only: ActivateWindows_def boot_path_def append_assoc)

text \<open>
  C10: an activation without a required option fails before anything is sent and names the option; with
  all of them it sends its request when nothing stands in the way, with exactly the options that are set. Of the four kinds of installation
  rescue needs os, Linux and VNC need dist and lang, Windows needs lang and os.
\<close>

theorem boot_activations:
  assumes "wf_client c"
  shows "activation c (ActivateRescue i ropts) (''/boot/'' @ Itoa i @ ''/rescue'') [(''os'', RescueOptOS ropts)]
      [(''os'', [RescueOptOS ropts]), (''arch'', given (nonzero (RescueOptArch ropts))),
       (''keyboard'', given (nonempty (RescueOptKeyboard ropts))),
       (''authorized_key[]'', RescueOptAuthorizedKeys ropts)]
    \<and> activation c (ActivateLinux i lopts) (''/boot/'' @ Itoa i @ ''/linux'')
      [(''dist'', LinuxOptDist lopts), (''lang'', LinuxOptLang lopts)]
      [(''dist'', [LinuxOptDist lopts]), (''lang'', [LinuxOptLang lopts]),
       (''arch'', given (nonzero (LinuxOptArch lopts))), (''authorized_key[]'', LinuxOptAuthorizedKeys lopts)]
    \<and> activation c (ActivateVNC i vopts) (''/boot/'' @ Itoa i @ ''/vnc'')
      [(''dist'', VNCOptDist vopts), (''lang'', VNCOptLang vopts)]
      [(''dist'', [VNCOptDist vopts]), (''lang'', [VNCOptLang vopts]), (''arch'', given (nonzero (VNCOptArch vopts)))]
    \<and> activation c (ActivateWindows i lang os) (''/boot/'' @ Itoa i @ ''/windows'') [(''lang'', lang), (''os'', os)]
      [(''lang'', [lang]), (''os'', [os])]"
  using rescue_activation [OF assms] linux_activation [OF assms] vnc_activation [OF assms]
    windows_activation [OF assms]
  by blast

theorem boot_activations_witness:
  "ActivateWindows 7 '''' '''' lab_client (lab_world []) =
     (Err (NewParseError ''lang is required'' None), lab_client, lab_world [])
   \<and> (let (r, c', w') = ActivateWindows 7 ''en'' ''w'' lab_client (lab_world [reply 200 [] ''''])
      in map ReqBody (sent (trace w')) = [''lang=en&os=w''])"
proof
  obtain r c' w' where run: "ActivateWindows 7 '''' '''' lab_client (lab_world []) = (r, c', w')" by (metis prod_cases3)
  have "activation lab_client (ActivateWindows 7 '''' '''') (''/boot/'' @ Itoa 7 @ ''/windows'')
      [(''lang'', ''''), (''os'', '''')] [(''lang'', ['''']), (''os'', [''''])]"
    using boot_activations [OF lab_client_wf] by blast
  with run show "ActivateWindows 7 '''' '''' lab_client (lab_world []) =
     (Err (NewParseError ''lang is required'' None), lab_client, lab_world [])"
    by (simp add: activation_def)
  show "let (r, c', w') = ActivateWindows 7 ''en'' ''w'' lab_client (lab_world [reply 200 [] ''''])
      in map ReqBody (sent (trace w')) = [''lang=en&os=w'']" by code_simp
qed

section \<open>Partial updates\<close>

text \<open>The fields of an update of a storage box and of a sub-account under their keys.\<close>

definition box_entries :: "StorageBoxUpdate \<Rightarrow> (string \<times> string list) list" where
  "box_entries inp =
     [(''storagebox_name'', given (UpName inp)), (''samba'', given (map_option FormatBool (UpSamba inp))),
      (''webdav'', given (map_option FormatBool (UpWebdav inp))), (''ssh'', given (map_option FormatBool (UpSSH inp))),
      (''external_reachability'', given (map_option FormatBool (UpExternalReachability inp))),
      (''zfs'', given (map_option FormatBool (UpZFS inp)))]"

definition account_entries :: "StorageBoxSubAccountInput \<Rightarrow> (string \<times> string list) list" where
  "account_entries inp =
     [(''homedirectory'', given (InHomeDirectory inp)), (''samba'', given (map_option FormatBool (InSamba inp))),
      (''ssh'', given (map_option FormatBool (InSSH inp))),
      (''external_reachability'', given (map_option FormatBool (InExternalReachability inp))),
      (''webdav'', given (map_option FormatBool (InWebdav inp))),
      (''readonly'', given (map_option FormatBool (InReadOnly inp))), (''comment'', given (InComment inp)),
      (''password'', given (InPassword inp))]"

definition plan_entries :: "StorageBoxSnapshotPlan \<Rightarrow> (string \<times> string list) list" where
  "plan_entries plan =
     [(''status'', [PlanStatus plan]), (''minute'', given (map_option Itoa (Minute plan))),
      (''hour'', given (map_option Itoa (Hour plan))), (''day_of_week'', given (map_option Itoa (DayOfWeek plan))),
      (''day_of_month'', given (map_option Itoa (DayOfMonth plan))), (''month'', given (map_option Itoa (Month plan))),
      (''max_snapshots'', [Itoa (MaxSnapshots plan)])]"

lemma update_form_is: "form_is (form_body (Some (update_form inp))) (box_entries inp)"
  by (rule form_is_body)
    (auto simp: update_form_def box_entries_def Let_def given_def form_simps split: option.split)

lemma subAccountForm_is: "form_is (form_body (Some (subAccountForm inp))) (account_entries inp)"
  by (rule form_is_body)
    (auto simp: subAccountForm_def account_entries_def Let_def given_def form_simps split: option.split)

lemma plan_form_is: "form_is (form_body (Some (plan_form plan))) (plan_entries plan)"
  by (rule form_is_body)
    (auto simp: plan_form_def plan_entries_def Let_def given_def form_simps split: option.split)

text \<open>
  C11: partial updates send exactly what is set. A server that parses the body of an update of a
  storage box, of the creation or update of a sub-account, or of a snapshot plan reads under the
  documented keys the values that were given, false and zero included, and no key for a field that
  was left nil; so the fields that are not mentioned stay as they are. The update is really sent when nothing
  stands in the way.
\<close>

theorem partial_updates:
  assumes "wf_client c"
  shows "carries c (sb_Update i upd) ''POST'' (''/storagebox/'' @ Itoa i) (box_entries upd)
    \<and> carries c (CreateSubAccount i inp) ''POST'' (''/storagebox/'' @ Itoa i @ ''/subaccount'') (account_entries inp)
    \<and> carries c (UpdateSubAccount i user inp) ''PUT''
        (''/storagebox/'' @ Itoa i @ ''/subaccount/'' @ PathEscape user) (account_entries inp)
    \<and> carries c (SetSnapshotPlan i plan) ''POST'' (''/storagebox/'' @ Itoa i @ ''/snapshotplan'') (plan_entries plan)"
  using carriesI [OF assms sb_update.live_endpoint_axioms update_form_is, of i upd]
    carriesI [OF assms sub_create.live_endpoint_axioms subAccountForm_is, of i inp]
    carriesI [OF assms sub_update.live_endpoint_axioms subAccountForm_is, of i user inp]
    carriesI [OF assms plan_set.live_endpoint_axioms plan_form_is, of i plan]
  by (simp add: box_path_def subaccount_path_def)

theorem partial_updates_witness:
  "let upd = \<lparr>UpName = None, UpSamba = Some False, UpWebdav = None, UpSSH = None,
       UpExternalReachability = None, UpZFS = None\<rparr>;
       w = lab_world [reply 200 [] ''''];
       (r, c', w') = sb_Update 5 upd lab_client w
   in length (sent (new_events w w')) = 1
      \<and> form_value (ReqBody (hd (sent (new_events w w')))) ''samba'' = Some [''false'']
      \<and> form_value (ReqBody (hd (sent (new_events w w')))) ''ssh'' = None"
proof -
  let ?upd = "\<lparr>UpName = None, UpSamba = Some False, UpWebdav = None, UpSSH = None,
       UpExternalReachability = None, UpZFS = None\<rparr>"
  let ?w = "lab_world [reply 200 [] '''']"
  let ?w' = "snd (snd (sb_Update 5 ?upd lab_client ?w))"
  have one: "length (sent (new_events ?w ?w')) = 1" by code_simp
  then have "hd (sent (new_events ?w ?w')) \<in> set (sent (new_events ?w ?w'))" by (intro hd_in_set) auto
  moreover have "carries lab_client (sb_Update 5 ?upd) ''POST'' (''/storagebox/'' @ Itoa 5) (box_entries ?upd)"
    using partial_updates [OF lab_client_wf] by blast
  ultimately have "form_is (ReqBody (hd (sent (new_events ?w ?w')))) (box_entries ?upd)"
    unfolding carries_def by (metis prod.collapse)
  with one show ?thesis
    by (simp add: Let_def split_beta form_is_def box_entries_def given_def FormatBool_def)
qed

section \<open>Addresses in paths\<close>

text \<open>
  C23: the path of an address names that address. For a valid address the text in the path is one
  that escaping would not change, so it can neither end the path nor add to it, and parsing it
  gives back the address; addresses that differ (as 16-byte addresses) never share a path. Get requests
  exactly this path.
\<close>

theorem ip_paths:
  assumes "validIP ip"
  shows "PathEscape (IP_String ip) = IP_String ip \<and> ParseIP (IP_String ip) = To16 ip
    \<and> (\<forall>ip'. validIP ip' \<and> ip_path ip' = ip_path ip \<longrightarrow> To16 ip' = To16 ip)
    \<and> (\<forall>c w r c' w'. wf_client c \<and> ip_Get ip c w = (r, c', w') \<longrightarrow>
        (\<forall>q \<in> set (sent (new_events w w')). Method q = ''GET'' \<and> ReqURL q = baseURL c @ ''/ip/'' @ IP_String ip)
        \<and> (sendable c w (ip_path ip) \<longrightarrow> sent (new_events w w') \<noteq> []))"
proof (intro conjI)
  have parse: "ParseIP (IP_String a) = To16 a" if "validIP a" for a
    using ParseIP_IP_String that by (simp add: validIP_length)
  show "PathEscape (IP_String ip) = IP_String ip" using PathEscape_IP [OF assms] .
  show "ParseIP (IP_String ip) = To16 ip" using parse [OF assms] .
  show "\<forall>ip'. validIP ip' \<and> ip_path ip' = ip_path ip \<longrightarrow> To16 ip' = To16 ip"
    using parse parse [OF assms] by (metis ip_path_def same_append_eq)
  show "\<forall>c w r c' w'. wf_client c \<and> ip_Get ip c w = (r, c', w') \<longrightarrow>
      (\<forall>q \<in> set (sent (new_events w w')). Method q = ''GET'' \<and> ReqURL q = baseURL c @ ''/ip/'' @ IP_String ip)
      \<and> (sendable c w (ip_path ip) \<longrightarrow> sent (new_events w w') \<noteq> [])"
  proof (intro allI impI)
    fix c w r c' w'
    assume run: "wf_client c \<and> ip_Get ip c w = (r, c', w')"
    moreover from this have "client_Get c w (ip_path ip) address_target = (r, c', w')"
      using assms by (simp add: ip_Get_def ip_check_def)
    ultimately show "(\<forall>q \<in> set (sent (new_events w w')). Method q = ''GET'' \<and> ReqURL q = baseURL c @ ''/ip/'' @ IP_String ip)
        \<and> (sendable c w (ip_path ip) \<longrightarrow> sent (new_events w w') \<noteq> [])"
      using ip_get.requests [of c ip w r c' w'] get_at.not_silent [of c w "ip_path ip" address_target] by (auto simp: ip_path_def)
  qed
qed

theorem ip_paths_witness:
  "ip_path [32, 1, 13, 184, 0, 0, 0, 0, 0, 0, 0, 0, 0, 0, 0, 1] = ''/ip/2001:db8::1''
   \<and> ParseIP ''2001:db8::1'' = Some [32, 1, 13, 184, 0, 0, 0, 0, 0, 0, 0, 0, 0, 0, 0, 1]"
proof -
  let ?ip = "[32, 1, 13, 184, 0, 0, 0, 0, 0, 0, 0, 0, 0, 0, 0, 1] :: IP"
  have s: "IP_String ?ip = ''2001:db8::1''" by code_simp
  have "validIP ?ip" by (simp add: validIP_length)
  from ip_paths [OF this] have "ParseIP (IP_String ?ip) = To16 ?ip" by blast
  with s show ?thesis by (simp add: ip_path_def To16_def)
qed

section \<open>Bodies with bracketed keys\<close>

lemma parsed_keys:
  assumes "\<forall>(k, v) \<in> set ps. plain_key k"
    and "k \<in> fst ` set (snd (ParseQuery (Join (map (form_pair QueryEscape) ps) ''&'')))"
  shows "k \<in> fst ` set ps"
proof -
  from assms(2) have "map_of (snd (ParseQuery (Join (map (form_pair QueryEscape) ps) ''&''))) k \<noteq> None"
    by (simp add: map_of_eq_None_iff)
  then have "values_of ps k \<noteq> []" using ParseQuery_pairs(2) [OF assms(1)] by (metis (no_types, lifting))
  then show ?thesis by (simp add: values_of_Nil_iff)
qed

lemma check_keys_empty: "(\<And>k. k \<in> fst ` set m \<Longrightarrow> ok k) \<Longrightarrow> check_keys ok m = []"
  by (auto simp: check_keys_def filter_empty_conv)

lemma servers_pairs_plain: "\<forall>(k, v) \<in> set (map (Pair ''server[]'') ss). plain_key k"
  by (auto simp: plain_key_def)

lemma servers_body_value: "form_value (servers_body ss) ''server[]'' = (if ss = [] then None else Some ss)"
  using raw_body_value [OF servers_pairs_plain, of ss "''server[]''"]
  unfolding servers_body_pairs [symmetric] by (simp add: values_of_Pair)

lemma servers_body_checked: "ss \<noteq> [] \<Longrightarrow> validateVSwitchServerForm (servers_body ss) = []"
proof -
  assume ss: "ss \<noteq> []"
  let ?m = "snd (ParseQuery (servers_body ss))"
  have "check_keys (\<lambda>key. key = ''server[]'') ?m = []"
  proof (rule check_keys_empty)
    fix k
    assume "k \<in> fst ` set ?m"
    then have "k \<in> fst ` set (map (Pair ''server[]'') ss)"
      unfolding servers_body_pairs by (rule parsed_keys [OF servers_pairs_plain])
    then show "k = ''server[]''" by auto
  qed
  moreover have "go_index ?m ''server[]'' = ss"
    using servers_body_value [of ss] ss by (simp add: form_value_def go_index_def)
  moreover have "fst (ParseQuery (servers_body ss)) = None"
    unfolding servers_body_pairs by (rule ParseQuery_pairs(1) [OF servers_pairs_plain])
  ultimately show ?thesis using ss by (simp add: validateVSwitchServerForm_def split_beta)
qed



lemma values_of_Cons:
  "values_of ((a, b) # ps) k = (if k = a then b # values_of ps k else values_of ps k)"
  "values_of [] k = []" "values_of (map (Pair a) vs) k = (if k = a then vs else [])"
  using values_of_Pair by (auto simp: values_of_def)

definition traffic_entries :: "TrafficGetParams \<Rightarrow> (string \<times> string list) list" where
  "traffic_entries params =
     [(''type'', [ParType params]), (''from'', [ParFrom params]), (''to'', [ParTo params]),
      (''single_values'', if ParSingleValues params then [''true''] else []),
      (''ip[]'', (if ParIP params = [] then [] else [ParIP params]) @ ParIPs params),
      (''subnet[]'', ParSubnets params)]"

lemma traffic_values: "values_of (traffic_pairs params) k = go_index (traffic_entries params) k"
  by (simp add: traffic_pairs_def traffic_ips_def traffic_entries_def values_of_Cons go_index_def)

lemma form_isI:
  "(\<And>k. form_value body k = (if go_index entries k = [] then None else Some (go_index entries k))) \<Longrightarrow>
   form_is body entries"
  by (auto simp: form_is_def go_index_def split: option.split list.split)

lemma traffic_body_checked: "validateTrafficForm (traffic_body params) = []"
proof -
  have "check_keys (\<lambda>key. key \<in> set trafficAllowedScalarFields \<or> key = ''ip[]'' \<or> key = ''subnet[]'')
      (snd (ParseQuery (traffic_body params))) = []"
  proof (rule check_keys_empty)
    fix k
    assume "k \<in> fst ` set (snd (ParseQuery (traffic_body params)))"
    then have "k \<in> fst ` set (traffic_pairs params)" unfolding traffic_body_pairs by (rule parsed_keys [OF traffic_pairs_plain])
    then show "k \<in> set trafficAllowedScalarFields \<or> k = ''ip[]'' \<or> k = ''subnet[]''"
      by (auto simp: traffic_pairs_def trafficAllowedScalarFields_def split: if_splits)
  qed
  moreover have "fst (ParseQuery (traffic_body params)) = None"
    unfolding traffic_body_pairs by (rule ParseQuery_pairs(1) [OF traffic_pairs_plain])
  ultimately show ?thesis
    by (simp add: validateTrafficForm_def split_beta)
qed

text \<open>
  C22: a traffic query says what was asked for. A parser of forms reads in its body the period and
  the type, the single address together with the list of addresses under ip[] and the subnets under
  subnet[], in order, and single_values exactly when it was requested; the fixture check of the test
  tooling accepts the body whatever the parameters are. The query is sent when nothing stands in the way.
\<close>

theorem traffic_query:
  assumes "wf_client c" and "traffic_Get params c w = (r, c', w')"
  shows "(\<forall>q \<in> set (sent (new_events w w')). Method q = ''POST'' \<and> ReqURL q = baseURL c @ ''/traffic''
        \<and> form_is (ReqBody q) (traffic_entries params) \<and> validateTrafficForm (ReqBody q) = [])
    \<and> (sendable c w ''/traffic'' \<longrightarrow> sent (new_events w w') \<noteq> [])"
proof -
  note body = traffic_body_pairs [of params, symmetric]
  have "form_is (traffic_body params) (traffic_entries params)"
    using raw_body_value [OF traffic_pairs_plain, of params] unfolding body traffic_values by (rule form_isI)
  then show ?thesis
    using traffic_get.requests [OF assms] traffic_get.not_silent [OF _ assms(2)] traffic_body_checked [of params]
    by auto
qed

theorem traffic_query_witness:
  "let params = \<lparr>ParType = ''day'', ParFrom = ''2025-01-01T00'', ParTo = ''2025-01-01T05'', ParIP = ''10.0.0.1'',
       ParIPs = [''10.0.0.2''], ParSubnets = [''2001:db8::''], ParSingleValues = True\<rparr>;
       w = lab_world [reply 200 [] '''']; (r, c', w') = traffic_Get params lab_client w; qs = sent (new_events w w')
   in length qs = 1 \<and> form_value (ReqBody (hd qs)) ''ip[]'' = Some [''10.0.0.1'', ''10.0.0.2'']
      \<and> validateTrafficForm (ReqBody (hd qs)) = []"
proof -
  let ?params = "\<lparr>ParType = ''day'', ParFrom = ''2025-01-01T00'', ParTo = ''2025-01-01T05'', ParIP = ''10.0.0.1'',
       ParIPs = [''10.0.0.2''], ParSubnets = [''2001:db8::''], ParSingleValues = True\<rparr>"
  let ?w = "lab_world [reply 200 [] '''']" and ?run = "traffic_Get ?params lab_client (lab_world [reply 200 [] ''''])"
  let ?qs = "sent (new_events ?w (snd (snd ?run)))"
  have one: "length ?qs = 1" by code_simp
  then have mem: "hd ?qs \<in> set ?qs" by (intro hd_in_set) auto
  have run: "?run = (fst ?run, fst (snd ?run), snd (snd ?run))" by simp
  have "form_is (ReqBody (hd ?qs)) (traffic_entries ?params)
      \<and> validateTrafficForm (ReqBody (hd ?qs)) = []"
    using traffic_query [OF lab_client_wf run] mem by blast
  with one show ?thesis by (simp add: Let_def split_beta form_is_def traffic_entries_def)
qed

section \<open>Waiting for a vSwitch\<close>

text \<open>The first server that is not ready, if there is one.\<close>

definition first_unready :: "VSwitch \<Rightarrow> VSwitchServer option" where
  "first_unready v = find (\<lambda>s. VServerStatus s \<noteq> ''ready'') (Servers v)"

lemma vswitch_ready_iff:
  "vswitch_ready i c w = (r, c', w') \<longleftrightarrow> (\<exists>x. vs_Get i c w = (x, c', w')
     \<and> r = bind_result x (\<lambda>v. servers_ready i (Servers v)))"
  by (simp add: vswitch_ready_def then_local_iff)

lemma vswitch_ready_read:
  "vswitch_ready i = then_local (\<lambda>c w. client_Get c w (vswitch_path i) vswitch_target)
     (\<lambda>v. servers_ready i (Servers v))"
  by (simp add: vswitch_ready_def vs_Get_def [abs_def])

text \<open>
  C12: what WaitForVSwitchReady returns. It sends at most 90 requests. Success means that every server of
  the vSwitch it last read is ready. It gives up at once, with an error that names the server, when the first
  server that is not ready has failed, even if others are still in process behind it; and
  when that server is still in process in every answer, it gives up after exactly 30 reads and 810
  seconds of pauses, even if another server behind it has failed.
\<close>

theorem WaitForVSwitchReady_settled:
  assumes "wf_client c" and "WaitForVSwitchReady i c w = (r, c', w')"
  shows "length (sent (new_events w w')) \<le> 90
    \<and> (r = Ok () \<longrightarrow> (\<exists>v c1 w1. vs_Get i c1 w1 = (Ok v, c', w') \<and> (\<forall>s \<in> set (Servers v). VServerStatus s = ''ready'')))
    \<and> (\<forall>v c1 w1 s. \<not> ctx_done w \<and> vs_Get i c w = (Ok v, c1, w1) \<and> first_unready v = Some s
          \<and> VServerStatus s = ''failed''
        \<longrightarrow> r = Err (Wrapped ''error checking condition: '' (ErrorString (''vswitch '' @ Itoa i @ '': server ''
                @ Itoa (VServerNumber s) @ '' is in status failed''))) \<and> w' = w1)
    \<and> (sendable c w (vswitch_path i)
          \<and> keeps_answering c w vswitch_target (\<lambda>v. \<exists>s. first_unready v = Some s \<and> VServerStatus s \<noteq> ''failed'')
        \<longrightarrow> r = Err wait_timeout \<and> clock w + 810 * Second \<le> clock w'
          \<and> sent (new_events w w') = replicate 30 (build_request c MethodGet (baseURL c @ vswitch_path i) []))"
proof (intro conjI)
  have run: "wait_loop maxPolls minDelay (vswitch_ready i) c w = (r, c', w')"
    using assms(2) by (simp add: WaitForVSwitchReady_def waitForCondition_def)
  have unready: "\<forall>v. (\<exists>s. first_unready v = Some s \<and> VServerStatus s \<noteq> ''failed'')
      \<longrightarrow> servers_ready i (Servers v) = Ok False"
    by (auto simp: servers_ready_find first_unready_def)
  show "length (sent (new_events w w')) \<le> 90" using vs_wait.sends_at_most [OF assms] .
  show "r = Ok () \<longrightarrow> (\<exists>v c1 w1. vs_Get i c1 w1 = (Ok v, c', w') \<and> (\<forall>s \<in> set (Servers v). VServerStatus s = ''ready''))"
    using wait_loop_ends [OF run]
    by (fastforce simp: vswitch_ready_iff bind_result_Ok_iff servers_ready_True eq_commute [of "Ok True"])
  show "\<forall>v c1 w1 s. \<not> ctx_done w \<and> vs_Get i c w = (Ok v, c1, w1) \<and> first_unready v = Some s
          \<and> VServerStatus s = ''failed''
        \<longrightarrow> r = Err (Wrapped ''error checking condition: '' (ErrorString (''vswitch '' @ Itoa i @ '': server ''
                @ Itoa (VServerNumber s) @ '' is in status failed''))) \<and> w' = w1"
    using run wait_loop_first(2) [of maxPolls w "vswitch_ready i" c]
    by (fastforce simp: vswitch_ready_iff servers_ready_find first_unready_def maxPolls_def check_failed_def)
  show "sendable c w (vswitch_path i)
          \<and> keeps_answering c w vswitch_target (\<lambda>v. \<exists>s. first_unready v = Some s \<and> VServerStatus s \<noteq> ''failed'')
        \<longrightarrow> r = Err wait_timeout \<and> clock w + 810 * Second \<le> clock w'
          \<and> sent (new_events w w') = replicate 30 (build_request c MethodGet (baseURL c @ vswitch_path i) [])"
    using poll_never [OF _ _ unready, of c w "vswitch_path i" vswitch_target] assms(2)
    by (auto simp: WaitForVSwitchReady_def vswitch_ready_read)
qed

definition lab_vswitch :: "string \<Rightarrow> string" where
  "lab_vswitch status = json_text (''{`id`: 3, `server`: [{`server_number`: 1, `status`: `'' @ status @ ''`}]}'')"

theorem WaitForVSwitchReady_settled_witness:
  "let w = lab_world [reply 200 [] (lab_vswitch ''in process''), reply 200 [] (lab_vswitch ''ready'')];
       (r, c', w') = WaitForVSwitchReady 3 lab_client w
   in r = Ok () \<and> length (sent (new_events w w')) = 2
      \<and> (\<exists>v c1 w1. vs_Get 3 c1 w1 = (Ok v, c', w') \<and> (\<forall>s \<in> set (Servers v). VServerStatus s = ''ready''))"
proof -
  let ?w = "lab_world [reply 200 [] (lab_vswitch ''in process''), reply 200 [] (lab_vswitch ''ready'')]"
  let ?run = "WaitForVSwitchReady 3 lab_client ?w"
  have run: "?run = (fst ?run, fst (snd ?run), snd (snd ?run))" by simp
  have "(case fst ?run of Ok u \<Rightarrow> True | _ \<Rightarrow> False)" "length (sent (new_events ?w (snd (snd ?run)))) = 2"
    by code_simp+
  with WaitForVSwitchReady_settled [OF lab_client_wf run] show ?thesis
    by (cases "fst ?run") (simp_all add: Let_def split_beta)
qed

section \<open>Resets\<close>

lemma dec_list_strings: "dec_list [] dec_string (JArr (map JStr ts)) x = Ok ts"
proof -
  have "dec_elems [] dec_string (map JStr ts) = Ok ts" by (induction ts) auto
  then show ?thesis by (simp add: dec_list_def)
qed

text \<open>
  C25: a reset is read in both shapes the API has. When the members of an object decode, a type member
  that is an array of strings gives those types, one that is a string gives the list of it alone,
  null gives no types, and one that is absent is an error; a reset that is null itself, however,
  makes the decoder panic.
\<close>

theorem Reset_shapes:
  assumes "dec_struct aux_reset_fields (JObj ms) (None, old) = Ok (t, r)"
  shows "(t = Some (JArr (map JStr ts)) \<longrightarrow> dec_ResetConfig (JObj ms) old = Ok (r\<lparr>ResetTypes := ts\<rparr>))
    \<and> (t = Some (JStr s) \<longrightarrow> dec_ResetConfig (JObj ms) old = Ok (r\<lparr>ResetTypes := [s]\<rparr>))
    \<and> (t = Some JNull \<longrightarrow> dec_ResetConfig (JObj ms) old = Ok (r\<lparr>ResetTypes := []\<rparr>))
    \<and> (t = None \<longrightarrow> dec_ResetConfig (JObj ms) old
          = Err (ErrorString ''type field must be either string or array''))
    \<and> dec_ResetConfig JNull old = Panic ''nil pointer dereference''"
proof -
  have "dec_list [] dec_string (JStr s) [] = Err type_error" "dec_list [] dec_string JNull [] = Ok []"
    by (simp_all add: dec_list_def)
  then have "reset_types (Some (JArr (map JStr ts))) = Some ts" "reset_types (Some (JStr s)) = Some [s]"
    "reset_types (Some JNull) = Some []" "reset_types None = None"
    by (simp_all add: reset_types_def dec_list_strings)
  with assms show ?thesis by (auto simp: dec_ResetConfig_def)
qed

theorem Reset_shapes_witness:
  "dec_ResetConfig (JObj [(''server_number'', JNum ''7''), (''type'', JArr [JStr ''hw'', JStr ''sw''])]) zero_ResetConfig
     = Ok (zero_ResetConfig\<lparr>ResetServerNumber := 7, ResetTypes := [''hw'', ''sw'']\<rparr>)"
proof -
  let ?ms = "[(''server_number'', JNum ''7''), (''type'', JArr [JStr ''hw'', JStr ''sw''])]"
  have n: "ParseInt64 ''7'' = Inr 7" by code_simp
  have "dec_struct aux_reset_fields (JObj ?ms) (None, zero_ResetConfig)
      = Ok (Some (JArr (map JStr [''hw'', ''sw''])), zero_ResetConfig\<lparr>ResetServerNumber := 7\<rparr>)"
    by (simp add: dec_struct_def aux_reset_fields_def fld_def dec_raw_def n HasPrefix_def in_range_def byte_def)
  from Reset_shapes [OF this, of "[''hw'', ''sw'']" "[]"] show ?thesis by simp
qed

lemma reset_null_panics:
  "(case reset_Get 7 lab_client (lab_world [reply 200 [] ''null'']) of (r, c', w') \<Rightarrow>
      (case r of Panic p \<Rightarrow> True | _ \<Rightarrow> False))"
  by code_simp

end
