(* ===== verification/FirewallService.thy ===== *)
theory FirewallService
  imports FirewallForms Endpoints
begin

text \<open>
  The operations of FirewallService: reading and updating a configuration, the status changes that
  read before they write, the templates, and waiting for a change to settle. Each operation is a
  call in the sense of ClientCalls.
\<close>

section \<open>Data\<close>

record FirewallConfig =
  ConfigServerIP :: string
  ConfigServerNumber :: int
  ConfigStatus :: string
  FilterIPv6 :: bool
  WhitelistHOS :: bool
  ConfigPort :: string
  ConfigRules :: FirewallRules

record UpdateConfig =
  UpdStatus :: "string option"
  UpdWhitelistHOS :: "bool option"
  UpdFilterIPv6 :: "bool option"
  UpdRules :: FirewallRules

record FirewallTemplate =
  TmplID :: int
  TmplName :: string
  TmplFilterIPv6 :: bool
  TmplWhitelistHOS :: bool
  TmplIsDefault :: bool
  TmplRules :: FirewallRules

record TemplateConfig =
  TCName :: string
  TCFilterIPv6 :: bool
  TCWhitelistHOS :: bool
  TCIsDefault :: bool
  TCRules :: FirewallRules

definition FirewallStatusActive :: string where "FirewallStatusActive = ''active''"
definition FirewallStatusDisabled :: string where "FirewallStatusDisabled = ''disabled''"
definition FirewallStatusInProcess :: string where "FirewallStatusInProcess = ''in process''"

definition zero_FirewallRule :: FirewallRule where
  "zero_FirewallRule = \<lparr>Name = [], IPVersion = [], Action = [], Protocol = [], SourceIP = [],
     DestIP = [], SourcePort = [], DestPort = [], TCPFlags = []\<rparr>"

definition zero_FirewallRules :: FirewallRules where
  "zero_FirewallRules = \<lparr>Input = [], Output = []\<rparr>"

definition zero_FirewallConfig :: FirewallConfig where
  "zero_FirewallConfig = \<lparr>ConfigServerIP = [], ConfigServerNumber = 0, ConfigStatus = [],
     FilterIPv6 = False, WhitelistHOS = False, ConfigPort = [], ConfigRules = zero_FirewallRules\<rparr>"

definition zero_FirewallTemplate :: FirewallTemplate where
  "zero_FirewallTemplate = \<lparr>TmplID = 0, TmplName = [], TmplFilterIPv6 = False,
     TmplWhitelistHOS = False, TmplIsDefault = False, TmplRules = zero_FirewallRules\<rparr>"

definition dec_FirewallRule :: "FirewallRule decoder" where
  "dec_FirewallRule = dec_struct
     [fld ''name'' dec_string Name Name_update,
      fld ''ip_version'' dec_string IPVersion IPVersion_update,
      fld ''action'' dec_string Action Action_update,
      fld ''protocol'' dec_string Protocol Protocol_update,
      fld ''src_ip'' dec_string SourceIP SourceIP_update,
      fld ''dst_ip'' dec_string DestIP DestIP_update,
      fld ''src_port'' dec_string SourcePort SourcePort_update,
      fld ''dst_port'' dec_string DestPort DestPort_update,
      fld ''tcp_flags'' dec_string TCPFlags TCPFlags_update]"

definition dec_FirewallRules :: "FirewallRules decoder" where
  "dec_FirewallRules = dec_struct
     [fld ''input'' (dec_list zero_FirewallRule dec_FirewallRule) Input Input_update,
      fld ''output'' (dec_list zero_FirewallRule dec_FirewallRule) Output Output_update]"

definition dec_FirewallConfig :: "FirewallConfig decoder" where
  "dec_FirewallConfig = dec_struct
     [fld ''server_ip'' dec_string ConfigServerIP ConfigServerIP_update,
      fld ''server_number'' dec_int ConfigServerNumber ConfigServerNumber_update,
      fld ''status'' dec_string ConfigStatus ConfigStatus_update,
      fld ''filter_ipv6'' dec_bool FilterIPv6 FilterIPv6_update,
      fld ''whitelist_hos'' dec_bool WhitelistHOS WhitelistHOS_update,
      fld ''port'' dec_string ConfigPort ConfigPort_update,
      fld ''rules'' dec_FirewallRules ConfigRules ConfigRules_update]"

definition dec_FirewallTemplate :: "FirewallTemplate decoder" where
  "dec_FirewallTemplate = dec_struct
     [fld ''id'' dec_int TmplID TmplID_update,
      fld ''name'' dec_string TmplName TmplName_update,
      fld ''filter_ipv6'' dec_bool TmplFilterIPv6 TmplFilterIPv6_update,
      fld ''whitelist_hos'' dec_bool TmplWhitelistHOS TmplWhitelistHOS_update,
      fld ''is_default'' dec_bool TmplIsDefault TmplIsDefault_update,
      fld ''rules'' dec_FirewallRules TmplRules TmplRules_update]"

definition config_target :: "FirewallConfig target" where
  "config_target = (zero_FirewallConfig, Some dec_FirewallConfig)"

definition template_target :: "FirewallTemplate target" where
  "template_target = (zero_FirewallTemplate, Some dec_FirewallTemplate)"

section \<open>Operations\<close>

definition ValidateRules :: "client \<Rightarrow> FirewallRules \<Rightarrow> error option" where
  "ValidateRules c rules = validateInputRuleCount rules (maxFirewallInputRules c)"

definition server_path :: "int \<Rightarrow> string" where
  "server_path serverID = ''/firewall/'' @ Itoa serverID"

definition template_path :: "string \<Rightarrow> string" where
  "template_path templateID = ''/firewall/template/'' @ PathEscape templateID"

definition fw_Get :: "int \<Rightarrow> FirewallConfig call" where
  "fw_Get serverID c w = client_Get c w (server_path serverID) config_target"

definition update_extra :: "UpdateConfig \<Rightarrow> form" where
  "update_extra config =
     (case UpdStatus config of None \<Rightarrow> [] | Some s \<Rightarrow> [(''status'', s)])
     @ (case UpdWhitelistHOS config of None \<Rightarrow> [] | Some b \<Rightarrow> [(''whitelist_hos'', FormatBool b)])
     @ (case UpdFilterIPv6 config of None \<Rightarrow> [] | Some b \<Rightarrow> [(''filter_ipv6'', FormatBool b)])"

definition fw_Update :: "int \<Rightarrow> UpdateConfig \<Rightarrow> FirewallConfig call" where
  "fw_Update serverID config c w =
     (case ValidateRules c (UpdRules config) of
        Some err \<Rightarrow> (Err err, c, w)
      | None \<Rightarrow>
         client_PostRaw c w (server_path serverID)
           (encodeRules (UpdRules config) (update_extra config)) config_target)"

definition setStatus :: "int \<Rightarrow> string \<Rightarrow> FirewallRules option \<Rightarrow> FirewallConfig call" where
  "setStatus serverID status rules =
     seq_call (fw_Get serverID)
       (\<lambda>current. fw_Update serverID
          \<lparr>UpdStatus = Some status, UpdWhitelistHOS = Some (WhitelistHOS current),
           UpdFilterIPv6 = Some (FilterIPv6 current),
           UpdRules = (case rules of None \<Rightarrow> ConfigRules current | Some r \<Rightarrow> r)\<rparr>)"

definition Activate :: "int \<Rightarrow> FirewallConfig call" where
  "Activate serverID = setStatus serverID FirewallStatusActive None"

definition ActivateWithRules :: "int \<Rightarrow> FirewallRules \<Rightarrow> FirewallConfig call" where
  "ActivateWithRules serverID rules = setStatus serverID FirewallStatusActive (Some rules)"

definition Disable :: "int \<Rightarrow> FirewallConfig call" where
  "Disable serverID = setStatus serverID FirewallStatusDisabled None"

definition DisableWithRules :: "int \<Rightarrow> FirewallRules \<Rightarrow> FirewallConfig call" where
  "DisableWithRules serverID rules = setStatus serverID FirewallStatusDisabled (Some rules)"

definition fw_Delete :: "int \<Rightarrow> unit call" where
  "fw_Delete serverID c w = client_Delete c w (server_path serverID)"

definition ListTemplates :: "FirewallTemplate list call" where
  "ListTemplates c w =
     client_Get c w ''/firewall/template'' ([], Some (dec_list zero_FirewallTemplate dec_FirewallTemplate))"

definition GetTemplate :: "string \<Rightarrow> FirewallTemplate call" where
  "GetTemplate templateID c w = client_Get c w (template_path templateID) template_target"

definition templateExtras :: "TemplateConfig \<Rightarrow> form" where
  "templateExtras config =
     [(''name'', TCName config), (''filter_ipv6'', FormatBool (TCFilterIPv6 config)),
      (''whitelist_hos'', FormatBool (TCWhitelistHOS config)),
      (''is_default'', FormatBool (TCIsDefault config))]"

definition CreateTemplate :: "TemplateConfig \<Rightarrow> FirewallTemplate call" where
  "CreateTemplate config c w =
     (case ValidateRules c (TCRules config) of
        Some err \<Rightarrow> (Err err, c, w)
      | None \<Rightarrow>
         client_PostRaw c w ''/firewall/template'' (encodeRules (TCRules config) (templateExtras config))
           template_target)"

definition UpdateTemplate :: "string \<Rightarrow> TemplateConfig \<Rightarrow> FirewallTemplate call" where
  "UpdateTemplate templateID config c w =
     (case ValidateRules c (TCRules config) of
        Some err \<Rightarrow> (Err err, c, w)
      | None \<Rightarrow>
         client_PostRaw c w (template_path templateID)
           (encodeRules (TCRules config) (templateExtras config)) template_target)"

definition DeleteTemplate :: "string \<Rightarrow> unit call" where
  "DeleteTemplate templateID c w = client_Delete c w (template_path templateID)"

definition firewall_ready :: "int \<Rightarrow> condition" where
  "firewall_ready serverID =
     seq_call (fw_Get serverID) (\<lambda>config c w. (Ok (ConfigStatus config \<noteq> FirewallStatusInProcess), c, w))"

definition WaitForFirewallReady :: "int \<Rightarrow> unit call" where
  "WaitForFirewallReady serverID = waitForCondition (firewall_ready serverID)"

definition ApplyTemplate :: "int \<Rightarrow> string \<Rightarrow> FirewallConfig call" where
  "ApplyTemplate serverID templateID c w =
     client_Post c w (server_path serverID) (Some (Values_Set [] ''template_id'' templateID)) config_target"

section \<open>The contract of each operation\<close>

interpretation fw_get: api_call "fw_Get serverID" 3 for serverID
  unfolding fw_Get_def by (rule get_call.api_call_axioms)

interpretation fw_update: api_call "fw_Update serverID config" 3 for serverID config
  unfolding fw_Update_def by (rule api_call_guarded [OF post_raw_call.api_call_axioms])

interpretation fw_set_status: api_call "setStatus serverID status rules" 6 for serverID status rules
  unfolding setStatus_def
  using api_call_seq [OF fw_get.api_call_axioms fw_update.api_call_axioms] by simp

interpretation fw_create_template: api_call "CreateTemplate config" 3 for config
  unfolding CreateTemplate_def by (rule api_call_guarded [OF post_raw_call.api_call_axioms])

interpretation fw_update_template: api_call "UpdateTemplate templateID config" 3 for templateID config
  unfolding UpdateTemplate_def by (rule api_call_guarded [OF post_raw_call.api_call_axioms])

interpretation fw_apply_template: api_call "ApplyTemplate serverID templateID" 3 for serverID templateID
  unfolding ApplyTemplate_def by (rule post_call.api_call_axioms)

lemma firewall_ready_call: "api_call (firewall_ready serverID) 3"
  unfolding firewall_ready_def
  using api_call_seq [OF fw_get.api_call_axioms api_call_local] by simp

interpretation fw_wait: api_call "WaitForFirewallReady serverID" 90 for serverID
  unfolding WaitForFirewallReady_def using api_call_wait [OF firewall_ready_call] by simp
end
