(* ===== verification/FirewallServiceProps.thy ===== *)
theory FirewallServiceProps
  imports FirewallService
begin

text \<open>
  The properties of FirewallService: rulesets over the limit are never sent, a status change reads
  the configuration first and then posts a complete one (and what it posts after an empty answer to that
  read), and how waiting ends.
\<close>

section \<open>The requests of a read and of an update\<close>

definition config_body :: "UpdateConfig \<Rightarrow> string" where
  "config_body config = encodeRules (UpdRules config) (update_extra config)"

lemma fw_Get_requests:
  assumes "wf_client c" and "fw_Get serverID c w = (r, c', w')"
  shows "\<exists>es. extends w w' es \<and> same_config c c'
    \<and> set (sent es) \<subseteq> {build_request c MethodGet (baseURL c @ server_path serverID) []}"
  using call_requests [of c None "[]" w MethodGet "server_path serverID" config_target r c' w'] assms
    fw_get.keeps_config [OF assms]
  by (auto simp: fw_Get_def client_Get_def)

lemma fw_Update_requests:
  assumes "wf_client c" and "fw_Update serverID config c w = (r, c', w')"
  shows "\<exists>es. extends w w' es
    \<and> set (sent es) \<subseteq> {build_request c MethodPost (baseURL c @ server_path serverID) (config_body config)}"
proof (cases "ValidateRules c (UpdRules config)")
  case None
  let ?b = "config_body config"
  have "(case raw_reader ?b of None \<Rightarrow> Inr [] | Some rd \<Rightarrow> ReadAll rd) = Inr ?b"
    by (simp add: raw_reader_def string_reader_def ReadAll_def)
  from call_requests [OF assms(1) this, of w MethodPost "server_path serverID" config_target r c' w'] assms(2) None
  show ?thesis by (simp add: fw_Update_def client_PostRaw_def config_body_def)
next
  case (Some e)
  with assms(2) show ?thesis by (auto simp: fw_Update_def intro: exI [of _ "[]"])
qed

section \<open>The rule limit\<close>

lemma post_raw_sends:
  "sendable c w path \<Longrightarrow> sent (new_events w (snd (snd (client_PostRaw c w path data v)))) \<noteq> []"
  using post_raw_at.not_silent by (metis prod.collapse)

lemma update_sends:
  "sendable c w (server_path serverID) \<Longrightarrow> int (length (Input (UpdRules config))) \<le> maxFirewallInputRules c \<Longrightarrow>
   sent (new_events w (snd (snd (fw_Update serverID config c w)))) \<noteq> []"
  by (simp add: fw_Update_def ValidateRules_def validateInputRuleCount_def post_raw_sends)

text \<open>
  C19: a ruleset with more inbound rules than the client's limit is never sent, and one within the limit
  is. Over the limit Update and both template operations return the rule-limit error, which its predicate
  recognises, and do nothing: the world, its trace included, is the one they were given. Otherwise
  they send their request when nothing else stands in the way.
\<close>

theorem over_limit_sends_nothing:
  assumes "UpdRules config = rules" and "TCRules tmpl = rules"
  shows "if maxFirewallInputRules c < int (length (Input rules))
    then \<exists>err. IsFirewallRuleLimitExceededError (Some err) \<and> Status err = 409
      \<and> fw_Update serverID config c w = (Err err, c, w) \<and> CreateTemplate tmpl c w = (Err err, c, w)
      \<and> UpdateTemplate templateID tmpl c w = (Err err, c, w)
    else (sendable c w (server_path serverID) \<longrightarrow>
            sent (new_events w (snd (snd (fw_Update serverID config c w)))) \<noteq> [])
      \<and> (sendable c w ''/firewall/template'' \<longrightarrow>
            sent (new_events w (snd (snd (CreateTemplate tmpl c w)))) \<noteq> [])
      \<and> (sendable c w (template_path templateID) \<longrightarrow>
            sent (new_events w (snd (snd (UpdateTemplate templateID tmpl c w)))) \<noteq> [])"
proof (cases "maxFirewallInputRules c < int (length (Input rules))")
  case True
  then have "\<exists>err. validateInputRuleCount rules (maxFirewallInputRules c) = Some err
      \<and> IsFirewallRuleLimitExceededError (Some err) \<and> Status err = 409"
    by (simp add: validateInputRuleCount_def IsFirewallRuleLimitExceededError_def NewValidationError_def)
  with True assms show ?thesis
    by (auto simp: ValidateRules_def fw_Update_def CreateTemplate_def UpdateTemplate_def)
next
  case False
  then have valid: "ValidateRules c rules = None"
    by (simp add: ValidateRules_def validateInputRuleCount_def)
  with False assms show ?thesis
    by (simp add: fw_Update_def CreateTemplate_def UpdateTemplate_def post_raw_sends)
qed

theorem over_limit_sends_nothing_witness:
  "\<exists>err. fw_Update 1 \<lparr>UpdStatus = None, UpdWhitelistHOS = None, UpdFilterIPv6 = None,
       UpdRules = \<lparr>Input = replicate 11 zero_FirewallRule, Output = []\<rparr>\<rparr> lab_client (lab_world [])
     = (Err err, lab_client, lab_world [])"
proof -
  let ?rules = "\<lparr>Input = replicate 11 zero_FirewallRule, Output = []\<rparr>"
  have "maxFirewallInputRules lab_client < int (length (Input ?rules))"
    by code_simp
  with over_limit_sends_nothing [of "\<lparr>UpdStatus = None, UpdWhitelistHOS = None, UpdFilterIPv6 = None,
       UpdRules = ?rules\<rparr>" ?rules "\<lparr>TCName = [], TCFilterIPv6 = False, TCWhitelistHOS = False,
       TCIsDefault = False, TCRules = ?rules\<rparr>" lab_client 1 "lab_world []" "''t''"]
  show ?thesis by auto
qed

section \<open>Status changes\<close>

definition set_status_config :: "string \<Rightarrow> FirewallRules option \<Rightarrow> FirewallConfig \<Rightarrow> UpdateConfig" where
  "set_status_config status rules current =
     \<lparr>UpdStatus = Some status, UpdWhitelistHOS = Some (WhitelistHOS current),
      UpdFilterIPv6 = Some (FilterIPv6 current),
      UpdRules = (case rules of None \<Rightarrow> ConfigRules current | Some r \<Rightarrow> r)\<rparr>"

text \<open>What a server reads in the body that a status change posts.\<close>

definition body_says :: "string \<Rightarrow> string \<Rightarrow> FirewallConfig \<Rightarrow> FirewallRules \<Rightarrow> bool" where
  "body_says body status current rules \<longleftrightarrow>
     (let m = snd (ParseQuery body)
      in read_ruleset m = rules \<and> map_of m ''status'' = Some [status]
         \<and> map_of m ''whitelist_hos'' = Some [FormatBool (WhitelistHOS current)]
         \<and> map_of m ''filter_ipv6'' = Some [FormatBool (FilterIPv6 current)])"

lemma set_status_body:
  "body_says (config_body (set_status_config status rules current)) status current
     (case rules of None \<Rightarrow> ConfigRules current | Some r \<Rightarrow> r)"
proof -
  let ?cfg = "set_status_config status rules current"
  have extra: "update_extra ?cfg = [(''status'', status), (''whitelist_hos'', FormatBool (WhitelistHOS current)),
      (''filter_ipv6'', FormatBool (FilterIPv6 current))]"
    by (simp add: update_extra_def set_status_config_def)
  have sf: "scalar_form (update_extra ?cfg)" "distinct (map fst (update_extra ?cfg))"
    unfolding extra by (simp_all add: scalar_form_def plain_key_def)
  have "UpdRules ?cfg = (case rules of None \<Rightarrow> ConfigRules current | Some r \<Rightarrow> r)"
    by (simp add: set_status_config_def)
  with encodeRules_reads_back [OF sf(1), of "UpdRules ?cfg"]
    encodeRules_extra [OF sf, of "''status''" status "UpdRules ?cfg"]
    encodeRules_extra [OF sf, of "''whitelist_hos''" "FormatBool (WhitelistHOS current)" "UpdRules ?cfg"]
    encodeRules_extra [OF sf, of "''filter_ipv6''" "FormatBool (FilterIPv6 current)" "UpdRules ?cfg"]
  show ?thesis unfolding body_says_def config_body_def Let_def extra by simp
qed

text \<open>
  C5: a status change is a read followed by a write of a complete configuration. The first requests
  are GETs of the server's firewall; a POST is sent only after that read succeeded, and its body holds the requested
  status, the whitelist and IPv6 settings that were read, and the given ruleset, or else
  the ruleset that was read, which is the empty one if the read succeeded with an empty body. The status
  is posted when the read succeeded, the ruleset is within the limit and nothing else stands in the way.
\<close>

theorem setStatus_reads_then_writes:
  assumes "wf_client c" and "setStatus serverID status rules c w = (r, c', w')"
  shows "\<exists>gets posts. sent (new_events w w') = gets @ posts
    \<and> (\<forall>q \<in> set gets. Method q = ''GET'' \<and> ReqURL q = baseURL c @ server_path serverID)
    \<and> (posts \<noteq> [] \<longrightarrow> (\<exists>current c1 w1. fw_Get serverID c w = (Ok current, c1, w1)
        \<and> (\<forall>q \<in> set posts. Method q = ''POST'' \<and> ReqURL q = baseURL c @ server_path serverID
             \<and> body_says (ReqBody q) status current (case rules of None \<Rightarrow> ConfigRules current | Some x \<Rightarrow> x))))
    \<and> (\<forall>current c1 w1. sendable c w (server_path serverID) \<and> fw_Get serverID c w = (Ok current, c1, w1)
        \<and> int (length (Input (case rules of None \<Rightarrow> ConfigRules current | Some x \<Rightarrow> x))) \<le> maxFirewallInputRules c
        \<longrightarrow> posts \<noteq> [])"
proof -
  obtain r1 c1 w1 where get: "fw_Get serverID c w = (r1, c1, w1)" by (metis prod_cases3)
  from fw_Get_requests [OF assms(1) get] obtain es where es: "extends w w1 es" "same_config c c1"
    "set (sent es) \<subseteq> {build_request c MethodGet (baseURL c @ server_path serverID) []}" by blast
  then have gets: "\<forall>q \<in> set (sent es). Method q = ''GET'' \<and> ReqURL q = baseURL c @ server_path serverID"
    by (auto simp: build_request_def)
  show ?thesis
  proof (cases r1)
    case (Ok current)
    then have update: "fw_Update serverID (set_status_config status rules current) c1 w1 = (r, c', w')"
      using assms(2) get by (simp add: setStatus_def seq_call_def set_status_config_def)
    from fw_Update_requests [OF same_config_wf [OF es(2) assms(1)] update] obtain es' where es':
      "extends w1 w' es'"
      "set (sent es') \<subseteq> {build_request c1 MethodPost (baseURL c1 @ server_path serverID)
        (config_body (set_status_config status rules current))}" by blast
    have "\<forall>q \<in> set (sent es'). Method q = ''POST'' \<and> ReqURL q = baseURL c @ server_path serverID
        \<and> body_says (ReqBody q) status current (case rules of None \<Rightarrow> ConfigRules current | Some x \<Rightarrow> x)"
      using es'(2) set_status_body es(2) by (auto simp: build_request_def same_config_fields)
    moreover have "sent (new_events w w') = sent es @ sent es'"
      using extends_new_events [OF extends_trans [OF es(1) es'(1)]] by simp
    moreover have "sent es' \<noteq> []" if "sendable c w (server_path serverID)"
      and "int (length (Input (case rules of None \<Rightarrow> ConfigRules current | Some x \<Rightarrow> x))) \<le> maxFirewallInputRules c"
      using update_sends [OF sendable_later [OF that(1) es(2,1)], of "set_status_config status rules current"]
        update extends_new_events [OF es'(1)] that(2) es(2)
      by (simp add: set_status_config_def same_config_fields)
    ultimately show ?thesis using gets Ok get by auto
  next
    case (Err e)
    with assms(2) get have "w' = w1" by (simp add: setStatus_def seq_call_def)
    with gets extends_new_events [OF es(1)] get Err show ?thesis
      by - (rule exI [of _ "sent es"], rule exI [of _ "[]"], simp)
  next
    case (Panic p)
    with assms(2) get have "w' = w1" by (simp add: setStatus_def seq_call_def)
    with gets extends_new_events [OF es(1)] get Panic show ?thesis
      by - (rule exI [of _ "sent es"], rule exI [of _ "[]"], simp)
  qed
qed

definition lab_config :: string where
  "lab_config = json_text ''{`firewall`: {`status`: `disabled`, `whitelist_hos`: true}}''"

lemma two_parts:
  assumes "map f s = [a, b]" and "s = xs @ ys" and "\<forall>q \<in> set xs. f q = a"
    and "ys \<noteq> [] \<longrightarrow> (\<forall>q \<in> set ys. f q = b)" and "a \<noteq> b"
  shows "length xs = 1 \<and> length ys = 1"
proof -
  obtain q1 q2 where s: "s = [q1, q2]" "f q1 = a" "f q2 = b" using assms(1) by auto
  have "length xs \<noteq> 0"
  proof
    assume "length xs = 0"
    then have "q1 \<in> set ys" using assms(2) s(1) by (metis append_Nil length_0_conv list.set_intros(1))
    with assms(4) have "f q1 = b" by force
    with s(2) assms(5) show False by simp
  qed
  moreover have "length xs < 2"
  proof (rule ccontr)
    assume "\<not> length xs < 2"
    moreover have "length xs + length ys = 2" using arg_cong [OF assms(2), of length] s(1) by simp
    ultimately have "ys = []" by (cases ys) auto
    then have "q2 \<in> set xs" using assms(2) s(1) by (metis append_Nil2 list.set_intros)
    with assms(3) have "f q2 = a" by blast
    with s(3) assms(5) show False by simp
  qed
  moreover have "length xs + length ys = 2"
    using arg_cong [OF assms(2), of length] s(1) by simp
  ultimately show ?thesis by linarith
qed

theorem setStatus_reads_then_writes_witness:
  "let w = lab_world [reply 200 [] lab_config];
       (r, c', w') = Activate 7 lab_client w
   in \<exists>gets posts. sent (new_events w w') = gets @ posts \<and> length gets = 1 \<and> length posts = 1
      \<and> list_all (\<lambda>q. Method q = ''GET'') gets \<and> list_all (\<lambda>q. Method q = ''POST'') posts"
proof -
  let ?w = "lab_world [reply 200 [] lab_config]"
  let ?run = "setStatus 7 FirewallStatusActive None lab_client ?w"
  let ?s = "sent (new_events ?w (snd (snd ?run)))"
  have run: "?run = (fst ?run, fst (snd ?run), snd (snd ?run))" by simp
  have ms: "map Method ?s = [''GET'', ''POST'']" by code_simp
  from setStatus_reads_then_writes [OF lab_client_wf run] obtain gets posts where
    "?s = gets @ posts" "\<forall>q \<in> set gets. Method q = ''GET''" "posts \<noteq> [] \<longrightarrow> (\<forall>q \<in> set posts. Method q = ''POST'')"
    by blast
  moreover from this have "length gets = 1 \<and> length posts = 1"
    by (intro two_parts [OF ms]) simp_all
  ultimately have "?s = gets @ posts \<and> length gets = 1 \<and> length posts = 1
      \<and> list_all (\<lambda>q. Method q = ''GET'') gets \<and> list_all (\<lambda>q. Method q = ''POST'') posts"
    by (cases posts) (simp_all add: list_all_iff)
  then show ?thesis unfolding Activate_def Let_def split_beta by blast
qed

text \<open>
  A status change sends at most six requests, all with the client's credentials and to its base
  URL, and closes every response body, whatever the server answers.
\<close>

theorem setStatus_contract:
  assumes "wf_client c" and "setStatus serverID status rules c w = (r, c', w')"
  shows "length (sent (new_events w w')) \<le> 6
    \<and> list_all (own_request c) (sent (new_events w w'))
    \<and> received (new_events w w') = closed (new_events w w')"
  using fw_set_status.sends_at_most [OF assms] fw_set_status.sends_own [OF assms]
    fw_set_status.bodies_closed [OF assms]
  by (simp add: list_all_iff)

theorem setStatus_contract_witness:
  "let w = lab_world [reply 503 [] ''''];
       (r, c', w') = setStatus 7 FirewallStatusActive None lab_client w
   in length (sent (new_events w w')) \<le> 6 \<and> received (new_events w w') = closed (new_events w w')
      \<and> received (new_events w w') = 3"
proof -
  let ?w = "lab_world [reply 503 [] '''']"
  let ?run = "setStatus 7 FirewallStatusActive None lab_client ?w"
  have run: "?run = (fst ?run, fst (snd ?run), snd (snd ?run))" by simp
  have "received (new_events ?w (snd (snd ?run))) = 3" by code_simp
  with setStatus_contract [OF lab_client_wf run] show ?thesis by (simp add: Let_def split_beta)
qed

section \<open>An empty answer to the read\<close>

lemma empty_answer:
  assumes "wf_client c" and "200 \<le> StatusCode resp" and "StatusCode resp < 300" and "RespBody resp = ([], None)"
  shows "fst (handleResponse c w resp v) = Ok (fst v)"
proof -
  have "readBodyLimited (RespBody resp) (maxResponseBytes c) = Inr []"
    using assms(1,4) by (simp add: readBodyLimited_def LimitReader_def ReadAll_def wf_client_def Let_def)
  with assms(2,3) show ?thesis by (simp add: handleResponse_def)
qed

lemma no_rules_valid: "wf_client c \<Longrightarrow> ValidateRules c zero_FirewallRules = None"
  by (simp add: ValidateRules_def validateInputRuleCount_def zero_FirewallRules_def wf_client_def)

lemma lab_sendable: "sendable lab_client (lab_world script) (server_path 7)"
proof -
  have "case url_Parse (baseURL lab_client @ server_path 7) of Inl e \<Rightarrow> False | Inr p \<Rightarrow> True" by code_simp
  moreover have "may_send lab_client" by code_simp
  ultimately show ?thesis
    using lab_client_wf by (auto simp: sendable_def lab_world_def split: sum.splits)
qed

text \<open>
  C40: a successful read without a body is taken for an empty configuration. When the server answers the
  read of a status change without rules of its own (Activate, Disable) with a complete but empty
  2xx body, the client reads once and then posts the new status with no rules at all and both settings
  off, the very request that setStatus is meant to prevent.
\<close>

theorem Activate_after_empty_read:
  assumes "sendable c w (server_path serverID)"
    and "get = build_request c MethodGet (baseURL c @ server_path serverID) []"
    and "transport w (sent (trace w) @ [get]) = (dt, Inr resp)"
    and "200 \<le> StatusCode resp" and "StatusCode resp < 300" and "RespBody resp = ([], None)"
    and "call = Activate serverID \<and> status = ''active'' \<or> call = Disable serverID \<and> status = ''disabled''"
    and "call c w = (r, c', w')"
  shows "\<exists>posts. sent (new_events w w') = get # posts \<and> posts \<noteq> []
    \<and> (\<forall>q \<in> set posts. Method q = ''POST'' \<and> ReqURL q = baseURL c @ server_path serverID
         \<and> body_says (ReqBody q) status zero_FirewallConfig \<lparr>Input = [], Output = []\<rparr>)"
proof -
  let ?config = "set_status_config status None zero_FirewallConfig"
  have wf: "wf_client c" using assms(1) by (simp add: sendable_def)
  from finish_answered [OF assms(1) no_body_bytes assms(2,3,5), of config_target]
    empty_answer [OF wf assms(4-6), of w config_target]
  obtain c1 w1 es where "finish (doRequest c w MethodGet (server_path serverID) None) config_target
      = (Ok zero_FirewallConfig, c1, w1)"
    and one: "same_config c c1" "extends w w1 es" "sent es = [get]"
    by (auto simp: config_target_def)
  then have get: "fw_Get serverID c w = (Ok zero_FirewallConfig, c1, w1)"
    by (simp add: fw_Get_def client_Get_def)
  have "call c w = fw_Update serverID ?config c1 w1"
    using assms(7) get by (auto simp: Activate_def Disable_def FirewallStatusActive_def FirewallStatusDisabled_def
        setStatus_def seq_call_def set_status_config_def)
  then have run: "finish (doRequest c1 w1 MethodPost (server_path serverID) (raw_reader (config_body ?config))) config_target
      = (r, c', w')"
    using assms(8) no_rules_valid [OF same_config_wf [OF one(1) wf]]
    by (simp add: fw_Update_def client_PostRaw_def config_body_def set_status_config_def zero_FirewallConfig_def)
  from finish_sends [OF sendable_later [OF assms(1) one(1,2)] raw_reader_bytes run] obtain n where
    posts: "sent (new_events w1 w') = replicate (Suc n)
      (build_request c1 MethodPost (baseURL c1 @ server_path serverID) (config_body ?config))" by blast
  from post_raw_at.exchange [OF same_config_wf [OF one(1) wf] run [folded client_PostRaw_def]]
  obtain es' where ext: "extends w1 w' es'" by blast
  have "sent (new_events w w') = get # sent (new_events w1 w')"
    using extends_new_events [OF extends_trans [OF one(2) ext]] extends_new_events [OF ext] one(3) by simp
  moreover have "ConfigRules zero_FirewallConfig = \<lparr>Input = [], Output = []\<rparr>"
    by (simp add: zero_FirewallConfig_def zero_FirewallRules_def)
  with set_status_body [of status None zero_FirewallConfig]
  have "body_says (config_body ?config) status zero_FirewallConfig \<lparr>Input = [], Output = []\<rparr>" by simp
  ultimately show ?thesis using posts one(1) by (simp add: build_request_def same_config_fields)
qed

theorem Activate_after_empty_read_witness:
  "let (r, c', w') = Activate 7 lab_client (lab_world [reply 200 [] '''', reply 200 [] lab_config])
   in \<exists>get posts. sent (new_events (lab_world [reply 200 [] '''', reply 200 [] lab_config]) w') = get # posts
      \<and> posts \<noteq> [] \<and> (\<forall>q \<in> set posts. body_says (ReqBody q) ''active'' zero_FirewallConfig \<lparr>Input = [], Output = []\<rparr>)"
proof -
  let ?w = "lab_world [reply 200 [] '''', reply 200 [] lab_config]"
  let ?run = "Activate 7 lab_client ?w"
  let ?get = "build_request lab_client MethodGet (baseURL lab_client @ server_path 7) []"
  have run: "?run = (fst ?run, fst (snd ?run), snd (snd ?run))" by simp
  have answer: "transport ?w (sent (trace ?w) @ [?get]) =
      (5, Inr \<lparr>StatusCode = 200, RespHeader = [], RespBody = ([], None)\<rparr>)"
    by (simp add: lab_world_def reply_def)
  show ?thesis
    using Activate_after_empty_read [where call = "Activate 7" and status = "''active''",
        OF lab_sendable refl answer _ _ _ _ run]
    by (auto simp: Let_def split_beta)
qed

section \<open>Waiting for a change to settle\<close>

lemma firewall_ready_read:
  "firewall_ready serverID =
     then_local (\<lambda>c w. client_Get c w (server_path serverID) config_target)
       (\<lambda>config. Ok (ConfigStatus config \<noteq> ''in process''))"
  by (auto simp: firewall_ready_def then_local_def fw_Get_def FirewallStatusInProcess_def fun_eq_iff seq_call_def)

lemma firewall_ready_iff:
  "firewall_ready serverID c w = (r, c', w') \<longleftrightarrow> (\<exists>x. fw_Get serverID c w = (x, c', w')
     \<and> r = bind_result x (\<lambda>config. Ok (ConfigStatus config \<noteq> ''in process'')))"
  by (simp add: firewall_ready_read then_local_iff fw_Get_def)

text \<open>
  C31: what WaitForFirewallReady returns. It sends at most 90 requests. Success means that the status
  it last read is not "in process". Otherwise the last read failed, and its error is wrapped; or the
  context is done; or the polls are used up. A first read that is settled ends it at once, and
  against a server that stays "in process" it gives up after exactly 30 reads and 810 seconds of
  pauses.
\<close>

theorem WaitForFirewallReady_settled:
  assumes "wf_client c" and "WaitForFirewallReady serverID c w = (r, c', w')"
  shows "length (sent (new_events w w')) \<le> 90
    \<and> (r = Ok () \<longrightarrow> (\<exists>config c1 w1. fw_Get serverID c1 w1 = (Ok config, c', w')
          \<and> ConfigStatus config \<noteq> ''in process''))
    \<and> (\<forall>err. r = Err err \<longrightarrow> (\<exists>e c1 w1. fw_Get serverID c1 w1 = (Err e, c', w') \<and> err = check_failed e)
          \<or> (ctx_done w' \<and> err = waiting_cancelled w') \<or> err = wait_timeout)
    \<and> (\<forall>config c1 w1. \<not> ctx_done w \<and> fw_Get serverID c w = (Ok config, c1, w1)
          \<and> ConfigStatus config \<noteq> ''in process'' \<longrightarrow> r = Ok () \<and> w' = w1)
    \<and> (sendable c w (server_path serverID)
          \<and> keeps_answering c w config_target (\<lambda>config. ConfigStatus config = ''in process'')
        \<longrightarrow> r = Err wait_timeout \<and> clock w + 810 * Second \<le> clock w'
          \<and> sent (new_events w w') = replicate 30 (build_request c MethodGet (baseURL c @ server_path serverID) []))"
proof (intro conjI)
  have run: "wait_loop maxPolls minDelay (firewall_ready serverID) c w = (r, c', w')"
    using assms(2) by (simp add: WaitForFirewallReady_def waitForCondition_def)
  show "length (sent (new_events w w')) \<le> 90" using fw_wait.sends_at_most [OF assms] .
  show "r = Ok () \<longrightarrow> (\<exists>config c1 w1. fw_Get serverID c1 w1 = (Ok config, c', w')
          \<and> ConfigStatus config \<noteq> ''in process'')"
    using wait_loop_ends [OF run] by (fastforce simp: firewall_ready_iff bind_result_Ok_iff eq_commute [of "Ok True"])
  show "\<forall>err. r = Err err \<longrightarrow> (\<exists>e c1 w1. fw_Get serverID c1 w1 = (Err e, c', w') \<and> err = check_failed e)
          \<or> (ctx_done w' \<and> err = waiting_cancelled w') \<or> err = wait_timeout"
    using wait_loop_ends [OF run] by (fastforce simp: firewall_ready_iff bind_result_Err_iff eq_commute [of "Err _"])
  show "\<forall>config c1 w1. \<not> ctx_done w \<and> fw_Get serverID c w = (Ok config, c1, w1)
          \<and> ConfigStatus config \<noteq> ''in process'' \<longrightarrow> r = Ok () \<and> w' = w1"
    using run wait_loop_first [of maxPolls] by (fastforce simp: firewall_ready_iff maxPolls_def)
  show "sendable c w (server_path serverID)
          \<and> keeps_answering c w config_target (\<lambda>config. ConfigStatus config = ''in process'')
        \<longrightarrow> r = Err wait_timeout \<and> clock w + 810 * Second \<le> clock w'
          \<and> sent (new_events w w') = replicate 30 (build_request c MethodGet (baseURL c @ server_path serverID) [])"
    using poll_never [of c w "server_path serverID" config_target "\<lambda>config. ConfigStatus config = ''in process''"
        "\<lambda>config. Ok (ConfigStatus config \<noteq> ''in process'')"] assms(2)
    by (auto simp: WaitForFirewallReady_def firewall_ready_read)
qed

theorem WaitForFirewallReady_settled_witness:
  "let w = lab_world [reply 200 [] (json_text ''{`firewall`: {`status`: `in process`}}''), reply 200 [] lab_config];
       (r, c', w') = WaitForFirewallReady 7 lab_client w
   in r = Ok () \<and> length (sent (new_events w w')) = 2
      \<and> (\<exists>config c1 w1. fw_Get 7 c1 w1 = (Ok config, c', w') \<and> ConfigStatus config \<noteq> ''in process'')"
proof -
  let ?w = "lab_world [reply 200 [] (json_text ''{`firewall`: {`status`: `in process`}}''), reply 200 [] lab_config]"
  let ?run = "WaitForFirewallReady 7 lab_client ?w"
  have run: "?run = (fst ?run, fst (snd ?run), snd (snd ?run))" by simp
  have "(case fst ?run of Ok u \<Rightarrow> True | _ \<Rightarrow> False)" "length (sent (new_events ?w (snd (snd ?run)))) = 2"
    by code_simp+
  with WaitForFirewallReady_settled [OF lab_client_wf run] show ?thesis
    by (cases "fst ?run") (simp_all add: Let_def split_beta)
qed

end
