(* ===== verification/ServiceCalls.thy ===== *)
theory ServiceCalls
  imports ServiceProps FirewallServiceProps
begin

text \<open>
  The operations of all services as one family of calls with the number of requests each may send,
  and the contract they all keep; the operations that are refused; sessions of many operations.
\<close>

definition discard :: "'a call \<Rightarrow> unit call" where
  "discard call = then_local call (\<lambda>x. Ok ())"

inductive service_call :: "nat \<Rightarrow> unit call \<Rightarrow> bool" where
  firewall_get: "service_call 3 (discard (fw_Get i))"
| firewall_update: "service_call 3 (discard (fw_Update i config))"
| firewall_delete: "service_call 3 (discard (fw_Delete i))"
| templates: "service_call 3 (discard (ListTemplates))"
| template_get: "service_call 3 (discard (GetTemplate s))"
| template_create: "service_call 3 (discard (CreateTemplate tmpl))"
| template_update: "service_call 3 (discard (UpdateTemplate s tmpl))"
| template_delete: "service_call 3 (discard (DeleteTemplate s))"
| template_apply: "service_call 3 (discard (ApplyTemplate i s))"
| firewall_status: "service_call 6 (discard (setStatus i s rules))"
| firewall_wait: "service_call 90 (WaitForFirewallReady i)"
| vswitch_wait: "service_call 90 (WaitForVSwitchReady i)"
| cancel_ip: "service_call 0 (CancelIP ip s)"
| cancel_subnet: "service_call 0 (discard (subnet_Cancel s t))"
| cancel_server: "service_call 0 (RequestCancellation rc)"
| box_list: "service_call 3 (discard (sb_List))"
| box_get: "service_call 3 (discard (sb_Get i))"
| box_update: "service_call 3 (discard (sb_Update i upd))"
| box_password: "service_call 3 (discard (sb_ResetPassword i s))"
| snapshots: "service_call 3 (discard (ListSnapshots i))"
| snapshot_new: "service_call 3 (discard (CreateSnapshot i))"
| snapshot_delete: "service_call 3 (discard (DeleteSnapshot i s))"
| snapshot_restore: "service_call 3 (discard (RestoreSnapshot i s))"
| snapshot_comment: "service_call 3 (discard (SetSnapshotComment i s t))"
| plan_get: "service_call 3 (discard (GetSnapshotPlan i))"
| plan_set: "service_call 3 (discard (SetSnapshotPlan i plan))"
| accounts: "service_call 3 (discard (ListSubAccounts i))"
| account_new: "service_call 3 (discard (CreateSubAccount i inp))"
| account_update: "service_call 3 (discard (UpdateSubAccount i s inp))"
| account_delete: "service_call 3 (discard (DeleteSubAccount i s))"
| account_password: "service_call 3 (discard (ResetSubAccountPassword i s t))"
| key_list: "service_call 3 (discard (key_List))"
| key_get: "service_call 3 (discard (key_Get s))"
| key_create: "service_call 3 (discard (key_Create s t))"
| key_rename: "service_call 3 (discard (key_Rename s t))"
| key_delete: "service_call 3 (discard (key_Delete s))"
| rdns_list: "service_call 3 (discard (rdns_List s))"
| rdns_get: "service_call 3 (discard (rdns_Get s))"
| rdns_create: "service_call 3 (discard (rdns_Create s t))"
| rdns_update: "service_call 3 (discard (rdns_Update s t))"
| rdns_delete: "service_call 3 (discard (rdns_Delete s))"
| failover_list: "service_call 3 (discard (failover_List))"
| failover_get: "service_call 3 (discard (failover_Get s))"
| failover_update: "service_call 3 (discard (failover_Update s t))"
| failover_delete: "service_call 3 (discard (failover_Delete s))"
| ip_list: "service_call 3 (discard (ip_List))"
| ip_get: "service_call 3 (discard (ip_Get ip))"
| ip_warnings: "service_call 3 (discard (SetTrafficWarnings ip b))"
| ip_withdraw: "service_call 3 (discard (WithdrawIPCancellation ip))"
| ip_get_mac: "service_call 3 (discard (ip_GetMAC ip))"
| ip_set_mac: "service_call 3 (discard (ip_SetMAC ip))"
| ip_delete_mac: "service_call 3 (discard (ip_DeleteMAC ip))"
| traffic: "service_call 3 (discard (traffic_Get params))"
| vswitches: "service_call 3 (discard (vs_List))"
| vswitch_get: "service_call 3 (discard (vs_Get i))"
| vswitch_create: "service_call 3 (discard (vs_Create s i))"
| vswitch_update: "service_call 3 (discard (vs_Update i s j))"
| vswitch_delete: "service_call 3 (discard (vs_Delete i s))"
| vswitch_add: "service_call 3 (discard (AddServers i ss))"
| vswitch_remove: "service_call 3 (discard (RemoveServers i ss))"
| subnets: "service_call 3 (discard (subnet_List))"
| subnet_get: "service_call 3 (discard (subnet_Get s))"
| subnet_update: "service_call 3 (discard (subnet_Update s b i j k))"
| subnet_get_mac: "service_call 3 (discard (subnet_GetMAC s))"
| subnet_set_mac: "service_call 3 (discard (subnet_SetMAC s t))"
| subnet_delete_mac: "service_call 3 (discard (subnet_DeleteMAC s))"
| subnet_get_cancellation: "service_call 3 (discard (subnet_GetCancellation s))"
| subnet_withdraw: "service_call 3 (discard (subnet_WithdrawCancellation s))"
| server_list: "service_call 3 (discard (srv_List))"
| server_get: "service_call 3 (discard (srv_Get i))"
| server_set_name: "service_call 3 (discard (SetName i s))"
| server_withdraw: "service_call 3 (discard (WithdrawCancellation i))"
| resets: "service_call 3 (discard (reset_List))"
| reset_get: "service_call 3 (discard (reset_Get i))"
| reset_execute: "service_call 3 (discard (Execute i s))"
| wol_send: "service_call 3 (discard (wol_Send i))"
| wol_get: "service_call 3 (discard (wol_Get i))"
| boot: "service_call 3 (discard (boot_Get i))"
| rescue_on: "service_call 3 (discard (ActivateRescue i ropts))"
| rescue_off: "service_call 3 (discard (DeactivateRescue i))"
| rescue_last: "service_call 3 (discard (GetLastRescue i))"
| linux_on: "service_call 3 (discard (ActivateLinux i lopts))"
| linux_off: "service_call 3 (discard (DeactivateLinux i))"
| linux_last: "service_call 3 (discard (GetLastLinux i))"
| vnc_on: "service_call 3 (discard (ActivateVNC i vopts))"
| vnc_off: "service_call 3 (discard (DeactivateVNC i))"
| windows: "service_call 3 (discard (GetWindows i))"
| windows_on: "service_call 3 (discard (ActivateWindows i s t))"
| windows_off: "service_call 3 (discard (DeactivateWindows i))"

lemma api_call_discard: "api_call call n \<Longrightarrow> api_call (discard call) n"
  unfolding discard_def then_local_def using api_call_seq [OF _ api_call_local] by fastforce

lemma firewall_calls:
  "api_call (fw_Delete i) 3" "api_call ListTemplates 3" "api_call (GetTemplate s) 3" "api_call (DeleteTemplate s) 3"
  unfolding fw_Delete_def ListTemplates_def GetTemplate_def DeleteTemplate_def
  by (rule delete_call.api_call_axioms get_call.api_call_axioms)+

lemma policy_calls:
  "api_call (CancelIP ip s) 0" "api_call (subnet_Cancel s t) 0" "api_call (RequestCancellation rc) 0"
  unfolding CancelIP_def subnet_Cancel_def RequestCancellation_def by (rule api_call_local)+

lemmas operation_calls =
  sb_list.as_call.api_call_axioms sb_get.as_call.api_call_axioms sb_update.as_call.api_call_axioms
  sb_password.as_call.api_call_axioms snapshot_list.as_call.api_call_axioms
  snapshot_create.as_call.api_call_axioms snapshot_delete.as_call.api_call_axioms
  snapshot_restore.as_call.api_call_axioms snapshot_comment.as_call.api_call_axioms
  plan_get.as_call.api_call_axioms plan_set.as_call.api_call_axioms sub_list.as_call.api_call_axioms
  sub_create.as_call.api_call_axioms sub_update.as_call.api_call_axioms
  sub_delete.as_call.api_call_axioms sub_password.as_call.api_call_axioms
  key_list.as_call.api_call_axioms key_get.as_call.api_call_axioms key_create.as_call.api_call_axioms
  key_rename.as_call.api_call_axioms key_delete.as_call.api_call_axioms
  rdns_list.as_call.api_call_axioms rdns_get.as_call.api_call_axioms
  rdns_create.as_call.api_call_axioms rdns_update.as_call.api_call_axioms
  rdns_delete.as_call.api_call_axioms failover_list.as_call.api_call_axioms
  failover_get.as_call.api_call_axioms failover_update.as_call.api_call_axioms
  failover_delete.as_call.api_call_axioms ip_list.as_call.api_call_axioms
  ip_get.as_call.api_call_axioms ip_warnings.as_call.api_call_axioms
  ip_withdraw.as_call.api_call_axioms ip_get_mac.as_call.api_call_axioms
  ip_set_mac.as_call.api_call_axioms ip_delete_mac.as_call.api_call_axioms
  traffic_get.as_call.api_call_axioms vs_list.as_call.api_call_axioms vs_get.as_call.api_call_axioms
  vs_create.as_call.api_call_axioms vs_update.as_call.api_call_axioms
  vs_delete.as_call.api_call_axioms vs_add.as_call.api_call_axioms vs_remove.as_call.api_call_axioms
  subnet_list.as_call.api_call_axioms subnet_get.as_call.api_call_axioms
  subnet_update.as_call.api_call_axioms subnet_get_mac.as_call.api_call_axioms
  subnet_set_mac.as_call.api_call_axioms subnet_delete_mac.as_call.api_call_axioms
  subnet_get_cancellation.as_call.api_call_axioms subnet_withdraw.as_call.api_call_axioms
  srv_list.as_call.api_call_axioms srv_get.as_call.api_call_axioms
  srv_set_name.as_call.api_call_axioms srv_withdraw.as_call.api_call_axioms
  reset_list.as_call.api_call_axioms reset_get.as_call.api_call_axioms
  reset_execute.as_call.api_call_axioms wol_send.as_call.api_call_axioms
  wol_get.as_call.api_call_axioms boot_get.as_call.api_call_axioms rescue_on.as_call.api_call_axioms
  rescue_off.as_call.api_call_axioms rescue_last.as_call.api_call_axioms
  linux_on.as_call.api_call_axioms linux_off.as_call.api_call_axioms
  linux_last.as_call.api_call_axioms vnc_on.as_call.api_call_axioms vnc_off.as_call.api_call_axioms
  windows_get.as_call.api_call_axioms windows_on.as_call.api_call_axioms
  windows_off.as_call.api_call_axioms
  firewall_calls policy_calls fw_get.api_call_axioms fw_update.api_call_axioms fw_create_template.api_call_axioms
  fw_update_template.api_call_axioms fw_apply_template.api_call_axioms fw_set_status.api_call_axioms
  fw_wait.api_call_axioms vs_wait.api_call_axioms

lemma service_call_contract: "service_call n call \<Longrightarrow> api_call call n"
  by (induction rule: service_call.induct) (rule operation_calls operation_calls [THEN api_call_discard])+

text \<open>
  Every operation of every service keeps the contract of the client, whatever the network answers: the
  configuration is unchanged, each request goes to the configured base URL with the configured
  credentials and user agent, it sends at most the number of requests listed for it (none for the
  operations that policy forbids, three for a single exchange, six for a status change, 90 for the two
  waiting operations), and as many response bodies are closed as are received.
\<close>

lemma operation_contract:
  assumes "service_call n call" and "wf_client c" and "call c w = (r, c', w')"
  shows "same_config c c' \<and> (\<exists>es. extends w w' es \<and> call_events c n es)"
  using api_call.contract [OF service_call_contract [OF assms(1)] assms(2,3)] .

section \<open>Refused operations\<close>

text \<open>The only operations that send nothing whatever their arguments are the three cancellations.\<close>

inductive_simps service_call_0: "service_call 0 call"

text \<open>The operations on an IP address, with what follows the address in their paths.\<close>

definition address_calls :: "IP \<Rightarrow> bool \<Rightarrow> (unit call \<times> string) list" where
  "address_calls ip on =
     [(discard (ip_Get ip), []), (discard (SetTrafficWarnings ip on), []),
      (discard (WithdrawIPCancellation ip), ''/cancellation''), (discard (ip_GetMAC ip), ''/mac''),
      (discard (ip_SetMAC ip), ''/mac''), (discard (ip_DeleteMAC ip), ''/mac'')]"

lemma discard_iff: "discard call c w = (r, c', w') \<longleftrightarrow> (\<exists>x. call c w = (x, c', w') \<and> r = bind_result x (\<lambda>_. Ok ()))"
  by (simp add: discard_def then_local_iff)

lemmas request_methods_def =
  client_Get_def client_Post_def client_Put_def client_Delete_def client_PostRaw_def client_DeleteRaw_def
  client_DeleteWithBody_def

lemmas address_operations =
  ip_Get_def SetTrafficWarnings_def WithdrawIPCancellation_def ip_GetMAC_def ip_SetMAC_def ip_DeleteMAC_def

lemma address_calls_refuse:
  "validIP ip \<or> (op, after) \<in> set (address_calls ip on) \<longrightarrow> validIP ip
     \<or> op c w = (Err (NewParseError ''invalid ip address'' None), c, w)"
  by (auto simp: address_calls_def discard_iff address_operations ip_check_def guarded_def)

lemma finish_not_silent:
  "finish (doRequest c w m path None) v = (r, c', w') \<Longrightarrow> sendable c w path \<Longrightarrow> sent (new_events w w') \<noteq> []"
  "finish (doRequest c w m path (form_reader data)) v = (r, c', w') \<Longrightarrow> sendable c w path \<Longrightarrow> sent (new_events w w') \<noteq> []"
  using finish_sends [OF _ no_body_bytes, of c w path m v r c' w']
    finish_sends [OF _ form_reader_bytes, of c w path m data v r c' w'] by auto

lemma address_calls_send:
  assumes "(op, after) \<in> set (address_calls ip on)" and "validIP ip" and "sendable c w (ip_path ip @ after)"
    and "op c w = (r, c', w')"
  shows "sent (new_events w w') \<noteq> []"
  using assms
  by (auto simp: address_calls_def discard_iff address_operations ip_check_def guarded_def request_methods_def
      dest: finish_not_silent)

text \<open>
  C24: operations the client must not perform are refused on the spot, and only those. Every operation
  that may never send a request (the three cancellations) returns a policy error with status 451, which its
  predicate recognises. Every operation on an address returns a parse error when the address
  is not 4 or 16 bytes long, and sends at least one request when it is and nothing stands in the way. A
  refusal leaves the client and the world, its trace included, as they were.
\<close>

theorem refused_operations:
  shows "(service_call 0 call \<longrightarrow>
        (\<exists>err. IsPolicyError (Some err) \<and> Status err = 451 \<and> (\<forall>c w. call c w = (Err err, c, w))))
    \<and> ((op, after) \<in> set (address_calls ip on) \<longrightarrow>
        (if length ip = 4 \<or> length ip = 16
         then sendable c w (ip_path ip @ after) \<longrightarrow> sent (new_events w (snd (snd (op c w)))) \<noteq> []
         else \<exists>err. Kind err = ErrKindParse \<and> (\<forall>c w. op c w = (Err err, c, w))))"
proof (intro conjI impI)
  assume "service_call 0 call"
  then show "\<exists>err. IsPolicyError (Some err) \<and> Status err = 451 \<and> (\<forall>c w. call c w = (Err err, c, w))"
    by (auto simp: service_call_0 discard_iff CancelIP_def subnet_Cancel_def RequestCancellation_def
        NewPolicyError_def IsPolicyError_def)
next
  assume op: "(op, after) \<in> set (address_calls ip on)"
  show "if length ip = 4 \<or> length ip = 16
        then sendable c w (ip_path ip @ after) \<longrightarrow> sent (new_events w (snd (snd (op c w)))) \<noteq> []
        else \<exists>err. Kind err = ErrKindParse \<and> (\<forall>c w. op c w = (Err err, c, w))"
    using address_calls_send [OF op] address_calls_refuse [of ip op after on] op
    by (cases "op c w") (auto simp: validIP_length NewParseError_def)
qed

theorem refused_operations_witness:
  "(\<exists>err. IsPolicyError (Some err) \<and> CancelIP [10, 0, 0, 1] ''2026-01-01'' lab_client (lab_world []) = (Err err, lab_client, lab_world []))
   \<and> (\<exists>err. Kind err = ErrKindParse \<and> discard (ip_GetMAC []) lab_client (lab_world []) = (Err err, lab_client, lab_world []))"
  using refused_operations [of "CancelIP [10, 0, 0, 1] ''2026-01-01''" "discard (ip_GetMAC [])" "''/mac''" "[]" True]
    service_call.cancel_ip [of "[10, 0, 0, 1]" "''2026-01-01''"]
  by (auto simp: address_calls_def)

section \<open>Sessions\<close>

text \<open>
  A program that uses the client: any number of operations, one after another, each chosen as the
  program likes. The last argument adds up the requests the operations may send.
\<close>

inductive session :: "client \<Rightarrow> world \<Rightarrow> client \<Rightarrow> world \<Rightarrow> nat \<Rightarrow> bool" for c w where
  start: "session c w c w 0"
| step: "session c w c1 w1 k \<Longrightarrow> service_call n call \<Longrightarrow> call c1 w1 = (r, c2, w2) \<Longrightarrow>
    session c w c2 w2 (k + n)"

lemma session_contract:
  "session c w c' w' k \<Longrightarrow> wf_client c \<Longrightarrow> same_config c c' \<and> (\<exists>es. extends w w' es \<and> call_events c k es)"
proof (induction rule: session.induct)
  case (step c1 w1 k n call r c2 w2)
  then obtain es where 1: "same_config c c1" "extends w w1 es" "call_events c k es" by blast
  with operation_contract [OF step.hyps(2) same_config_wf [OF 1(1) step.prems] step.hyps(3)] obtain es' where
    "same_config c1 c2" "extends w1 w2 es'" "call_events c1 n es'" by blast
  with 1 show ?case by (meson call_events_append extends_trans same_config_trans)
qed auto

text \<open>
  C8: the contract of a whole session. A program that makes a client with any options and runs any
  operations of the services on it, whatever the network answers to each, sends the credentials it gave
  and nothing else, only to URLs below the client's base URL, which has passed the validation, and only
  when the credentials are valid; the requests are at most the sum of the bounds of the operations, and
  in the end every response body that was received has been closed.
\<close>

theorem session_safe:
  assumes "list_all is_option opts" and "session (NewClient user pass opts) w c' w' k"
  shows "(\<forall>q \<in> set (sent (new_events w w')). BasicAuth q = (user, pass) \<and> prefix (baseURL c') (ReqURL q)
        \<and> validateBaseURL (baseURL c') = None \<and> validateCredentials user pass = None)
    \<and> length (sent (new_events w w')) \<le> k
    \<and> received (new_events w w') = closed (new_events w w')
    \<and> same_config (NewClient user pass opts) c'"
proof -
  let ?c = "NewClient user pass opts"
  have wf: "wf_client ?c" using assms(1) by (rule wf_NewClient)
  have cred: "username ?c = user" "password ?c = pass"
    using options_keep_credentials [OF assms(1)] by (simp_all add: NewClient_def)
  from session_contract [OF assms(2) wf] obtain es where
    es: "same_config ?c c'" "new_events w w' = es" "call_events ?c k es" by (blast dest: extends_new_events)
  moreover have "baseURL c' = baseURL ?c" using same_config_fields [OF es(1)] by simp
  ultimately show ?thesis
    using cred wf by (auto simp: call_events_def own_request_def may_send_def wf_client_def)
qed

theorem session_safe_witness:
  "let w = lab_world [reply 200 [] ''null'', reply 404 [] '''']; (r, c1, w1) = discard (reset_Get 7) lab_client w;
       (r2, c2, w2) = discard (key_Delete ''aa:bb'') c1 w1
   in length (sent (new_events w w2)) = 2 \<and> received (new_events w w2) = closed (new_events w w2)
      \<and> (\<forall>q \<in> set (sent (new_events w w2)). BasicAuth q = (''robot'', ''secret''))"
proof -
  let ?w = "lab_world [reply 200 [] ''null'', reply 404 [] '''']"
  let ?one = "discard (reset_Get 7) lab_client ?w"
  let ?two = "discard (key_Delete ''aa:bb'') (fst (snd ?one)) (snd (snd ?one))"
  have "session lab_client ?w (fst (snd ?one)) (snd (snd ?one)) (0 + 3)"
    by (rule session.step [OF session.start service_call.reset_get, of _ _ _ "fst ?one"]) simp
  then have "session lab_client ?w (fst (snd ?two)) (snd (snd ?two)) (0 + 3 + 3)"
    by (rule session.step [OF _ service_call.key_delete, of _ _ _ _ _ _ "fst ?two"]) simp
  then have "session (NewClient ''robot'' ''secret'' []) ?w (fst (snd ?two)) (snd (snd ?two)) 6"
    by (simp add: lab_client_def)
  note session_safe [OF _ this]
  moreover have "length (sent (new_events ?w (snd (snd ?two)))) = 2" by code_simp
  ultimately show ?thesis by (simp add: Let_def split_beta)
qed

end
