(* ===== verification/SpecHandlerProps.thy ===== *)
theory SpecHandlerProps
  imports SpecHandler FirewallProps ServiceCalls
begin

text \<open>
  The handler of the test fixtures is transparent: a simulation between the recorder and the writer of
  the server shows that a well-behaved fixture answers through the handler as it would answer alone,
  and among the requests of the services with bracketed bodies it reports exactly the empty lists of
  servers.
\<close>

section \<open>Well-behaved fixtures\<close>

fun head_op :: "wop \<Rightarrow> bool" where
  "head_op (DelHeader k) \<longleftrightarrow> CanonicalHeaderKey k \<noteq> ''Content-Type''"
| "head_op (WriteHeader c) \<longleftrightarrow> False"
| "head_op (Write b) \<longleftrightarrow> False"
| "head_op _ \<longleftrightarrow> True"

fun body_op :: "wop \<Rightarrow> bool" where
  "body_op (WriteHeader c) \<longleftrightarrow> 200 \<le> c \<and> c \<le> 999"
| "body_op (Write b) \<longleftrightarrow> True"
| "body_op _ \<longleftrightarrow> False"

definition json_header :: Header where
  "json_header = [(''Content-Type'', [''application/json''])]"

fun op_bytes :: "wop \<Rightarrow> string" where
  "op_bytes (Write b) = b"
| "op_bytes _ = []"

definition body_length :: "wop list \<Rightarrow> nat" where
  "body_length ps = length (concat (map op_bytes ps))"

text \<open>
  Headers first, then final statuses and the body. The content type is not deleted, and a declared
  length is not exceeded.
\<close>

definition orderly :: "wop list \<Rightarrow> bool" where
  "orderly ps \<longleftrightarrow>
     (let hs = takeWhile head_op ps; bs = dropWhile head_op ps
      in list_all body_op bs \<and> fits (declared_length (fold header_op hs json_header)) (body_length bs))"

lemma orderly_split:
  assumes "orderly ps"
  obtains hs bs where "ps = hs @ bs" "list_all head_op hs" "list_all body_op bs"
    "fits (declared_length (fold header_op hs json_header)) (body_length bs)"
proof
  show "ps = takeWhile head_op ps @ dropWhile head_op ps" by simp
  show "list_all head_op (takeWhile head_op ps)" by (auto simp: list_all_iff dest: set_takeWhileD)
  show "list_all body_op (dropWhile head_op ps)"
    and "fits (declared_length (fold header_op (takeWhile head_op ps) json_header)) (body_length (dropWhile head_op ps))"
    using assms by (simp_all add: orderly_def Let_def)
qed

section \<open>Headers\<close>

definition ok_header :: "Header \<Rightarrow> bool" where
  "ok_header h \<longleftrightarrow> distinct (map fst h) \<and> (\<forall>(k, vs) \<in> set h. CanonicalHeaderKey k = k \<and> vs \<noteq> [])"

lemma eq_by_byte: "c = d \<longleftrightarrow> byte c = byte d"
  by (simp add: byte_def)

lemma canon_loop_idem: "canon_loop up (canon_loop up s) = canon_loop up s"
proof (induction up s rule: canon_loop.induct)
  case (2 up c cs)
  have dash: "c = CHR ''-'' \<longleftrightarrow> byte c = 45" for c by (simp add: eq_by_byte) (simp add: byte_def)
  have "97 \<le> byte c \<Longrightarrow> byte c - 32 \<noteq> 45" by simp
  with 2 byte_shift [of c] show ?case
    by (auto simp: in_range_def dash)
qed simp

lemma set_update_alist: "(k, v) \<in> set (AList.update k' v' h) \<Longrightarrow> (k, v) = (k', v') \<or> (k, v) \<in> set h"
  by (induction h) (auto split: if_splits)

lemma ok_header_step: "ok_header h \<Longrightarrow> ok_header (header_op p h)"
proof -
  assume h: "ok_header h"
  have upd: "ok_header (AList.update (CanonicalHeaderKey k) vs h)" if "vs \<noteq> []" for k vs
    using h that set_update_alist [of _ _ "CanonicalHeaderKey k" vs h]
    by (fastforce simp: ok_header_def distinct_update CanonicalHeaderKey_def canon_loop_idem)
  show ?thesis
  proof (cases p)
    case (DelHeader k)
    with h show ?thesis
      by (auto simp: ok_header_def distinct_map_filter AList.delete_eq)
  qed (use h upd in \<open>simp_all add: Values_Set_def Values_Add_def\<close>)
qed

lemma content_type_step:
  "head_op p \<Longrightarrow> map_of h ''Content-Type'' \<noteq> None \<Longrightarrow> map_of (header_op p h) ''Content-Type'' \<noteq> None"
  by (cases p) (auto simp: Values_Set_def Values_Add_def update_conv' delete_conv')

text \<open>Copying a map of headers entry by entry gives the same map.\<close>

lemma add_values:
  "fold header_op (map (AddHeader k) vs) h = Add_all (CanonicalHeaderKey k) vs h"
  unfolding Add_all_def by (induction vs arbitrary: h) simp_all

definition header_adds :: "Header \<Rightarrow> wop list" where
  "header_adds h = concat (map (\<lambda>(k, vs). map (AddHeader k) vs) h)"

lemma copy_header:
  assumes "ok_header h" and "\<forall>k \<in> fst ` set h. map_of g k = None"
  shows "map_of (fold header_op (header_adds h) g) k = (case map_of h k of Some vs \<Rightarrow> Some vs | None \<Rightarrow> map_of g k)"
  using assms
proof (induction h arbitrary: g)
  case (Cons kv h)
  obtain k0 vs where kv: "kv = (k0, vs)" by force
  with Cons.prems have k0: "CanonicalHeaderKey k0 = k0" "vs \<noteq> []" "map_of g k0 = None" "k0 \<notin> fst ` set h"
    "ok_header h" by (auto simp: ok_header_def)
  let ?g = "Add_all k0 vs g"
  have look: "map_of ?g k = (if k = k0 then Some vs else map_of g k)" for k
    using k0 by (simp add: lookup_Add_all)
  then have "\<forall>k \<in> fst ` set h. map_of ?g k = None" using Cons.prems(2) k0(4) kv by auto
  from Cons.IH [OF k0(5) this] look k0 kv show ?case
    by (auto simp: header_adds_def add_values split: option.split dest: map_of_SomeD) (force dest: map_of_SomeD)
qed (simp add: header_adds_def)

section \<open>The recorder follows the server\<close>

text \<open>The writer and the recorder after the same operations, when h is the header that was written.\<close>

definition in_step :: "Header \<Rightarrow> writer \<Rightarrow> recorder \<Rightarrow> bool" where
  "in_step h w t \<longleftrightarrow> Live w = h \<and> HeaderMap t = h \<and>
     (if WroteHeader t
      then Committed w = Some (RecCode t, h) \<and> 200 \<le> RecCode t \<and> RecCode t \<le> 999
        \<and> Declared w = declared_length h
        \<and> (if bodyAllowedForStatus (RecCode t) then Content w = RecBody t \<and> Written w = length (RecBody t)
           else Content w = [])
      else Committed w = None \<and> Content w = [] \<and> Written w = 0 \<and> RecCode t = 200 \<and> RecBody t = [])"

lemma fits_less: "fits d n \<Longrightarrow> m \<le> n \<Longrightarrow> fits d m"
  by (auto simp: fits_def split: option.splits)

lemma body_step:
  assumes "body_op p" and "in_step h w t" and "map_of h ''Content-Type'' \<noteq> None"
    and "fits (declared_length h) (length (RecBody t) + length (op_bytes p))"
  shows "\<exists>w' t'. server_step p w = Some w' \<and> recorder_step sniff p t = Some t' \<and> in_step h w' t'
    \<and> RecBody t' = RecBody t @ op_bytes p"
proof (cases p)
  case (Write b)
  with assms(4) have "fits (declared_length h) (length b)" by (elim fits_less) simp
  with assms(2,3,4) Write show ?thesis
    by (cases "WroteHeader t") (auto simp: in_step_def server_commit_def bodyAllowedForStatus_def Let_def)
qed (use assms in \<open>auto simp: in_step_def server_commit_def bad_status_def bodyAllowedForStatus_def Let_def\<close>)

lemma body_steps:
  assumes "list_all body_op bs" and "in_step h w t" and "map_of h ''Content-Type'' \<noteq> None"
    and "fits (declared_length h) (length (RecBody t) + body_length bs)"
  shows "\<exists>w' t'. run_ops server_step bs w = Some w' \<and> run_ops (recorder_step sniff) bs t = Some t' \<and> in_step h w' t'
    \<and> fits (declared_length h) (length (RecBody t'))"
  using assms(1,2,4)
proof (induction bs arbitrary: w t)
  case (Cons p bs)
  then have "fits (declared_length h) (length (RecBody t) + length (op_bytes p))"
    by (elim fits_less) (simp add: body_length_def)
  with body_step [OF _ Cons.prems(2) assms(3), of p sniff] Cons.prems(1) obtain w' t' where
    "server_step p w = Some w'" "recorder_step sniff p t = Some t'" "in_step h w' t'"
    "RecBody t' = RecBody t @ op_bytes p" by auto
  with Cons.IH [of w' t'] Cons.prems show ?case by (auto simp: body_length_def add.assoc)
qed (simp add: body_length_def)

lemma run_ops_append: "run_ops f (ps @ qs) s = Option.bind (run_ops f ps s) (run_ops f qs)"
  by (induction ps arbitrary: s) (auto split: bind_splits)

lemma head_step:
  assumes "head_op p"
  shows "server_step p w = Some (w\<lparr>Live := header_op p (Live w)\<rparr>)"
    and "recorder_step sniff p t = Some (t\<lparr>HeaderMap := header_op p (HeaderMap t)\<rparr>)"
  using assms by (cases p; simp)+

lemma head_steps:
  assumes "list_all head_op hs"
  shows "run_ops server_step hs w = Some (w\<lparr>Live := fold header_op hs (Live w)\<rparr>)"
    and "run_ops (recorder_step sniff) hs t = Some (t\<lparr>HeaderMap := fold header_op hs (HeaderMap t)\<rparr>)"
  using assms by (induction hs arbitrary: w t) (simp_all add: head_step)

lemma head_invariant:
  assumes "list_all head_op hs" and "ok_header h" and "map_of h ''Content-Type'' \<noteq> None"
  shows "ok_header (fold header_op hs h) \<and> map_of (fold header_op hs h) ''Content-Type'' \<noteq> None"
  using assms
proof (induction hs arbitrary: h)
  case (Cons p hs)
  then show ?case using ok_header_step content_type_step by simp
qed simp

lemma go_index_eq: "map_of g = map_of h \<Longrightarrow> go_index g = go_index h"
  by (rule ext) (simp only: go_index_def)

lemma suppressed_index:
  assumes "map_of g = map_of h"
  shows "go_index (fold AList.delete ks g) = go_index (fold AList.delete ks h)"
proof (rule go_index_eq)
  show "map_of (fold AList.delete ks g) = map_of (fold AList.delete ks h)"
    using assms
  proof (induction ks arbitrary: g h)
    case (Cons k ks)
    then have "map_of (AList.delete k g) = map_of (AList.delete k h)" by (simp add: delete_conv')
    from Cons.IH [OF this] show ?case by simp
  qed simp
qed

lemma head_adds: "list_all head_op (header_adds h)"
  by (auto simp: header_adds_def list_all_iff)

text \<open>What the client receives from a replay is what it would receive from the writer.\<close>

lemma replay_answer:
  assumes "in_step h w t" and "ok_header h" and "map_of h ''Content-Type'' \<noteq> None"
    and "fits (declared_length h) (length (RecBody t))"
  shows "serve sniff (replay t) = Some (server_finish sniff w)"
proof -
  let ?g = "fold header_op (header_adds h) []"
  have same: "map_of ?g = map_of h"
    using copy_header [OF assms(2), of "[]"] by (auto simp: fun_eq_iff split: option.split)
  have len: "declared_length ?g = declared_length h" by (simp add: declared_length_def header_Get_def same)
  let ?ok = "bodyAllowedForStatus (RecCode t)"
  let ?w2 = "\<lparr>Live = ?g, Committed = Some (RecCode t, ?g), Declared = declared_length ?g,
    Written = if ?ok then length (RecBody t) else 0, Content = if ?ok then RecBody t else []\<rparr>"
  have code: "200 \<le> RecCode t" "RecCode t \<le> 999" and map: "HeaderMap t = h"
    using assms(1) by (auto simp: in_step_def split: if_splits)
  have "replay t = header_adds h @ [WriteHeader (RecCode t), Write (RecBody t)]"
    by (simp add: replay_def header_adds_def map)
  with code assms(4) have "run_ops server_step (replay t) new_writer = Some ?w2"
    by (simp add: run_ops_append head_steps [OF head_adds] new_writer_def server_commit_def bad_status_def len Let_def)
  then have "serve sniff (replay t) = Some (server_finish sniff ?w2)" by (simp add: serve_def)
  also have "server_finish sniff ?w2 = server_finish sniff w"
    using assms(1,3) same go_index_eq [OF same] suppressed_index [OF same]
    by (simp add: server_finish_def server_commit_def in_step_def split: if_splits)
  finally show ?thesis .
qed

lemma recorded_answer:
  assumes "orderly ps"
  shows "\<exists>t. run_ops (recorder_step sniff) ps new_recorder = Some t
    \<and> serve sniff (replay t) = serve sniff (SetHeader ''Content-Type'' ''application/json'' # ps)
    \<and> serve sniff (replay t) \<noteq> None"
proof -
  obtain hs bs where ps: "ps = hs @ bs" "list_all head_op hs" "list_all body_op bs"
    "fits (declared_length (fold header_op hs json_header)) (body_length bs)"
    using assms by (rule orderly_split)
  let ?h = "fold header_op hs json_header"
  let ?w = "new_writer\<lparr>Live := ?h\<rparr>" and ?t = "new_recorder\<lparr>HeaderMap := ?h\<rparr>"
  have canon: "CanonicalHeaderKey ''Content-Type'' = ''Content-Type''" by code_simp
  then have "ok_header json_header" "map_of json_header ''Content-Type'' \<noteq> None"
    by (simp_all add: json_header_def ok_header_def)
  then have h: "ok_header ?h" "map_of ?h ''Content-Type'' \<noteq> None"
    using head_invariant [OF ps(2), of json_header] by simp_all
  have step: "in_step ?h ?w ?t" by (simp add: in_step_def new_recorder_def new_writer_def)
  have "fits (declared_length ?h) (length (RecBody ?t) + body_length bs)" using ps(4) by (simp add: new_recorder_def)
  from body_steps [OF ps(3) step h(2) this, of sniff] obtain w' t' where
    run: "run_ops server_step bs ?w = Some w'" "run_ops (recorder_step sniff) bs ?t = Some t'" "in_step ?h w' t'"
    and fit: "fits (declared_length ?h) (length (RecBody t'))"
    by blast
  have "run_ops (recorder_step sniff) ps new_recorder = Some t'"
    using ps run(2) by (simp add: run_ops_append head_steps new_recorder_def json_header_def)
  moreover have "serve sniff (SetHeader ''Content-Type'' ''application/json'' # ps) = Some (server_finish sniff w')"
    using ps run(1) by (simp add: serve_def run_ops_append head_steps canon Values_Set_def new_writer_def json_header_def)
  ultimately show ?thesis using replay_answer [OF run(3) h fit] by auto
qed

section \<open>The handler is transparent\<close>

text \<open>A validator that leaves everything but the body of the request as it was.\<close>

definition touches_body_only :: "('doc, 'router, 'route) kin \<Rightarrow> bool" where
  "touches_body_only kin \<longleftrightarrow> (\<forall>r route b. restored (snd (ValidateRequest kin r route)) b = restored r b)"

text \<open>
  C20: the handler does not change the test it wraps. For a request that the document knows and
  whose body b can be read, the fixture sees the request with that very body, whether the validator
  consumed it or not (for a bracketed body even if the validator changed anything else), and if
  the fixture is orderly (headers, then final statuses and the body, which is not longer than a
  declared length), the client receives exactly the answer that the fixture gives without the
  handler, with JSON as the content type unless the fixture sets another.
\<close>

theorem Handler_transparent:
  assumes "FindRoute kin (SpecRouter spec) r = Inr route" and "HBody r = Some (b, None)"
    and "touches_body_only kin \<or> bracketed_body (HMethod r) (HPath r)"
    and "orderly (snd (inner r))"
  shows "Seen (Handler kin sniff stops spec inner r) = Some r
    \<and> Answer (Handler kin sniff stops spec inner r)
        = serve sniff (SetHeader ''Content-Type'' ''application/json'' # snd (inner r))
    \<and> Answer (Handler kin sniff stops spec inner r) \<noteq> None"
proof -
  have r: "restored r b = r" using assms(2) by (simp add: restored_def)
  have buf: "buffer_body r = (b, None)" using assms(2) by (simp add: buffer_body_def)
  have "restored (snd (check_request kin route r b)) b = r"
    using assms(3) r by (auto simp: check_request_def touches_body_only_def Let_def split_beta)
  moreover obtain t where "run_ops (recorder_step sniff) (snd (inner r)) new_recorder = Some t"
    "serve sniff (replay t) = serve sniff (SetHeader ''Content-Type'' ''application/json'' # snd (inner r))"
    "serve sniff (replay t) \<noteq> None"
    using recorded_answer [OF assms(4)] by blast
  ultimately show ?thesis
    using assms(1) by (simp add: Handler_def buf r Let_def split_beta)
qed

text \<open>A header that a fixture sets after its answer has begun reaches the client only through the handler.\<close>

lemma late_header_differs:
  assumes "late = [WriteHeader 200, SetHeader ''X-Late'' ''1'']"
  shows "map_option (\<lambda>a. AnsHeader a ''X-Late'') (serve sniff (SetHeader ''Content-Type'' ''application/json'' # late)) = Some []"
    and "map_option (\<lambda>a. AnsHeader a ''X-Late'')
      (Option.bind (run_ops (recorder_step sniff) late new_recorder) (\<lambda>t. serve sniff (replay t))) = Some [''1'']"
  unfolding assms by code_simp+

text \<open>A body beyond the declared length loses its last part without the handler, and all of it with the handler.\<close>

lemma long_body_differs:
  assumes "long = [SetHeader ''Content-Length'' ''2'', Write ''ok'', Write ''!'']"
  shows "map_option AnsBody (serve sniff (SetHeader ''Content-Type'' ''application/json'' # long)) = Some ''ok''"
    and "map_option AnsBody
      (Option.bind (run_ops (recorder_step sniff) long new_recorder) (\<lambda>t. serve sniff (replay t))) = Some []"
    and "\<not> orderly long"
  unfolding assms by code_simp+

definition lab_kin :: "(unit, unit, unit) kin" where
  "lab_kin = \<lparr>LoadFromFile = (\<lambda>_. Inr ()), ValidateDoc = (\<lambda>_. None), ClearServers = id, NewRouter = Inr,
     FindRoute = (\<lambda>_ _. Inr ()), ValidateRequest = (\<lambda>r _. (None, restored r [])),
     ValidateResponse = (\<lambda>_ _ _ _ _. None)\<rparr>"

definition lab_hreq :: "string \<Rightarrow> string \<Rightarrow> string \<Rightarrow> hreq" where
  "lab_hreq m p b = \<lparr>HMethod = m, HPath = p, HRawQuery = [], HHeader = [], HBody = Some (b, None)\<rparr>"

definition lab_fixture :: fixture where
  "lab_fixture r = (r, [WriteHeader 201, Write ''{}''])"

theorem Handler_transparent_witness:
  "let r = lab_hreq ''POST'' ''/boot/3'' ''os=linux'';
       h = Handler lab_kin id True \<lparr>SpecDoc = (), SpecRouter = ()\<rparr> lab_fixture r
   in Seen h = Some r \<and> map_option AnsStatus (Answer h) = Some 201
      \<and> map_option (\<lambda>a. AnsHeader a ''Content-Type'') (Answer h) = Some [''application/json'']"
proof -
  let ?r = "lab_hreq ''POST'' ''/boot/3'' ''os=linux''" and ?spec = "\<lparr>SpecDoc = (), SpecRouter = ()\<rparr>"
  let ?answer = "serve id (SetHeader ''Content-Type'' ''application/json'' # snd (lab_fixture ?r))"
  have pre: "FindRoute lab_kin (SpecRouter ?spec) ?r = Inr ()" "HBody ?r = Some (''os=linux'', None)"
    "touches_body_only lab_kin \<or> bracketed_body (HMethod ?r) (HPath ?r)"
    by (simp_all add: lab_kin_def lab_hreq_def touches_body_only_def restored_def)
  have "orderly (snd (lab_fixture ?r))" by code_simp
  note run = Handler_transparent [where inner = lab_fixture and sniff = id and stops = True, OF pre this]
  moreover have "map_option AnsStatus ?answer = Some 201"
    "map_option (\<lambda>a. AnsHeader a ''Content-Type'') ?answer = Some [''application/json'']"
    by code_simp+
  ultimately show ?thesis by (simp only: Let_def simp_thms)
qed

section \<open>The bracketed requests of the services pass\<close>

text \<open>The operations with a bracketed body.\<close>

inductive bracketed_call :: "unit call \<Rightarrow> report list \<Rightarrow> bool" where
  firewall_update: "bracketed_call (discard (fw_Update i config)) []"
| template_apply: "bracketed_call (discard (ApplyTemplate i s)) []"
| template_create: "bracketed_call (discard (CreateTemplate tmpl)) []"
| template_update: "CHR ''/'' \<notin> set s \<Longrightarrow> bracketed_call (discard (UpdateTemplate s tmpl)) []"
| vswitch_add: "bracketed_call (discard (AddServers i ss)) (if ss = [] then [NoServer] else [])"
| vswitch_remove: "bracketed_call (discard (RemoveServers i ss)) (if ss = [] then [NoServer] else [])"
| traffic: "bracketed_call (discard (traffic_Get params)) []"

text \<open>A request of the client as a test server hands it to a handler.\<close>

definition carried :: "client \<Rightarrow> request \<Rightarrow> hreq \<Rightarrow> bool" where
  "carried c q r \<longleftrightarrow> HMethod r = Method q \<and> HBody r = Some (ReqBody q, None) \<and> HasPrefix (ReqURL q) (baseURL c)
     \<and> PathUnescape (drop (length (baseURL c)) (ReqURL q)) = Inr (HPath r)"

text \<open>A method, an escaped path and a body that fall under a bracketed form check, and what it reports.\<close>

definition checked :: "string \<Rightarrow> string \<Rightarrow> string \<Rightarrow> report list \<Rightarrow> bool" where
  "checked m path body reps \<longleftrightarrow> (\<exists>p. PathUnescape path = Inr p \<and> bracketed_body m p
     \<and> (\<forall>schema. body_check schema m p body = reps))"

lemma unescape_prefix:
  "CHR ''%'' \<notin> set p \<Longrightarrow> PathUnescape (p @ s) =
    (case PathUnescape s of Inl e \<Rightarrow> Inl e | Inr t \<Rightarrow> Inr (p @ t))"
  unfolding PathUnescape_def
  by (induction p) (auto simp: unescape_literal split: sum.splits)

lemma slash_segments_path:
  assumes "p \<noteq> []" and "hd p \<noteq> CHR ''/''" and "last p \<noteq> CHR ''/''"
  shows "slash_segments (CHR ''/'' # p) = split_on CHR ''/'' p"
proof -
  obtain x xs where p: "p = x # xs" using assms(1) by (cases p) auto
  obtain ys y where r: "p = ys @ [y]" using assms(1) by (cases p rule: rev_cases) auto
  have "dropWhile (\<lambda>c. c = CHR ''/'') (CHR ''/'' # p) = p" using assms(2) p by simp
  moreover have "dropWhile (\<lambda>c. c = CHR ''/'') (rev p) = rev p" using assms(3) r by simp
  ultimately show ?thesis by (simp add: slash_segments_def)
qed

lemma Itoa_plain: "c \<in> set (Itoa i) \<Longrightarrow> c \<noteq> CHR ''/'' \<and> c \<noteq> CHR ''%''"
  using dec_of_nat_digits by (fastforce simp: Itoa_def digit_val_def split: if_splits)

lemma Itoa_ends: "Itoa i \<noteq> [] \<and> last (Itoa i) \<noteq> CHR ''/''"
proof -
  have "Itoa i \<noteq> []" by (simp add: Itoa_def)
  then show ?thesis using Itoa_plain [of "last (Itoa i)" i] last_in_set by blast
qed

lemma unescape_Itoa: "PathUnescape (Itoa i) = Inr (Itoa i)"
  using unescape_prefix [of "Itoa i" "[]"] Itoa_plain by (auto simp: PathUnescape_def)

text \<open>A path that is joined from segments without slashes splits into them.\<close>

definition segment :: "string \<Rightarrow> bool" where
  "segment s \<longleftrightarrow> s \<noteq> [] \<and> CHR ''/'' \<notin> set s"

lemma Join_segments:
  assumes "xs \<noteq> []" and "list_all segment xs"
  shows "Join xs ''/'' \<noteq> []" "hd (Join xs ''/'') \<noteq> CHR ''/''" "last (Join xs ''/'') \<noteq> CHR ''/''"
proof -
  obtain x ys where x: "xs = x # ys" using assms(1) by (cases xs) auto
  then have "x \<noteq> []" "CHR ''/'' \<notin> set x" using assms(2) by (simp_all add: segment_def)
  then have "hd x \<noteq> CHR ''/''" by (metis hd_in_set)
  with \<open>x \<noteq> []\<close> x show "Join xs ''/'' \<noteq> []" "hd (Join xs ''/'') \<noteq> CHR ''/''" by (simp_all add: Join_Cons)
  show "last (Join xs ''/'') \<noteq> CHR ''/''"
    using assms
  proof (induction xs rule: list_nonempty_induct)
    case (single x)
    then have "x \<noteq> []" "CHR ''/'' \<notin> set x" by (simp_all add: segment_def)
    then show ?case by (simp add: Join_Cons) (metis last_in_set)
  next
    case (cons x xs)
    then have "Join xs ''/'' \<noteq> []" by (cases xs) (auto simp: Join_Cons segment_def)
    with cons show ?case by (simp add: Join_Cons)
  qed
qed

lemma slash_segments_Join:
  assumes "xs \<noteq> []" and "list_all segment xs"
  shows "slash_segments (CHR ''/'' # Join xs ''/'') = xs"
proof -
  have "\<forall>x \<in> set xs. CHR ''/'' \<notin> set x" using assms(2) by (simp add: list_all_iff segment_def)
  from split_on_Join [OF assms(1) this] slash_segments_path [OF Join_segments [OF assms]]
  show ?thesis by simp
qed

lemma segment_Itoa: "segment (Itoa i)"
  using Itoa_ends Itoa_plain by (auto simp: segment_def)

lemma path_segments:
  assumes "segment s"
  shows "slash_segments (''/firewall/'' @ s) = [''firewall'', s]"
    and "slash_segments (''/firewall/template/'' @ s) = [''firewall'', ''template'', s]"
    and "slash_segments (''/vswitch/'' @ s @ ''/server'') = [''vswitch'', s, ''server'']"
  using assms slash_segments_Join [of "[''firewall'', s]"] slash_segments_Join [of "[''firewall'', ''template'', s]"]
    slash_segments_Join [of "[''vswitch'', s, ''server'']"]
  by (simp_all add: Join_Cons segment_def [of "''firewall''"] segment_def [of "''template''"]
      segment_def [of "''vswitch''"] segment_def [of "''server''"])

section \<open>The checks accept what the services send\<close>

lemma update_extra_scalar: "scalar_form (update_extra config)"
  by (auto simp: update_extra_def scalar_form_def plain_key_def split: option.split)

lemma templateExtras_scalar: "scalar_form (templateExtras config)"
  by (simp add: templateExtras_def scalar_form_def plain_key_def)

lemma apply_body_checked: "validateFirewallForm (form_body (Some (Values_Set [] ''template_id'' s))) = []"
proof -
  let ?m = "snd (ParseQuery (Encode (Values_Set [] ''template_id'' s)))"
  have "k = ''template_id''" if "k \<in> fst ` set ?m" for k
  proof -
    from that have "map_of ?m k \<noteq> None" by (simp add: map_of_eq_None_iff)
    moreover have "distinct (map fst (Values_Set [] ''template_id'' s))" by (simp add: Values_Set_def)
    ultimately show ?thesis
      using Encode_reads_back [of "Values_Set [] ''template_id'' s" k] by (auto simp: lookup_Values_Set split: if_splits)
  qed
  moreover have "firewallRuleKeyOrScalar ''template_id''" by code_simp
  ultimately have "check_keys firewallRuleKeyOrScalar ?m = []" by (intro check_keys_empty) metis
  moreover have "fst (ParseQuery (Encode m)) = None" for m by (simp add: Encode_parsed)
  ultimately show ?thesis by (simp add: form_body_def validateFirewallForm_def split_beta)
qed

lemma checked_server: "checked MethodPost (server_path i) body (validateFirewallForm body)"
proof -
  have "PathUnescape (server_path i) = Inr (''/firewall/'' @ Itoa i)"
    using unescape_prefix [of "''/firewall/''" "Itoa i"] by (simp add: server_path_def unescape_Itoa)
  moreover have "isFirewallRulesPath (''/firewall/'' @ Itoa i)"
    unfolding isFirewallRulesPath_def path_segments(1) [OF segment_Itoa] by simp
  ultimately show ?thesis
    unfolding checked_def bracketed_body_def body_check_def by auto
qed

lemma checked_template:
  assumes "CHR ''/'' \<notin> set s"
  shows "checked MethodPost (template_path s) body (validateFirewallForm body)"
proof -
  have "PathUnescape (template_path s) = Inr (''/firewall/template/'' @ s)"
    using unescape_prefix [of "''/firewall/template/''" "PathEscape s"]
    by (simp add: template_path_def PathUnescape_PathEscape)
  moreover have "isFirewallRulesPath (''/firewall/template/'' @ s)"
  proof (cases "s = []")
    case True
    have "isFirewallRulesPath ''/firewall/template/''" by code_simp
    with True show ?thesis by simp
  next
    case False
    with assms have "segment s" by (simp add: segment_def)
    then show ?thesis unfolding isFirewallRulesPath_def path_segments(2) [OF \<open>segment s\<close>] by simp
  qed
  ultimately show ?thesis
    using assms unfolding checked_def bracketed_body_def body_check_def by auto
qed

lemma checked_templates: "checked MethodPost ''/firewall/template'' body (validateFirewallForm body)"
proof -
  have "PathUnescape ''/firewall/template'' = Inr ''/firewall/template''" "isFirewallRulesPath ''/firewall/template''"
    by code_simp+
  then show ?thesis unfolding checked_def bracketed_body_def body_check_def by auto
qed

lemma checked_vswitch:
  assumes "m = MethodPost \<or> m = MethodDelete"
  shows "checked m (vswitch_path i @ ''/server'') body (validateVSwitchServerForm body)"
proof -
  let ?p = "''/vswitch/'' @ Itoa i @ ''/server''"
  have "PathUnescape (Itoa i @ ''/server'') = Inr (Itoa i @ ''/server'')"
    using unescape_prefix [of "Itoa i @ ''/server''" "[]"] Itoa_plain by (auto simp: PathUnescape_def)
  then have "PathUnescape (vswitch_path i @ ''/server'') = Inr ?p"
    using unescape_prefix [of "''/vswitch/''" "Itoa i @ ''/server''"] by (simp add: vswitch_path_def)
  moreover have "isVSwitchServerPath ?p" "\<not> isFirewallRulesPath ?p"
    unfolding isVSwitchServerPath_def isFirewallRulesPath_def path_segments(3) [OF segment_Itoa] by simp_all
  ultimately show ?thesis
    using assms unfolding checked_def bracketed_body_def body_check_def by auto
qed

lemma checked_traffic: "checked MethodPost ''/traffic'' body (validateTrafficForm body)"
proof -
  have "PathUnescape ''/traffic'' = Inr ''/traffic''" "isTrafficPath ''/traffic''"
    "\<not> isFirewallRulesPath ''/traffic''" "\<not> isVSwitchServerPath ''/traffic''"
    by code_simp+
  then show ?thesis unfolding checked_def bracketed_body_def body_check_def by auto
qed

lemma no_servers_checked: "validateVSwitchServerForm (servers_body []) = [NoServer]"
  by code_simp

lemma servers_reports: "validateVSwitchServerForm (servers_body ss) = (if ss = [] then [NoServer] else [])"
  using servers_body_checked [of ss] no_servers_checked by simp

text \<open>An id with a slash inside is not one segment of the path, and the request is left to the schema.\<close>

lemma template_slash:
  assumes "CHR ''/'' \<in> set s" and "last s \<noteq> CHR ''/''"
  shows "\<not> isFirewallRulesPath (''/firewall/template/'' @ s)"
proof -
  have s: "s \<noteq> []" using assms(1) by auto
  obtain p q where pq: "s = p @ CHR ''/'' # q" "CHR ''/'' \<notin> set p" using assms(1) by (metis split_list_first)
  have cut: "split_on CHR ''/'' (''firewall'' @ CHR ''/'' # ''template'' @ CHR ''/'' # p @ CHR ''/'' # q)
      = ''firewall'' # ''template'' # p # split_on CHR ''/'' q"
    using pq(2) by (subst split_on_append_sep, simp)+ (rule refl)
  have "slash_segments (CHR ''/'' # ''firewall/template/'' @ s) = split_on CHR ''/'' (''firewall/template/'' @ s)"
    by (rule slash_segments_path) (use assms(2) s in \<open>simp_all only: append.simps list.distinct list.sel last.simps last_append
      if_False char.inject simp_thms not_False_eq_True\<close>)
  also have "''firewall/template/'' @ s = ''firewall'' @ CHR ''/'' # ''template'' @ CHR ''/'' # p @ CHR ''/'' # q"
    by (simp add: pq(1))
  also note cut
  finally have "slash_segments (''/firewall/template/'' @ s) = ''firewall'' # ''template'' # p # split_on CHR ''/'' q"
    by (simp only: append.simps pq(1))
  then show ?thesis by (cases "split_on CHR ''/'' q") (simp_all add: isFirewallRulesPath_def)
qed

lemmas form_checks =
  firewall_body_checked [OF update_extra_scalar] firewall_body_checked [OF templateExtras_scalar]
  apply_body_checked servers_reports traffic_body_checked

lemma firewall_endpoints:
  "endpoint (fw_Update i config) MethodPost (server_path i) (encodeRules (UpdRules config) (update_extra config))"
  "endpoint (ApplyTemplate i s) MethodPost (server_path i) (form_body (Some (Values_Set [] ''template_id'' s)))"
  "endpoint (CreateTemplate tmpl) MethodPost ''/firewall/template'' (encodeRules (TCRules tmpl) (templateExtras tmpl))"
  "endpoint (UpdateTemplate s tmpl) MethodPost (template_path s) (encodeRules (TCRules tmpl) (templateExtras tmpl))"
  unfolding fw_Update_def ApplyTemplate_def CreateTemplate_def UpdateTemplate_def
  by (rule endpoint_checked endpoints)+

lemma bracketed_endpoint:
  "bracketed_call call reps \<Longrightarrow> \<exists>m path body. endpoint call m path body \<and> checked m path body reps"
proof (induction rule: bracketed_call.induct)
  case (firewall_update i config)
  show ?case
    using endpoint_then [OF firewall_endpoints(1)] checked_server form_checks(1) unfolding discard_def by metis
next
  case (template_apply i s)
  show ?case
    using endpoint_then [OF firewall_endpoints(2)] checked_server form_checks(3) unfolding discard_def by metis
next
  case (template_create tmpl)
  show ?case
    using endpoint_then [OF firewall_endpoints(3)] checked_templates form_checks(2) unfolding discard_def by metis
next
  case (template_update s tmpl)
  then show ?case
    using endpoint_then [OF firewall_endpoints(4)] checked_template form_checks(2) unfolding discard_def by metis
next
  case (vswitch_add i ss)
  show ?case
    using endpoint_then [OF vs_add.endpoint_axioms] checked_vswitch [OF disjI1 [OF refl]]
    unfolding discard_def form_checks(4) [of ss, symmetric] by blast
next
  case (vswitch_remove i ss)
  show ?case
    using endpoint_then [OF vs_remove.endpoint_axioms] checked_vswitch [OF disjI2 [OF refl]]
    unfolding discard_def form_checks(4) [of ss, symmetric] by blast
next
  case (traffic params)
  show ?case
    using endpoint_then [OF traffic_get.endpoint_axioms] checked_traffic form_checks(5) unfolding discard_def by metis
qed

text \<open>
  C38: what the test tooling reports about the bracketed bodies of the client. The operations are those
  with such a body: updates and templates of firewalls, the servers of a vSwitch, and traffic. The
  arguments are arbitrary, but the id of a template that is updated has no slash. Whatever the network
  answers, the fixture gets each request of such an operation as it was sent. If the document has no
  operation for the request, this is the only report. Otherwise the form checks raise no false
  alarm: only an empty list of servers is reported, as such, and all other reports are about the answer
  of the fixture.
\<close>

theorem bracketed_requests_pass:
  assumes "bracketed_call call reps" and "wf_client c" and "call c w = (res, c', w')"
    and "q \<in> set (sent (new_events w w'))" and "carried c q r"
  shows "Seen (Handler kin sniff stops spec inner r) = Some r
    \<and> (case FindRoute kin (SpecRouter spec) r of
         Inl e \<Rightarrow> Reports (Handler kin sniff stops spec inner r) = [NoOperation e]
       | Inr route \<Rightarrow> \<exists>answers. Reports (Handler kin sniff stops spec inner r) = reps @ answers
           \<and> (\<forall>rep \<in> set answers. \<exists>code e. rep = BadResponse code e))"
proof (cases "FindRoute kin (SpecRouter spec) r")
  case (Inr route)
  obtain m path body where ep: "endpoint call m path body" and ok: "checked m path body reps"
    using bracketed_endpoint [OF assms(1)] by blast
  have q: "Method q = m" "ReqURL q = baseURL c @ path" "ReqBody q = body"
    using endpoint.requests [OF ep assms(2,3,4)] by simp_all
  then have r: "HMethod r = m" "PathUnescape path = Inr (HPath r)" "HBody r = Some (body, None)"
    using assms(5) by (simp_all add: carried_def)
  have br: "bracketed_body (HMethod r) (HPath r)" and chk: "body_check schema (HMethod r) (HPath r) body = reps" for schema
    using ok r by (auto simp: checked_def)
  have same: "restored r body = r" using r(3) by (simp add: restored_def)
  have req: "check_request kin route r body = (reps, r)"
    using br chk by (simp add: check_request_def)
  have buf: "buffer_body r = (body, None)" using r(3) by (simp add: buffer_body_def)
  show ?thesis
    by (auto simp: Handler_def Inr buf same req Let_def split_beta split: option.split)
qed (simp add: Handler_def)

theorem bracketed_requests_pass_witness:
  "let w = lab_world [reply 201 [] '''']; run = discard (AddServers 3 [''10.0.0.1'', ''a&b'']) lab_client w;
       r = lab_hreq ''POST'' ''/vswitch/3/server'' ''server[]=10.0.0.1&server[]=a%26b'';
       h = Handler lab_kin id True \<lparr>SpecDoc = (), SpecRouter = ()\<rparr> lab_fixture r;
       run' = discard (AddServers 3 []) lab_client w; r' = lab_hreq ''POST'' ''/vswitch/3/server'' [];
       h' = Handler lab_kin id True \<lparr>SpecDoc = (), SpecRouter = ()\<rparr> lab_fixture r'
   in length (sent (new_events w (snd (snd run)))) = 1 \<and> Seen h = Some r
      \<and> (\<forall>rep \<in> set (Reports h). \<exists>code e. rep = BadResponse code e)
      \<and> length (sent (new_events w (snd (snd run')))) = 1 \<and> Seen h' = Some r' \<and> hd (Reports h') = NoServer"
proof -
  let ?w = "lab_world [reply 201 [] '''']" and ?spec = "\<lparr>SpecDoc = (), SpecRouter = ()\<rparr>"
  let ?ss = "[''10.0.0.1'', ''a&b'']"
  let ?qs = "\<lambda>ss. sent (new_events ?w (snd (snd (discard (AddServers 3 ss) lab_client ?w))))"
  let ?r = "lab_hreq ''POST'' ''/vswitch/3/server'' ''server[]=10.0.0.1&server[]=a%26b''"
    and ?r' = "lab_hreq ''POST'' ''/vswitch/3/server'' []"
  have one: "length (?qs ?ss) = 1" "length (?qs []) = 1" by code_simp+
  then have mem: "hd (?qs ?ss) \<in> set (?qs ?ss)" "hd (?qs []) \<in> set (?qs [])" by (intro hd_in_set; auto)+
  have run: "discard (AddServers 3 ss) lab_client ?w = (fst (discard (AddServers 3 ss) lab_client ?w),
    fst (snd (discard (AddServers 3 ss) lab_client ?w)), snd (snd (discard (AddServers 3 ss) lab_client ?w)))" for ss
    by simp
  have carried: "carried lab_client (hd (?qs ?ss)) ?r" "carried lab_client (hd (?qs [])) ?r'" by code_simp+
  have route: "FindRoute lab_kin (SpecRouter ?spec) r = Inr ()" for r by (simp add: lab_kin_def)
  note given = bracketed_requests_pass [OF vswitch_add lab_client_wf run, where kin = lab_kin and spec = ?spec
    and sniff = id and stops = True and inner = lab_fixture, unfolded route sum.case]
  show ?thesis
    using given [OF mem(1) carried(1)] given [OF mem(2) carried(2)] one unfolding Let_def by auto
qed

end
