(* ===== verification/RateLimits.thy ===== *)
theory RateLimits
  imports ServiceCalls
begin

text \<open>
  The one part of a client that its operations change is the rate limit they last saw, behind a mutex in
  the code. Operations only ever write it: with another rate limit in the client an operation sends,
  waits and returns the very same. So operations that share a client do not talk to each other
  through it, in whatever order they run. The second part says what LastRateLimit is after an exchange.
\<close>

section \<open>Operations that do not look at the rate limit\<close>

text \<open>
  Clients with the same configuration are indistinguishable: the same result and the same world, and the
  clients that remain have the same configuration again.
\<close>

locale oblivious =
  fixes call :: "client \<Rightarrow> world \<Rightarrow> 'a \<times> client \<times> world"
  assumes same_run: "same_config c d \<Longrightarrow> call c w = (r, c', w') \<Longrightarrow> \<exists>d'. call d w = (r, d', w') \<and> same_config c' d'"
begin

lemma other_limit:
  assumes "call c w = (r, c', w')"
  shows "\<exists>d'. call (c\<lparr>rateLimit := l\<rparr>) w = (r, d', w') \<and> same_config c' d'"
  using assms by (intro same_run) (simp_all add: same_config_def)

end

lemma updateRateLimit_same: "same_config c d \<Longrightarrow> same_config (updateRateLimit h t c) (updateRateLimit h t d)"
  by (auto simp: updateRateLimit_def Let_def elim!: same_configE intro!: same_config_def [THEN iffD2])

lemma try_once_same:
  assumes "same_config c d" and "try_once m u b l a c w = (v, c', w')"
  shows "\<exists>d'. try_once m u b l a d w = (v, d', w') \<and> same_config c' d'"
  using assms same_config_fields [OF assms(1)] same_config_build_request [OF assms(1)] updateRateLimit_same [OF assms(1)]
  by (auto simp: try_once_def Let_def split: if_splits sum.splits prod.splits option.splits)

lemma attempt_loop_same:
  assumes "same_config c d" and "attempt_loop m u b l a c w = (r, c', w')"
  shows "\<exists>d'. attempt_loop m u b l a d w = (r, d', w') \<and> same_config c' d'"
  using assms
proof (induction "maxRetries - a" arbitrary: a l c d w)
  case (Suc n)
  then have a: "a < maxRetries" by simp
  obtain v c1 w1 where t: "try_once m u b l a c w = (v, c1, w1)" by (metis prod_cases3)
  with try_once_same [OF Suc.prems(1)] obtain d1 where t': "try_once m u b l a d w = (v, d1, w1)" "same_config c1 d1"
    by blast
  show ?case
  proof (cases v)
    case (Stop r')
    with Suc.prems(2) a t t' show ?thesis
      by (simp add: attempt_loop_unfold [of _ _ _ _ _ c] attempt_loop_unfold [of _ _ _ _ _ d])
  next
    case (Again l')
    with Suc.prems(2) a t have "attempt_loop m u b l' (Suc a) c1 w1 = (r, c', w')"
      by (simp add: attempt_loop_unfold [of _ _ _ _ _ c])
    moreover have "n = maxRetries - Suc a" using Suc.hyps(2) by simp
    ultimately obtain d' where "attempt_loop m u b l' (Suc a) d1 w1 = (r, d', w')" "same_config c' d'"
      using Suc.hyps(1) t'(2) by blast
    with Again a t' show ?thesis by (simp add: attempt_loop_unfold [of _ _ _ _ _ d])
  qed
qed (simp add: attempt_loop_unfold)

lemma doRequest_same:
  assumes "same_config c d" and "doRequest c w m path body = (r, c', w')"
  shows "\<exists>d'. doRequest d w m path body = (r, d', w') \<and> same_config c' d'"
  using assms same_config_fields [OF assms(1)]
  by (auto simp: doRequest_def split: option.splits sum.splits dest: attempt_loop_same [OF assms(1)])

lemma handleResponse_same:
  assumes "same_config c d" and "handleResponse c w resp v = (r, c', w')"
  shows "\<exists>d'. handleResponse d w resp v = (r, d', w') \<and> same_config c' d'"
  using assms same_config_fields [OF assms(1)]
  by (auto simp: handleResponse_def Let_def split: sum.splits if_splits option.splits result.splits)

text \<open>The request methods, and how calls are put together.\<close>

lemma oblivious_exchange: "oblivious (\<lambda>c w. finish (doRequest c w m path body) v)"
proof
  fix c d :: client and w r c' w'
  assume cd: "same_config c d" and run: "finish (doRequest c w m path body) v = (r, c', w')"
  obtain p e c1 w1 where req: "doRequest c w m path body = ((p, e), c1, w1)" by (metis prod.exhaust)
  from doRequest_same [OF cd req] obtain d1 where "doRequest d w m path body = ((p, e), d1, w1)" "same_config c1 d1"
    by blast
  with run req show "\<exists>d'. finish (doRequest d w m path body) v = (r, d', w') \<and> same_config c' d'"
    by (cases e; cases p) (auto simp: finish_def dest: handleResponse_same)
qed

lemma oblivious_local: "oblivious (\<lambda>c w. (r, c, w))"
  by unfold_locales auto

lemma oblivious_seq:
  assumes "oblivious f" and "\<And>x. oblivious (g x)"
  shows "oblivious (seq_call f g)"
proof
  fix c d :: client and w r c' w'
  assume cd: "same_config c d" and run: "seq_call f g c w = (r, c', w')"
  obtain r1 c1 w1 where f: "f c w = (r1, c1, w1)" by (metis prod_cases3)
  from oblivious.same_run [OF assms(1) cd f] obtain d1 where d: "f d w = (r1, d1, w1)" "same_config c1 d1" by blast
  show "\<exists>d'. seq_call f g d w = (r, d', w') \<and> same_config c' d'"
    using run f d oblivious.same_run [OF assms(2) d(2)] by (cases r1) (auto simp: seq_call_def)
qed

lemma oblivious_checked:
  assumes "oblivious f" and "\<And>c d. same_config c d \<Longrightarrow> g d = g c"
  shows "oblivious (\<lambda>c w. case g c of Some err \<Rightarrow> (Err err, c, w) | None \<Rightarrow> f c w)"
proof
  fix c d :: client and w r c' w'
  assume cd: "same_config c d" and run: "(case g c of Some err \<Rightarrow> (Err err, c, w) | None \<Rightarrow> f c w) = (r, c', w')"
  then show "\<exists>d'. (case g d of Some err \<Rightarrow> (Err err, d, w) | None \<Rightarrow> f d w) = (r, d', w') \<and> same_config c' d'"
    using assms(2) [OF cd] oblivious.same_run [OF assms(1) cd] by (cases "g c") auto
qed

lemma oblivious_guarded: "oblivious f \<Longrightarrow> oblivious (guarded check f)"
  unfolding guarded_def by (cases check) (simp_all add: oblivious_local)

lemma oblivious_then: "oblivious f \<Longrightarrow> oblivious (then_local f g)"
  unfolding then_local_def by (intro oblivious_seq oblivious_local)

lemma wait_loop_same:
  assumes "oblivious cond" and "same_config c d" and "wait_loop n delay cond c w = (r, c', w')"
  shows "\<exists>d'. wait_loop n delay cond d w = (r, d', w') \<and> same_config c' d'"
  using assms(2,3)
proof (induction n arbitrary: delay c d w)
  case (Suc n)
  obtain r1 c1 w1 where f: "cond c w = (r1, c1, w1)" by (metis prod_cases3)
  from oblivious.same_run [OF assms(1) Suc.prems(1) f] obtain d1 where d: "cond d w = (r1, d1, w1)" "same_config c1 d1"
    by blast
  with Suc f show ?case
    by (auto split: if_splits result.splits prod.splits bool.splits)
qed auto

lemma oblivious_wait: "oblivious cond \<Longrightarrow> oblivious (waitForCondition cond)"
  by unfold_locales (auto simp: waitForCondition_def dest: wait_loop_same)

lemmas client_methods =
  client_Get_def client_Post_def client_PostRaw_def client_DeleteRaw_def client_Put_def client_Delete_def
  client_DeleteWithBody_def

lemmas oblivious_intros =
  oblivious_exchange oblivious_guarded oblivious_then oblivious_seq oblivious_wait oblivious_local oblivious_checked

lemmas operation_defs =
  fw_Get_def fw_Update_def fw_Delete_def ListTemplates_def GetTemplate_def CreateTemplate_def UpdateTemplate_def
  DeleteTemplate_def ApplyTemplate_def setStatus_def WaitForFirewallReady_def firewall_ready_def
  WaitForVSwitchReady_def vswitch_ready_def CancelIP_def subnet_Cancel_def RequestCancellation_def
  sb_List_def sb_Get_def sb_Update_def sb_ResetPassword_def ListSnapshots_def CreateSnapshot_def
  DeleteSnapshot_def RestoreSnapshot_def SetSnapshotComment_def GetSnapshotPlan_def SetSnapshotPlan_def
  ListSubAccounts_def CreateSubAccount_def UpdateSubAccount_def DeleteSubAccount_def ResetSubAccountPassword_def
  key_List_def key_Get_def key_Create_def key_Rename_def key_Delete_def
  rdns_List_def rdns_Get_def rdns_Create_def rdns_Update_def rdns_Delete_def
  failover_List_def failover_Get_def failover_Update_def failover_Delete_def
  ip_List_def ip_Get_def SetTrafficWarnings_def WithdrawIPCancellation_def ip_GetMAC_def ip_SetMAC_def ip_DeleteMAC_def
  traffic_Get_def vs_List_def vs_Get_def vs_Create_def vs_Update_def vs_Delete_def AddServers_def RemoveServers_def
  subnet_List_def subnet_Get_def subnet_Update_def subnet_GetMAC_def subnet_SetMAC_def subnet_DeleteMAC_def
  subnet_GetCancellation_def subnet_WithdrawCancellation_def
  srv_List_def srv_Get_def SetName_def WithdrawCancellation_def reset_List_def reset_Get_def Execute_def
  wol_Send_def wol_Get_def boot_Get_def ActivateRescue_def DeactivateRescue_def GetLastRescue_def
  ActivateLinux_def DeactivateLinux_def GetLastLinux_def ActivateVNC_def DeactivateVNC_def
  GetWindows_def ActivateWindows_def DeactivateWindows_def

lemma ValidateRules_same: "same_config c d \<Longrightarrow> ValidateRules d rules = ValidateRules c rules"
  by (simp add: ValidateRules_def same_config_fields)

lemma service_oblivious: "service_call n call \<Longrightarrow> oblivious call"
  by (induction rule: service_call.induct)
    (unfold discard_def operation_defs client_methods, (intro oblivious_intros; (erule ValidateRules_same)?)+)

lemma session_oblivious:
  "session c w c' w' k \<Longrightarrow> same_config c d \<Longrightarrow> \<exists>d'. session d w d' w' k \<and> same_config c' d'"
proof (induction rule: session.induct)
  case start
  then show ?case using session.start by blast
next
  case (step c1 w1 k n call r c2 w2)
  then obtain d1 where d1: "session d w d1 w1 k" "same_config c1 d1" by blast
  from oblivious.same_run [OF service_oblivious [OF step.hyps(2)] d1(2) step.hyps(3)] obtain d2 where
    "call d1 w1 = (r, d2, w2)" "same_config c2 d2" by blast
  with session.step [OF d1(1) step.hyps(2)] show ?case by blast
qed

text \<open>
  C9: nothing depends on the rate limit a client has stored. If it starts with any other one, a program
  can run the same session on it with the same requests, waits and answers, and whatever operation it
  calls next gives the same result and leaves the same world. So operations that share a client
  affect one another only through the network and the clock, never through the client.
\<close>

theorem rate_limit_unobserved:
  assumes "session c w c1 w1 k" and "service_call n call" and "call c1 w1 = (r, c', w')"
  shows "\<exists>d1 d'. session (c\<lparr>rateLimit := l\<rparr>) w d1 w1 k \<and> call d1 w1 = (r, d', w') \<and> same_config c' d'"
proof -
  have "same_config c (c\<lparr>rateLimit := l\<rparr>)" by (simp add: same_config_def)
  from session_oblivious [OF assms(1) this] obtain d1 where d1: "session (c\<lparr>rateLimit := l\<rparr>) w d1 w1 k" "same_config c1 d1"
    by blast
  with oblivious.same_run [OF service_oblivious [OF assms(2)] d1(2) assms(3)] show ?thesis by blast
qed

theorem rate_limit_unobserved_witness:
  "let w = lab_world [reply 404 [] '''']; (r, c', w') = discard (key_Delete ''aa:bb'') lab_client w
   in length (sent (new_events w w')) = 1 \<and>
      (\<exists>d1 d'. session (lab_client\<lparr>rateLimit := \<lparr>Limit = 7, Remaining = 0, Reset = None\<rparr>\<rparr>) w d1 w 0
        \<and> discard (key_Delete ''aa:bb'') d1 w = (r, d', w'))"
proof -
  let ?w = "lab_world [reply 404 [] '''']" and ?call = "discard (key_Delete ''aa:bb'')"
  let ?run = "?call lab_client ?w"
  have run: "?run = (fst ?run, fst (snd ?run), snd (snd ?run))" by simp
  have "length (sent (new_events ?w (snd (snd ?run)))) = 1" by code_simp
  with rate_limit_unobserved [OF session.start service_call.key_delete run, of "\<lparr>Limit = 7, Remaining = 0, Reset = None\<rparr>"]
  show ?thesis unfolding Let_def split_beta by blast
qed

section \<open>The rate limit after an exchange\<close>

lemma try_once_answered:
  "try_once m u b l a c w = (Stop (Some resp, e), c', w') \<Longrightarrow>
    c' = updateRateLimit (RespHeader resp) (clock w') c"
  by (auto simp: try_once_def Let_def split: if_splits sum.splits prod.splits option.splits)

lemma attempt_loop_answered:
  "attempt_loop m u b l a c w = ((Some resp, e), c', w') \<Longrightarrow>
    \<exists>c0. c' = updateRateLimit (RespHeader resp) (clock w') c0"
proof (induction "maxRetries - a" arbitrary: a l c w)
  case (Suc n)
  then have a: "a < maxRetries" "n = maxRetries - Suc a" by simp_all
  obtain v c1 w1 where t: "try_once m u b l a c w = (v, c1, w1)" by (metis prod_cases3)
  show ?case
  proof (cases v)
    case (Stop r')
    with Suc.prems a t show ?thesis
      by (auto simp: attempt_loop_unfold [of _ _ _ _ a] dest: try_once_answered)
  next
    case (Again l')
    with Suc.prems a t have "attempt_loop m u b l' (Suc a) c1 w1 = ((Some resp, e), c', w')"
      by (simp add: attempt_loop_unfold [of _ _ _ _ a])
    with Suc.hyps(1) [OF a(2)] show ?thesis by blast
  qed
qed (simp add: attempt_loop_unfold)

lemma doRequest_answered:
  "doRequest c w m path body = ((Some resp, e), c', w') \<Longrightarrow>
    \<exists>c0. c' = updateRateLimit (RespHeader resp) (clock w') c0"
  by (auto simp: doRequest_def split: option.splits sum.splits dest: attempt_loop_answered)

lemma time_Unix_exact: "0 \<le> s \<Longrightarrow> s \<le> MaxInt64 - unixToInternal \<Longrightarrow> time_Unix s = s * Second"
  unfolding time_Unix_def by (subst wrap64_id) (auto simp: in_int64_def MinInt64_def MaxInt64_def unixToInternal_def)

lemma time_Unix_wraps: "MaxInt64 - unixToInternal < s \<Longrightarrow> s \<le> MaxInt64 \<Longrightarrow> time_Unix s = (s - 2 ^ 64) * Second"
proof -
  assume "MaxInt64 - unixToInternal < s" "s \<le> MaxInt64"
  then have "wrap64 (s + unixToInternal) = s + unixToInternal - 2 ^ 64"
    using wrap64_above [of "s + unixToInternal"] by (simp add: MaxInt64_def unixToInternal_def)
  then show ?thesis by (simp add: time_Unix_def)
qed

text \<open>
  C33: LastRateLimit tells what the last answer said. After an exchange that ended with a response
  whose three headers hold decimal numbers of int64, the reset not negative, it holds these very
  numbers; earlier attempts of the exchange leave no trace. The reset is the instant that many seconds
  after the answer when the number is below 10 ^ 9, and that Unix time otherwise, unless the number is
  so large that time.Unix overflows (above MaxInt64 - 62135596800): then it is that Unix time less
  2 ^ 64 seconds, an instant in the past.
\<close>

theorem LastRateLimit_of_response:
  assumes "doRequest c w m path body = ((Some resp, e), c', w')"
    and "header_Get (RespHeader resp) ''RateLimit-Limit'' = Itoa l" "in_int64 l"
    and "header_Get (RespHeader resp) ''RateLimit-Remaining'' = Itoa n" "in_int64 n"
    and "header_Get (RespHeader resp) ''RateLimit-Reset'' = Itoa s" "in_int64 s" "0 \<le> s"
  shows "LastRateLimit c' = \<lparr>Limit = l, Remaining = n,
    Reset = Some (if s < 1000000000 then clock w' + s * Second
                  else if s \<le> MaxInt64 - 62135596800 then s * Second
                  else (s - 2 ^ 64) * Second)\<rparr>"
proof -
  obtain c0 where c': "c' = updateRateLimit (RespHeader resp) (clock w') c0"
    using doRequest_answered [OF assms(1)] by blast
  have "Itoa i \<noteq> []" for i by (simp add: Itoa_def)
  then have "atoi_header (RespHeader resp) ''RateLimit-Limit'' = Some l"
    "atoi_header (RespHeader resp) ''RateLimit-Remaining'' = Some n"
    "atoi_header (RespHeader resp) ''RateLimit-Reset'' = Some s"
    using assms by (simp_all add: atoi_header_def Atoi_Itoa)
  moreover have "s < 1000000000 \<Longrightarrow> wrap64 (s * Second) = s * Second"
    using assms(8) by (intro wrap64_id) (simp add: in_int64_def MinInt64_def MaxInt64_def Second_def)
  moreover have "time_Unix s = (if s \<le> MaxInt64 - 62135596800 then s * Second else (s - 2 ^ 64) * Second)"
    using assms(7,8) time_Unix_exact [of s] time_Unix_wraps [of s]
    by (simp add: in_int64_def unixToInternal_def)
  ultimately show ?thesis by (simp add: c' updateRateLimit_def LastRateLimit_def Let_def)
qed

theorem LastRateLimit_of_response_witness:
  "let h = (\<lambda>r. [(''Ratelimit-Limit'', [''200'']), (''Ratelimit-Remaining'', [r]), (''Ratelimit-Reset'', [''3600''])]);
       w = lab_world [reply 500 (h ''0'') '''', reply 200 (h ''199'') ''{}''];
       (r, c', w') = doRequest lab_client w ''GET'' ''/server'' None
   in LastRateLimit c' = \<lparr>Limit = 200, Remaining = 199, Reset = Some (clock w' + 3600 * Second)\<rparr>"
proof -
  let ?h = "\<lambda>r. [(''Ratelimit-Limit'', [''200'']), (''Ratelimit-Remaining'', [r]), (''Ratelimit-Reset'', [''3600''])]"
  let ?run = "doRequest lab_client (lab_world [reply 500 (?h ''0'') '''', reply 200 (?h ''199'') ''{}'']) ''GET'' ''/server'' None"
  let ?resp = "\<lparr>StatusCode = 200, RespHeader = ?h ''199'', RespBody = (''{}'', None)\<rparr>"
  have "fst ?run = (Some ?resp, None)" by code_simp
  then have run: "?run = ((Some ?resp, None), fst (snd ?run), snd (snd ?run))" by (metis prod.collapse)
  have "header_Get (RespHeader ?resp) ''RateLimit-Limit'' = Itoa 200"
    "header_Get (RespHeader ?resp) ''RateLimit-Remaining'' = Itoa 199"
    "header_Get (RespHeader ?resp) ''RateLimit-Reset'' = Itoa 3600" by code_simp+
  from LastRateLimit_of_response [OF run this(1) _ this(2) _ this(3)]
  show ?thesis by (simp add: in_int64_def MinInt64_def MaxInt64_def Let_def split_beta)
qed

text \<open>An answer without these headers leaves what an earlier answer said.\<close>

lemma stale_rate_limit:
  "atoi_header h ''RateLimit-Limit'' = None \<Longrightarrow> atoi_header h ''RateLimit-Remaining'' = None \<Longrightarrow>
   atoi_header h ''RateLimit-Reset'' = None \<Longrightarrow> LastRateLimit (updateRateLimit h t c) = LastRateLimit c"
  by (simp add: updateRateLimit_def LastRateLimit_def Let_def)

end
