(* ===== verification/Reads.thy ===== *)
theory Reads
  imports ServiceCalls
begin

text \<open>
  The operations that only read. The locale read_call is their contract: whatever the network answers,
  every request is a GET without a body. It is closed under work on the result and under polling, every
  endpoint with the method GET satisfies it, and so a program that only reads never asks the
  service to change anything.
\<close>

definition read_request :: "request \<Rightarrow> bool" where
  "read_request q \<longleftrightarrow> Method q = ''GET'' \<and> ReqBody q = [] \<and> ContentType q = None"

locale read_call =
  fixes call :: "client \<Rightarrow> world \<Rightarrow> 'a result \<times> client \<times> world"
  assumes reads: "wf_client c \<Longrightarrow> call c w = (r, c', w') \<Longrightarrow>
    same_config c c' \<and> (\<exists>es. extends w w' es \<and> list_all read_request (sent es))"
begin

lemma only_reads:
  assumes "wf_client c" and "call c w = (r, c', w')"
  shows "list_all read_request (sent (new_events w w'))"
  using reads [OF assms] by (auto dest: extends_new_events)

end

lemma read_endpoint: "endpoint call MethodGet path [] \<Longrightarrow> read_call call"
proof
  fix c w r c' w'
  assume "endpoint call MethodGet path []" and "wf_client c" and "call c w = (r, c', w')"
  from endpoint.exchange [OF this] obtain es where
    "same_config c c'" "extends w w' es" "set (sent es) \<subseteq> {build_request c MethodGet (baseURL c @ path) []}"
    by blast
  moreover from this(3) have "list_all read_request (sent es)"
    by (auto simp: list_all_iff read_request_def build_request_def)
  ultimately show "same_config c c' \<and> (\<exists>es. extends w w' es \<and> list_all read_request (sent es))"
    by blast
qed

lemma read_then: "read_call call \<Longrightarrow> read_call (then_local call f)"
  by (auto simp: read_call_def then_local_iff)

lemma read_discard: "read_call call \<Longrightarrow> read_call (discard call)"
  unfolding discard_def by (rule read_then)

lemma wait_loop_read:
  assumes cond: "read_call cond" and "wf_client c" and "wait_loop n delay cond c w = (r, c', w')"
  shows "same_config c c' \<and> (\<exists>es. extends w w' es \<and> list_all read_request (sent es))"
  using assms(2,3)
proof (induction n arbitrary: delay c w)
  case (Suc n)
  obtain x c1 w1 where run: "cond c w = (x, c1, w1)" by (metis prod_cases3)
  from read_call.reads [OF cond Suc.prems(1) run] obtain es where
    one: "same_config c c1" "extends w w1 es" "list_all read_request (sent es)" by blast
  consider "ctx_done w" | "\<not> ctx_done w" "x \<noteq> Ok False" | "\<not> ctx_done w" "x = Ok False" by blast
  then show ?case
  proof cases
    case 1
    with Suc.prems(2) show ?thesis by (auto intro: exI [of _ "[]"])
  next
    case 2
    with Suc.prems(2) run one show ?thesis by (auto split: if_splits result.splits)
  next
    case 3
    obtain b w2 where t: "wait_timer delay w1 = (b, w2)" by force
    note two = extends_trans [OF one(2) extends_wait_timer [OF t]]
    show ?thesis
    proof (cases b)
      case True
      with Suc.prems(2) 3 run t have "wait_loop n (next_delay delay) cond c1 w2 = (r, c', w')" by simp
      from Suc.IH [OF same_config_wf [OF one(1) Suc.prems(1)] this] obtain es' where
        "same_config c1 c'" "extends w2 w' es'" "list_all read_request (sent es')" by blast
      with one same_config_trans [OF one(1)] extends_trans [OF two]
      show ?thesis by (intro conjI exI [of _ "(es @ [ESleep delay]) @ es'"]) auto
    next
      case b: False
      with Suc.prems(2) 3 run t one two show ?thesis
        by (auto intro!: exI [of _ "es @ [ESleep delay]"])
    qed
  qed
qed (auto intro: exI [of _ "[]"])

lemma read_wait: "read_call cond \<Longrightarrow> read_call (waitForCondition cond)"
  by unfold_locales (auto simp: waitForCondition_def dest: wait_loop_read)

section \<open>The reading operations\<close>

inductive reading :: "unit call \<Rightarrow> bool" where
  firewall_get: "reading (discard (fw_Get i))"
| templates: "reading (discard ListTemplates)"
| template_get: "reading (discard (GetTemplate s))"
| firewall_wait: "reading (WaitForFirewallReady i)"
| vswitch_wait: "reading (WaitForVSwitchReady i)"
| box_list: "reading (discard sb_List)"
| box_get: "reading (discard (sb_Get i))"
| snapshots: "reading (discard (ListSnapshots i))"
| plan_get: "reading (discard (GetSnapshotPlan i))"
| accounts: "reading (discard (ListSubAccounts i))"
| key_list: "reading (discard key_List)"
| key_get: "reading (discard (key_Get s))"
| rdns_list: "reading (discard (rdns_List s))"
| rdns_get: "reading (discard (rdns_Get s))"
| failover_list: "reading (discard failover_List)"
| failover_get: "reading (discard (failover_Get s))"
| ip_list: "reading (discard ip_List)"
| ip_get: "reading (discard (ip_Get ip))"
| ip_get_mac: "reading (discard (ip_GetMAC ip))"
| vswitches: "reading (discard vs_List)"
| vswitch_get: "reading (discard (vs_Get i))"
| subnets: "reading (discard subnet_List)"
| subnet_get: "reading (discard (subnet_Get s))"
| subnet_get_mac: "reading (discard (subnet_GetMAC s))"
| subnet_get_cancellation: "reading (discard (subnet_GetCancellation s))"
| server_list: "reading (discard srv_List)"
| server_get: "reading (discard (srv_Get i))"
| resets: "reading (discard reset_List)"
| reset_get: "reading (discard (reset_Get i))"
| wol_get: "reading (discard (wol_Get i))"
| boot: "reading (discard (boot_Get i))"
| rescue_last: "reading (discard (GetLastRescue i))"
| linux_last: "reading (discard (GetLastLinux i))"
| windows: "reading (discard (GetWindows i))"

interpretation fw_wait_reads: read_call "WaitForFirewallReady i" for i
  unfolding WaitForFirewallReady_def firewall_ready_read
  by (rule read_wait [OF read_then [OF read_endpoint [OF get_at.endpoint_axioms]]])

interpretation vs_wait_reads: read_call "WaitForVSwitchReady i" for i
  unfolding WaitForVSwitchReady_def
  by (rule read_wait [OF read_endpoint [OF vs_ready.endpoint_axioms]])

lemma firewall_reads:
  "endpoint (fw_Get i) MethodGet (server_path i) []"
  "endpoint ListTemplates MethodGet ''/firewall/template'' []"
  "endpoint (GetTemplate s) MethodGet (template_path s) []"
  unfolding fw_Get_def ListTemplates_def GetTemplate_def by (rule get_at.endpoint_axioms)+

lemmas get_endpoints =
  firewall_reads sb_list.endpoint_axioms sb_get.endpoint_axioms snapshot_list.endpoint_axioms
  plan_get.endpoint_axioms sub_list.endpoint_axioms key_list.endpoint_axioms key_get.endpoint_axioms
  rdns_list.endpoint_axioms rdns_get.endpoint_axioms failover_list.endpoint_axioms
  failover_get.endpoint_axioms ip_list.endpoint_axioms ip_get.endpoint_axioms ip_get_mac.endpoint_axioms
  vs_list.endpoint_axioms vs_get.endpoint_axioms subnet_list.endpoint_axioms subnet_get.endpoint_axioms
  subnet_get_mac.endpoint_axioms subnet_get_cancellation.endpoint_axioms srv_list.endpoint_axioms
  srv_get.endpoint_axioms reset_list.endpoint_axioms reset_get.endpoint_axioms wol_get.endpoint_axioms
  boot_get.endpoint_axioms rescue_last.endpoint_axioms linux_last.endpoint_axioms windows_get.endpoint_axioms

lemma reading_contract: "reading call \<Longrightarrow> read_call call"
  by (induction rule: reading.induct)
    (rule fw_wait_reads.read_call_axioms vs_wait_reads.read_call_axioms
      get_endpoints [THEN read_endpoint, THEN read_discard])+

text \<open>A program that only reads, with the reads in any order and number.\<close>

inductive reading_session :: "client \<Rightarrow> world \<Rightarrow> client \<Rightarrow> world \<Rightarrow> bool" for c w where
  start: "reading_session c w c w"
| read: "reading_session c w c1 w1 \<Longrightarrow> reading call \<Longrightarrow> call c1 w1 = (r, c2, w2) \<Longrightarrow> reading_session c w c2 w2"

lemma reading_session_events:
  "reading_session c w c' w' \<Longrightarrow> wf_client c \<Longrightarrow>
   same_config c c' \<and> (\<exists>es. extends w w' es \<and> list_all read_request (sent es))"
proof (induction rule: reading_session.induct)
  case start
  then show ?case by (auto intro: exI [of _ "[]"])
next
  case (read c1 w1 call r c2 w2)
  then obtain es where one: "same_config c c1" "extends w w1 es" "list_all read_request (sent es)" by blast
  from read_call.reads [OF reading_contract [OF read.hyps(2)] same_config_wf [OF one(1) read.prems] read.hyps(3)]
  obtain es' where "same_config c1 c2" "extends w1 w2 es'" "list_all read_request (sent es')" by blast
  with one same_config_trans [OF one(1)] extends_trans [OF one(2)] show ?case
    by (intro conjI exI [of _ "es @ es'"]) auto
qed

text \<open>
  C34: reading is free of effects on the account. A program that runs any number of the 34 reading
  operations, the two that wait included, on a well formed client sends only GET requests without
  a body, whatever the network answers to each, and keeps the configuration of the client.
\<close>

theorem reads_only_get:
  assumes "wf_client c" and "reading_session c w c' w'"
  shows "(\<forall>q \<in> set (sent (new_events w w')). Method q = ''GET'' \<and> ReqBody q = [] \<and> ContentType q = None)
    \<and> same_config c c'"
  using reading_session_events [OF assms(2,1)]
  by (auto simp: list_all_iff read_request_def dest!: extends_new_events)

theorem reads_only_get_witness:
  "let w = lab_world [reply 500 [] '''', reply 200 [] ''[]'', reply 404 [] '''']; (r, c1, w1) = discard srv_List lab_client w;
       (r2, c2, w2) = discard (key_Get ''aa:bb'') c1 w1
   in length (sent (new_events w w2)) = 3 \<and> (\<forall>q \<in> set (sent (new_events w w2)). Method q = ''GET'' \<and> ReqBody q = [])"
proof -
  let ?w = "lab_world [reply 500 [] '''', reply 200 [] ''[]'', reply 404 [] '''']"
  let ?one = "discard srv_List lab_client ?w"
  let ?two = "discard (key_Get ''aa:bb'') (fst (snd ?one)) (snd (snd ?one))"
  have "reading_session lab_client ?w (fst (snd ?one)) (snd (snd ?one))"
    by (rule reading_session.read [OF reading_session.start reading.server_list, of _ _ "fst ?one"]) simp
  then have "reading_session lab_client ?w (fst (snd ?two)) (snd (snd ?two))"
    by (rule reading_session.read [OF _ reading.key_get, of _ _ _ _ _ "fst ?two"]) simp
  note reads_only_get [OF lab_client_wf this]
  moreover have "length (sent (new_events ?w (snd (snd ?two)))) = 3" by code_simp
  ultimately show ?thesis by (simp add: Let_def split_beta)
qed

end
