(* ===== verification/Prices.thy ===== *)
theory Prices
  imports GoFloat
begin

text \<open>
  StringFloat of types.go, the amounts of money that the API writes as strings, and the price types
  built from it. The text of a string goes through strconv.ParseFloat in full: signs, decimal and
  hexadecimal literals, underscores between digits, infinities and not-a-number.
  MarshalJSON yields a JSON value; its text is left to encoding/json.
\<close>

section \<open>Values and literals\<close>

datatype go_float = Finite float64 | Infinite bool | NaN

definition lower_char :: "char \<Rightarrow> char" where
  "lower_char c = (if in_range 65 c 90 then char_of (byte c + 32) else c)"

definition base_val :: "bool \<Rightarrow> char \<Rightarrow> nat option" where
  "base_val hex c = (if hex then hex_val c else digit_val c)"

definition base_value :: "bool \<Rightarrow> string \<Rightarrow> nat" where
  "base_value hex s =
     foldl (\<lambda>n c. n * (if hex then 16 else 10) + (case base_val hex c of Some d \<Rightarrow> d | None \<Rightarrow> 0)) 0 s"

definition split_sign :: "string \<Rightarrow> bool \<times> string" where
  "split_sign s =
     (case s of
        [] \<Rightarrow> (False, [])
      | c # r \<Rightarrow> if c = CHR ''-'' then (True, r) else if c = CHR ''+'' then (False, r) else (False, s))"

text \<open>special: the names of the infinities, which may have a sign, and nan, which may not.\<close>

definition special :: "string \<Rightarrow> go_float option" where
  "special s =
     (let (neg, r) = split_sign s
      in if map lower_char r = ''inf'' \<or> map lower_char r = ''infinity'' then Some (Infinite neg)
         else if map lower_char s = ''nan'' then Some NaN
         else None)"

text \<open>
  underscoreOK: an underscore stands between two digits, where the prefix of a base counts as a digit.
  The state is the kind of the last character, as in the code.
\<close>

datatype last_char = AtStart | AfterDigit | AfterUnderscore | AfterOther

fun underscore_loop :: "bool \<Rightarrow> last_char \<Rightarrow> string \<Rightarrow> bool" where
  "underscore_loop hex st [] \<longleftrightarrow> st \<noteq> AfterUnderscore"
| "underscore_loop hex st (c # cs) \<longleftrightarrow>
     (if base_val hex c \<noteq> None then underscore_loop hex AfterDigit cs
      else if c = CHR ''_'' then st = AfterDigit \<and> underscore_loop hex AfterUnderscore cs
      else st \<noteq> AfterUnderscore \<and> underscore_loop hex AfterOther cs)"

definition underscoreOK :: "string \<Rightarrow> bool" where
  "underscoreOK s =
     (let r = snd (split_sign s)
      in if length r \<ge> 2 \<and> r ! 0 = CHR ''0'' \<and> lower_char (r ! 1) \<in> {CHR ''b'', CHR ''o'', CHR ''x''}
         then underscore_loop (lower_char (r ! 1) = CHR ''x'') AfterDigit (drop 2 r)
         else underscore_loop False AtStart r)"

text \<open>The exponent of a literal: a letter, an optional sign and at least one digit; nothing may follow.\<close>

definition read_exponent :: "bool \<Rightarrow> string \<Rightarrow> int option" where
  "read_exponent hex s =
     (case s of
        [] \<Rightarrow> if hex then None else Some 0
      | c # r \<Rightarrow>
         (let (neg, ds) = split_sign r
          in if lower_char c = (if hex then CHR ''p'' else CHR ''e'') \<and> ds \<noteq> [] \<and> digit_val (hd ds) \<noteq> None
               \<and> list_all (\<lambda>x. digit_val x \<noteq> None \<or> x = CHR ''_'') ds
             then (let n = int (digits_value (filter (\<lambda>x. x \<noteq> CHR ''_'') ds)) in Some (if neg then - n else n))
             else None))"

text \<open>readFloat: the sign, whether the base is 16, the digits before and after the point, the exponent.\<close>

definition readFloat :: "string \<Rightarrow> (bool \<times> bool \<times> string \<times> string \<times> int) option" where
  "readFloat s =
     (let (neg, r) = split_sign s;
          hex = (length r > 2 \<and> r ! 0 = CHR ''0'' \<and> lower_char (r ! 1) = CHR ''x'');
          body = (if hex then drop 2 r else r);
          mant = (\<lambda>c. base_val hex c \<noteq> None \<or> c = CHR ''_'');
          whole = takeWhile mant body;
          r1 = dropWhile mant body;
          frac = (if HasPrefix r1 ''.'' then takeWhile mant (drop 1 r1) else []);
          r2 = (if HasPrefix r1 ''.'' then dropWhile mant (drop 1 r1) else r1);
          digits = filter (\<lambda>c. c \<noteq> CHR ''_'')
      in if digits (whole @ frac) = [] then None
         else (case read_exponent hex r2 of
                 None \<Rightarrow> None
               | Some e \<Rightarrow>
                  if CHR ''_'' \<in> set s \<and> \<not> underscoreOK s then None
                  else Some (neg, hex, digits whole, digits frac, e)))"

text \<open>The value of a literal; None is a syntax error or a value out of range.\<close>

definition ratio_power :: "bool \<Rightarrow> nat \<Rightarrow> nat \<Rightarrow> int \<Rightarrow> float64 option" where
  "ratio_power neg n base k =
     (if k \<ge> 0 then round_ratio neg (n * base ^ nat k) 1 else round_ratio neg n (base ^ nat (- k)))"

definition ParseFloat_text :: "string \<Rightarrow> go_float option" where
  "ParseFloat_text s =
     (case special s of
        Some f \<Rightarrow> Some f
      | None \<Rightarrow>
         (case readFloat s of
            None \<Rightarrow> None
          | Some (neg, hex, whole, frac, e) \<Rightarrow>
             map_option Finite
               (if hex then ratio_power neg (base_value True (whole @ frac)) 2 (e - 4 * int (length frac))
                else ratio_power neg (base_value False (whole @ frac)) 10 (e - int (length frac)))))"

section \<open>StringFloat\<close>

type_synonym StringFloat = go_float

definition zero_StringFloat :: StringFloat where
  "zero_StringFloat = Finite zero_float64"

fun dec_StringFloat :: "StringFloat decoder" where
  "dec_StringFloat JNull x = Ok zero_StringFloat"
| "dec_StringFloat (JStr str) x =
     (if str = [] then Ok zero_StringFloat
      else (case ParseFloat_text str of
              Some f \<Rightarrow> Ok f
            | None \<Rightarrow> Err (ErrorString (''invalid float string: '' @ str))))"
| "dec_StringFloat (JNum n) x = (case ParseFloat n of Some f \<Rightarrow> Ok (Finite f) | None \<Rightarrow> Err type_error)"
| "dec_StringFloat _ x = Err type_error"

text \<open>The verb .4f.\<close>

definition pad4 :: "nat \<Rightarrow> string" where
  "pad4 n = map digit_char [n div 1000, n div 100 mod 10, n div 10 mod 10, n mod 10]"

definition fixed4 :: "bool \<Rightarrow> nat \<Rightarrow> string" where
  "fixed4 neg n = (if neg then ''-'' else []) @ dec_of_nat (n div 10000) @ CHR ''.'' # pad4 (n mod 10000)"

definition four_decimals :: "float64 \<Rightarrow> string" where
  "four_decimals f =
     (let (a, b) = (if Exponent f \<ge> 0 then (Mantissa f * 2 ^ nat (Exponent f), 1)
                    else (Mantissa f, 2 ^ nat (- Exponent f)))
      in fixed4 (Negative f) (half_even (10000 * a) b))"

fun StringFloat_MarshalJSON :: "StringFloat \<Rightarrow> json" where
  "StringFloat_MarshalJSON (Finite f) = JStr (four_decimals f)"
| "StringFloat_MarshalJSON (Infinite neg) = JStr (if neg then ''-Inf'' else ''+Inf'')"
| "StringFloat_MarshalJSON NaN = JStr ''NaN''"

definition Float64 :: "StringFloat \<Rightarrow> go_float" where
  "Float64 sf = sf"

section \<open>Prices\<close>

record PriceDetail =
  Net :: StringFloat
  Gross :: StringFloat
  HourlyNet :: StringFloat
  HourlyGross :: StringFloat

record AddonPrice =
  PriceLocation :: string
  Price :: PriceDetail
  PriceSetup :: PriceDetail

definition dec_PriceDetail :: "PriceDetail decoder" where
  "dec_PriceDetail = dec_struct
     [fld ''net'' dec_StringFloat Net Net_update,
      fld ''gross'' dec_StringFloat Gross Gross_update,
      fld ''hourly_net'' dec_StringFloat HourlyNet HourlyNet_update,
      fld ''hourly_gross'' dec_StringFloat HourlyGross HourlyGross_update]"

definition dec_AddonPrice :: "AddonPrice decoder" where
  "dec_AddonPrice = dec_struct
     [fld ''location'' dec_string PriceLocation PriceLocation_update,
      fld ''price'' dec_PriceDetail Price Price_update,
      fld ''price_setup'' dec_PriceDetail PriceSetup PriceSetup_update]"

section \<open>Rounding to the nearest value\<close>

lemma half_even_unique:
  assumes "2 * (q * d) < 2 * n + d" and "2 * n < 2 * (q * d) + d"
  shows "half_even n d = q"
proof -
  have d: "0 < d" using assms by linarith
  note near = half_even_near [OF d, of n]
  let ?h = "half_even n d"
  have "?h * d < Suc q * d" "q * d < Suc ?h * d" using assms near by (simp_all add: algebra_simps)
  then have "?h < Suc q" "q < Suc ?h" by (simp_all only: mult_less_cancel2)
  then show ?thesis by simp
qed

text \<open>
  A ratio of which the nearest value has an exponent of at most -14 comes back when the value is scaled by
  10000 and rounded to an integer.
\<close>

lemma half_even_back:
  assumes "14 \<le> k"
  shows "half_even (10000 * half_even (n * 2 ^ k) 10000) (2 ^ k) = n"
proof (rule half_even_unique)
  have "(2::nat) ^ 14 \<le> 2 ^ k" using assms by (intro power_increasing) simp_all
  then have "(10000::nat) < 2 ^ k" by (simp add: numeral_power_eq_of_nat_cancel_iff)
  with half_even_near [of 10000 "n * 2 ^ k"]
  show "2 * (n * 2 ^ k) < 2 * (10000 * half_even (n * 2 ^ k) 10000) + 2 ^ k"
    "2 * (10000 * half_even (n * 2 ^ k) 10000) < 2 * (n * 2 ^ k) + 2 ^ k"
    by (simp_all add: mult.commute)
qed

section \<open>Reading a price\<close>

lemma base_value_decimal: "base_value False = digits_value"
  by (simp add: fun_eq_iff base_value_def base_val_def digits_value_def)

lemma pad4_digits: "n < 10000 \<Longrightarrow> c \<in> set (pad4 n) \<Longrightarrow> digit_val c \<noteq> None"
  by (auto simp: pad4_def less_mult_imp_div_less)

lemma decimal_places: "10 * (10 * (10 * (m div 1000) + m div 100 mod 10) + m div 10 mod 10) + m mod 10 = (m::nat)"
proof -
  have "m div 1000 = m div 100 div 10" "m div 100 = m div 10 div 10" by (simp_all flip: div_mult2_eq)
  then show ?thesis by simp
qed

lemma digits_value_pad4:
  assumes "m < 10000"
  shows "digits_value (dec_of_nat q @ pad4 m) = q * 10000 + m"
proof -
  have "m div 1000 < 10" using assms by (simp add: less_mult_imp_div_less)
  then have "digits_value (dec_of_nat q @ pad4 m) =
      q * 10000 + (10 * (10 * (10 * (m div 1000) + m div 100 mod 10) + m div 10 mod 10) + m mod 10)"
    using digits_value_dec [of q] by (simp add: digits_value_def pad4_def)
  then show ?thesis by (simp only: decimal_places)
qed

text \<open>A price without its sign consists of digits and one point.\<close>

lemma fixed4_chars: "c \<in> set (fixed4 False n) \<Longrightarrow> digit_val c \<noteq> None \<or> c = CHR ''.''"
  using dec_of_nat_digits pad4_digits [of "n mod 10000"] by (auto simp: fixed4_def)

lemma digit_lower: "digit_val c \<noteq> None \<or> c = CHR ''.'' \<Longrightarrow> lower_char c = c"
  by (auto simp: lower_char_def digit_val_def in_range_def byte_def Let_def split: if_splits)

lemma fixed4_lower: "map lower_char (fixed4 False n) = fixed4 False n"
  using fixed4_chars digit_lower by (intro map_idI) blast

lemma fixed4_sign: "split_sign (fixed4 neg n) = (neg, fixed4 False n)"
proof -
  obtain c cs where "dec_of_nat (n div 10000) = c # cs" by (cases "dec_of_nat (n div 10000)") auto
  with hd_dec_of_nat_not_sign [of "n div 10000"] show ?thesis by (simp add: split_sign_def fixed4_def)
qed

lemma fixed4_special: "special (fixed4 neg n) = None"
proof -
  have dot: "CHR ''.'' \<in> set (fixed4 False n)" by (simp add: fixed4_def)
  then have "fixed4 False n \<notin> {''inf'', ''infinity''}" by auto
  moreover have "lower_char CHR ''.'' = CHR ''.''" by code_simp
  then have "CHR ''.'' \<in> set (map lower_char (fixed4 neg n))" by (force simp: fixed4_def)
  then have "map lower_char (fixed4 neg n) \<noteq> ''nan''" by auto
  ultimately show ?thesis by (simp add: special_def fixed4_sign fixed4_lower)
qed

lemma fixed4_not_hex:
  assumes "length (fixed4 False n) > 2"
  shows "lower_char (fixed4 False n ! 1) \<noteq> CHR ''x''"
proof -
  have "fixed4 False n ! 1 \<in> set (fixed4 False n)" using assms by (intro nth_mem) simp
  from fixed4_chars [OF this] show ?thesis using digit_lower by (fastforce simp: digit_val_def)
qed

lemma no_underscore: "\<forall>c \<in> set s. digit_val c \<noteq> None \<Longrightarrow> filter (\<lambda>c. c \<noteq> CHR ''_'') s = s"
  by (auto simp: filter_id_conv digit_val_def)

lemma readFloat_fixed4:
  "readFloat (fixed4 neg n) = Some (neg, False, dec_of_nat (n div 10000), pad4 (n mod 10000), 0)"
proof -
  let ?w = "dec_of_nat (n div 10000)" and ?f = "pad4 (n mod 10000)"
  let ?mant = "\<lambda>c. base_val False c \<noteq> None \<or> c = CHR ''_''"
  have r: "fixed4 False n = ?w @ CHR ''.'' # ?f" by (simp add: fixed4_def)
  have dig: "\<forall>c \<in> set ?w. digit_val c \<noteq> None" "\<forall>c \<in> set ?f. digit_val c \<noteq> None"
    using dec_of_nat_digits pad4_digits [of "n mod 10000"] by auto
  have dot: "digit_val CHR ''.'' = None" by code_simp
  have whole: "takeWhile ?mant (?w @ CHR ''.'' # ?f) = ?w" "dropWhile ?mant (?w @ CHR ''.'' # ?f) = CHR ''.'' # ?f"
    using dig(1) dot by (simp_all add: base_val_def takeWhile_append2 dropWhile_append2)
  have frac: "takeWhile ?mant ?f = ?f" "dropWhile ?mant ?f = []"
    using dig(2) by (simp_all add: base_val_def takeWhile_eq_all_conv)
  have plain: "CHR ''_'' \<notin> set (fixed4 neg n)"
    using dig by (auto simp: fixed4_def digit_val_def)
  have hex: "(length (fixed4 False n) > 2 \<and> fixed4 False n ! 0 = CHR ''0''
      \<and> lower_char (fixed4 False n ! 1) = CHR ''x'') = False"
    using fixed4_not_hex by blast
  have point: "HasPrefix (CHR ''.'' # ?f) ''.'' = True" "drop 1 (CHR ''.'' # ?f) = ?f" "?w @ ?f \<noteq> []"
    by (simp_all add: HasPrefix_def)
  have ends: "read_exponent False [] = Some 0" by (simp add: read_exponent_def)
  show ?thesis
    unfolding readFloat_def fixed4_sign Let_def prod.case r hex [unfolded r] if_False whole frac point(1,2) if_True ends
      filter_append no_underscore [OF dig(1)] no_underscore [OF dig(2)]
    using point(3) plain by (simp only: option.case if_False simp_thms)
qed

lemma price_exponent:
  assumes "n < 2 ^ 52"
  shows "float_exponent n 10000 \<le> - 14"
proof -
  have "bit_length 10000 = 14" by code_simp
  with bit_length_le [OF assms] show ?thesis
    by (auto simp: float_exponent_def scaled_def Let_def max_def split: if_splits)
qed

text \<open>
  The value of a price has a mantissa that gives the price back, since the spacing of the values below
  2 ^ 39 is finer than a ten-thousandth.
\<close>

lemma round_price:
  assumes "n < 2 ^ 52"
  shows "\<exists>f. round_ratio neg n 10000 = Some f \<and> four_decimals f = fixed4 neg n"
proof (cases "n = 0")
  case True
  then show ?thesis by (simp add: round_ratio_def zero_float64_def four_decimals_def half_even_def)
next
  case False
  define e where "e = float_exponent n 10000"
  have e: "e \<le> - 14" using price_exponent [OF assms] by (simp add: e_def)
  then have "half_even (10000 * half_even (n * 2 ^ nat (- e)) 10000) (2 ^ nat (- e)) = n"
    by (intro half_even_back) simp
  with False e show ?thesis
    by (simp add: round_ratio_def scaled_def four_decimals_def flip: e_def)
qed

lemma read_price:
  assumes "n < 2 ^ 52"
  shows "\<exists>f. ParseFloat_text (fixed4 neg n) = Some (Finite f) \<and> four_decimals f = fixed4 neg n"
proof -
  have "digits_value (dec_of_nat (n div 10000) @ pad4 (n mod 10000)) = n"
    using digits_value_pad4 [of "n mod 10000" "n div 10000"] by simp
  moreover have "length (pad4 (n mod 10000)) = 4" by (simp add: pad4_def)
  ultimately have "ParseFloat_text (fixed4 neg n) = map_option Finite (round_ratio neg n 10000)"
    by (simp add: ParseFloat_text_def fixed4_special readFloat_fixed4 base_value_decimal ratio_power_def)
  with round_price [OF assms] show ?thesis by auto
qed

text \<open>
  C29: an amount of money survives decoding and encoding. A text with a whole number, a point and
  four decimals, as the API writes prices, decodes to a value that encodes to the same text, for every amount
  below 2 ^ 52 ten-thousandths (about 450 thousand million), with or without a minus sign, although
  hardly any of these amounts is a float64.
\<close>

theorem StringFloat_roundtrip:
  assumes "n < 2 ^ 52"
  shows "\<exists>sf. dec_StringFloat (JStr (fixed4 neg n)) old = Ok sf
    \<and> StringFloat_MarshalJSON sf = JStr (fixed4 neg n)"
proof -
  have "fixed4 neg n \<noteq> []" by (simp add: fixed4_def)
  with read_price [OF assms, of neg] show ?thesis by auto
qed

theorem StringFloat_roundtrip_witness:
  "fixed4 False 390001 = ''39.0001'' \<and> fixed4 True 7 = ''-0.0007''
   \<and> (\<exists>sf. dec_StringFloat (JStr ''39.0001'') NaN = Ok sf \<and> StringFloat_MarshalJSON sf = JStr ''39.0001'')
   \<and> (\<exists>sf. dec_StringFloat (JStr ''-0.0007'') NaN = Ok sf \<and> StringFloat_MarshalJSON sf = JStr ''-0.0007'')"
proof -
  have a: "fixed4 False 390001 = ''39.0001''" "fixed4 True 7 = ''-0.0007''" by code_simp+
  from StringFloat_roundtrip [of 390001 False NaN] StringFloat_roundtrip [of 7 True NaN] a
  show ?thesis by simp
qed

text \<open>The shapes of the decoder: null and the empty string, the special names, texts that are no number.\<close>

lemma StringFloat_texts:
  "dec_StringFloat JNull x = Ok (Finite zero_float64)"
  "dec_StringFloat (JStr []) x = Ok (Finite zero_float64)"
  "dec_StringFloat (JStr ''-Infinity'') x = Ok (Infinite True)"
  "dec_StringFloat (JStr ''nan'') x = Ok NaN"
  "dec_StringFloat (JStr ''1_0.5'') x = dec_StringFloat (JStr ''0x1.5p+3'') x"
  "dec_StringFloat (JStr ''1__0'') x = Err (ErrorString ''invalid float string: 1__0'')"
  "dec_StringFloat (JStr ''1,5'') x = Err (ErrorString ''invalid float string: 1,5'')"
  by code_simp+

end
