(* ===== verification/BerlinZone.thy ===== *)
theory BerlinZone
  imports GoTime
begin

text \<open>
  The instant of a BerlinTime and its MarshalJSON (types.go). A location is its lookup: the offset from
  UTC in force at an instant, with the interval of instants for which it is in force. The data of
  Europe/Berlin belong to the time zone database and are a parameter with the laws of the locale zone;
  the fixed zone that init falls back to, and zones given by a table of transitions, satisfy them. The
  calendar is the proleptic Gregorian one, with day 0 the first day of year 0.
\<close>

section \<open>The calendar\<close>

text \<open>Days before a year of the first cycle of 400 years, and before any year.\<close>

primrec cycle_days :: "nat \<Rightarrow> nat" where
  "cycle_days 0 = 0"
| "cycle_days (Suc y) = cycle_days y + (if leap y then 366 else 365)"

definition days_before_year :: "int \<Rightarrow> int" where
  "days_before_year y = 146097 * (y div 400) + int (cycle_days (nat (y mod 400)))"

definition days_before_month :: "nat \<Rightarrow> nat \<Rightarrow> nat" where
  "days_before_month m y = sum_list (map (\<lambda>k. daysIn k y) [1..<m])"

text \<open>The year of a day of the first cycle, found upwards from a lower bound.\<close>

function year_up :: "nat \<Rightarrow> nat \<Rightarrow> nat" where
  "year_up y d = (if y < d \<and> cycle_days (Suc y) \<le> d then year_up (Suc y) d else y)"
  by pat_completeness auto
termination
  by (relation "measure (\<lambda>(y, d). d - y)") auto

declare year_up.simps [simp del]

fun month_up :: "nat \<Rightarrow> nat \<Rightarrow> nat \<Rightarrow> nat \<Rightarrow> nat \<times> nat" where
  "month_up 0 m d y = (m, d + 1)"
| "month_up (Suc n) m d y = (if d < daysIn m y then (m, d + 1) else month_up n (Suc m) (d - daysIn m y) y)"

definition date_of_day :: "int \<Rightarrow> int \<times> nat \<times> nat" where
  "date_of_day d =
     (let r = nat (d mod 146097); y = year_up (r div 366) r
      in (400 * (d div 146097) + int y, month_up 11 1 (r - cycle_days y) y))"

subsection \<open>A date is found again\<close>

lemma cycle_days_bounds: "365 * y \<le> cycle_days y \<and> cycle_days y \<le> 366 * y"
  by (induction y) auto

lemma cycle_days_mono: "y \<le> z \<Longrightarrow> cycle_days y \<le> cycle_days z"
  by (rule lift_Suc_mono_le) auto

lemma year_up_eq:
  assumes "y \<le> z" and "cycle_days z \<le> d" and "d < cycle_days (Suc z)"
  shows "year_up y d = z"
  using assms
proof (induction y d rule: year_up.induct)
  case (1 y d)
  show ?case
  proof (cases "y = z")
    case True
    with 1 show ?thesis by (simp add: year_up.simps [of z d] del: cycle_days.simps)
  next
    case False
    with 1(2) have "Suc y \<le> z" by simp
    moreover from this have "cycle_days (Suc y) \<le> d" using cycle_days_mono [of "Suc y" z] 1(3) by linarith
    moreover have "y < d" using conjunct1 [OF cycle_days_bounds [of "Suc y"]] calculation(2) by (simp del: cycle_days.simps)
    ultimately show ?thesis using 1 by (simp add: year_up.simps [of y d] del: cycle_days.simps)
  qed
qed

lemma days_before_month_Suc: "1 \<le> m \<Longrightarrow> days_before_month (Suc m) y = days_before_month m y + daysIn m y"
  by (simp add: days_before_month_def)

lemma days_before_month_mono:
  assumes "a \<le> b"
  shows "days_before_month a y \<le> days_before_month b y"
proof -
  have "days_before_month m y \<le> days_before_month (Suc m) y" for m
    by (cases m) (auto simp: days_before_month_def)
  then show ?thesis using assms by (rule lift_Suc_mono_le)
qed

lemma month_up_eq:
  assumes "m \<le> k" and "k \<le> m + n" and "1 \<le> m" and "e < daysIn k y"
  shows "month_up n m (days_before_month k y - days_before_month m y + e) y = (k, e + 1)"
  using assms
proof (induction n arbitrary: m)
  case (Suc n)
  show ?case
  proof (cases "m = k")
    case False
    then have "Suc m \<le> k" using Suc by simp
    have le: "days_before_month m y + daysIn m y \<le> days_before_month k y"
      using days_before_month_mono [OF \<open>Suc m \<le> k\<close>, of y] days_before_month_Suc [OF Suc.prems(3), of y] by simp
    with Suc.IH [of "Suc m"] Suc.prems \<open>Suc m \<le> k\<close> show ?thesis
      by (simp add: days_before_month_Suc)
  qed (use Suc in simp)
qed simp

lemma year_length: "1 \<le> m \<Longrightarrow> m \<le> 12 \<Longrightarrow> days_before_month m y + daysIn m y \<le> (if leap y then 366 else 365)"
proof -
  assume "1 \<le> m" "m \<le> 12"
  then have "days_before_month m y + daysIn m y \<le> days_before_month 13 y"
    using days_before_month_mono [of "Suc m" 13 y] days_before_month_Suc [of m y] by simp
  also have "days_before_month 13 y = (if leap y then 366 else 365)"
    by (simp add: days_before_month_def daysIn_def upt_rec)
  finally show ?thesis .
qed

lemma leap_mod: "leap (y mod 400) = leap y"
proof -
  have "y mod 400 mod 4 = y mod 4" "y mod 400 mod 100 = y mod 100" by (simp_all add: mod_mod_cancel)
  then show ?thesis by (simp add: leap_def)
qed

lemma daysIn_mod: "daysIn m (y mod 400) = daysIn m y"
  by (simp add: daysIn_def leap_mod)

lemma days_before_month_mod: "days_before_month m (y mod 400) = days_before_month m y"
  by (simp add: days_before_month_def daysIn_mod)

definition day_number :: "nat \<Rightarrow> nat \<Rightarrow> nat \<Rightarrow> int" where
  "day_number y m d = days_before_year (int y) + int (days_before_month m y + (d - 1))"

lemma date_of_day_number:
  assumes "m \<in> {1..12}" and "d \<in> {1..daysIn m y}"
  shows "date_of_day (day_number y m d) = (int y, m, d)"
proof -
  let ?z = "y mod 400" and ?e = "days_before_month m y + (d - 1)"
  let ?r = "cycle_days ?z + ?e"
  have e: "?e < (if leap ?z then 366 else 365)"
    using year_length [of m y] assms by (auto simp: leap_mod)
  then have below: "?r < cycle_days (Suc ?z)" by simp
  also have "\<dots> \<le> cycle_days 400" by (rule cycle_days_mono) (simp add: Suc_leI)
  also have "cycle_days 400 = 146097" by code_simp
  finally have r: "?r < 146097" .
  have n: "day_number y m d = 146097 * int (y div 400) + int ?r"
    by (simp add: day_number_def days_before_year_def zdiv_int nat_mod_distrib)
  have cyc: "day_number y m d div 146097 = int (y div 400)" "nat (day_number y m d mod 146097) = ?r"
    unfolding n using r by simp_all
  have "?r div 366 \<le> ?z"
    using below conjunct2 [OF cycle_days_bounds [of "Suc ?z"]] by (intro less_Suc_eq_le [THEN iffD1] less_mult_imp_div_less) simp
  then have year: "year_up (?r div 366) ?r = ?z" using below by (intro year_up_eq) simp_all
  have "month_up 11 1 (days_before_month m ?z - days_before_month 1 ?z + (d - 1)) ?z = (m, d - 1 + 1)"
    using assms by (intro month_up_eq) (auto simp: daysIn_mod)
  moreover have "days_before_month 1 ?z = 0" by (simp add: days_before_month_def)
  moreover have "d - 1 + 1 = d" using assms by simp
  ultimately have "month_up 11 1 ?e ?z = (m, d)" by (simp only: days_before_month_mod diff_zero)
  moreover have "400 * int (y div 400) + int ?z = int y"
    by (metis mult_div_mod_eq of_nat_add of_nat_mult of_nat_numeral)
  ultimately show ?thesis unfolding date_of_day_def Let_def cyc year by simp
qed

section \<open>Instants\<close>

text \<open>Seconds since 1970 of a date and time of day read as UTC, and back.\<close>

definition date_unix :: "civil \<Rightarrow> int" where
  "date_unix t = (day_number (Yr t) (Mon t) (Dy t) - 719528) * 86400 + int (Hr t * 3600 + Mi t * 60 + Sc t)"

definition date_text :: "int \<Rightarrow> string" where
  "date_text s =
     (let (y, m, d) = date_of_day (s div 86400 + 719528); r = nat (s mod 86400); n = nat \<bar>y\<bar>
      in (if y < 0 then ''-'' else []) @ (if n < 10000 then pad2 (n div 100) @ pad2 (n mod 100) else dec_of_nat n)
         @ ''-'' @ pad2 m @ ''-'' @ pad2 d @ '' '' @ pad2 (r div 3600) @ '':'' @ pad2 (r div 60 mod 60) @ '':''
         @ pad2 (r mod 60))"

lemma day_split: "x < 86400 \<Longrightarrow> (int x + k * 86400) div 86400 = k \<and> nat ((int x + k * 86400) mod 86400) = x"
  by simp

lemma date_text_unix:
  assumes "valid_civil t"
  shows "date_text (date_unix t) = wire_time t"
proof -
  have v: "Mon t \<in> {1..12}" "Dy t \<in> {1..daysIn (Mon t) (Yr t)}" "Yr t < 10000" "Hr t < 24" "Mi t < 60" "Sc t < 60"
    using assms by (simp_all add: valid_civil_def)
  let ?n = "day_number (Yr t) (Mon t) (Dy t)" and ?r = "Hr t * 3600 + Mi t * 60 + Sc t"
  have "?r = Sc t + (Hr t * 60 + Mi t) * 60" by simp
  then have "?r mod 60 = Sc t" "?r div 60 = Hr t * 60 + Mi t"
    using v(6) by (simp_all only: mod_mult_self1 div_mult_self1_is_m mod_less div_less div_mult_self1 add_0_right)
  moreover have "?r < 86400" "?r div 3600 = Hr t" using v(4-6) by (linarith, intro div_nat_eqI) simp_all
  ultimately have r: "?r < 86400" "?r div 3600 = Hr t" "?r div 60 mod 60 = Mi t" "?r mod 60 = Sc t"
    using v(5) by simp_all
  have "date_unix t = int ?r + (?n - 719528) * 86400" by (simp add: date_unix_def)
  with day_split [OF r(1), of "?n - 719528"]
  have "date_unix t div 86400 + 719528 = ?n" "nat (date_unix t mod 86400) = ?r" by simp_all
  with r(2-4) v(3) date_of_day_number [OF v(1,2)] show ?thesis
    by (simp add: date_text_def wire_time_def Let_def)
qed

section \<open>Locations\<close>

type_synonym lookup = "int \<Rightarrow> int \<times> int \<times> int"

text \<open>
  The laws of a location: the interval of a lookup contains the instant (as long as it is far from the
  ends of int64), the lookup is the same all over the interval, offsets are below a day and changes of
  the offset at least two days apart. That the interval contains the instant is the documented
  bracketing of Go's lookup. Its implementation does not keep to it everywhere: past the last
  transition of the table, on 31 December of a leap year, it returns an interval that has ended, and
  nothing is said of a location at such instants.
\<close>

locale zone =
  fixes lookup :: "int \<Rightarrow> int \<times> int \<times> int"
  assumes inside: "\<bar>u\<bar> < 2 ^ 62 \<Longrightarrow> lookup u = (off, lo, hi) \<Longrightarrow> lo \<le> u \<and> u < hi"
    and steady: "lookup u = (off, lo, hi) \<Longrightarrow> lo \<le> v \<Longrightarrow> v < hi \<Longrightarrow> lookup v = (off, lo, hi)"
    and small: "\<bar>fst (lookup u)\<bar> < 86400"
    and apart: "lookup u = (off, lo, hi) \<Longrightarrow> hi - lo \<ge> 2 * 86400"

text \<open>time.Date in a location, for seconds read as UTC.\<close>

definition date_local :: "lookup \<Rightarrow> int \<Rightarrow> int" where
  "date_local lookup l =
     (let (off, lo, hi) = lookup l
      in if off = 0 then l
         else (let u = l - off in if u < lo \<or> u \<ge> hi then l - fst (lookup u) else u))"

context zone begin

lemma disjoint:
  assumes "lookup x = (o1, a, b)" and "lookup y = (o2, c, d)"
  shows "a = c \<and> b = d \<or> b \<le> c \<or> d \<le> a"
proof (rule ccontr)
  assume "\<not> ?thesis"
  moreover have "a < b" "c < d" using apart [OF assms(1)] apart [OF assms(2)] by simp_all
  ultimately have "lookup (max a c) = (o1, a, b)" "lookup (max a c) = (o2, c, d)"
    by (auto intro!: steady [OF assms(1)] steady [OF assms(2)])
  with \<open>\<not> ?thesis\<close> show False by simp
qed

text \<open>A local time that some instant has is that of the instant Date finds.\<close>

lemma date_local_exists:
  assumes "\<bar>l\<bar> < 2 ^ 61" and "u + fst (lookup u) = l"
  shows "date_local lookup l + fst (lookup (date_local lookup l)) = l"
proof -
  obtain off lo hi where l: "lookup l = (off, lo, hi)" by (cases "lookup l") auto
  obtain off1 lo1 hi1 where u: "lookup u = (off1, lo1, hi1)" by (cases "lookup u") auto
  obtain off2 lo2 hi2 where v: "lookup (l - off) = (off2, lo2, hi2)" by (cases "lookup (l - off)") auto
  have s: "\<bar>off\<bar> < 86400" "\<bar>off1\<bar> < 86400" "\<bar>off2\<bar> < 86400" using small [of l] small [of u] small [of "l - off"] l u v by simp_all
  have ul: "u = l - off1" using assms(2) u by simp
  have b: "\<bar>l\<bar> < 2 ^ 62" "\<bar>u\<bar> < 2 ^ 62" "\<bar>l - off\<bar> < 2 ^ 62" using assms(1) s ul by simp_all
  have in_l: "lo \<le> l" "l < hi" and in_u: "lo1 \<le> u" "u < hi1" and in_v: "lo2 \<le> l - off" "l - off < hi2"
    using inside [OF b(1) l] inside [OF b(2) u] inside [OF b(3) v] by simp_all
  show ?thesis
  proof (cases "off = 0 \<or> (lo \<le> l - off \<and> l - off < hi)")
    case True
    then show ?thesis using l v steady [OF l, of "l - off"] by (auto simp: date_local_def Let_def)
  next
    case False
    then have far: "l - off < lo \<or> hi \<le> l - off" and nz: "off \<noteq> 0" by auto
    have res: "date_local lookup l = l - off2" using far nz l v by (auto simp: date_local_def Let_def)
    have "\<not> (lo \<le> u \<and> u < hi)"
    proof
      assume "lo \<le> u \<and> u < hi"
      then have "off1 = off" using steady [OF l, of u] u by simp
      with ul far \<open>lo \<le> u \<and> u < hi\<close> show False by simp
    qed
    then have same_side: "(l - off < lo \<and> u < lo) \<or> (hi \<le> l - off \<and> hi \<le> u)"
      using far apart [OF l] s ul by linarith
    then have "lo2 \<le> u \<and> u < hi2"
      using disjoint [OF l u] disjoint [OF l v] disjoint [OF u v] apart [OF u] apart [OF v] in_l in_u in_v s ul
      by (elim disjE conjE) linarith+
    then have "off1 = off2" using steady [OF v, of u] u by simp
    with ul assms(2) res show ?thesis by simp
  qed
qed

end

section \<open>Fixed zones and tables of transitions\<close>

definition FixedZone :: "int \<Rightarrow> lookup" where
  "FixedZone off u = (off, MinInt64, MaxInt64)"

text \<open>A table of transitions, each with its instant and the offset from then on.\<close>

fun table_lookup :: "int \<Rightarrow> int \<Rightarrow> (int \<times> int) list \<Rightarrow> lookup" where
  "table_lookup lo off [] u = (off, lo, MaxInt64)"
| "table_lookup lo off ((at, off') # tx) u = (if u < at then (off, lo, at) else table_lookup at off' tx u)"

fun spaced :: "int \<Rightarrow> int \<Rightarrow> (int \<times> int) list \<Rightarrow> bool" where
  "spaced lo off [] \<longleftrightarrow> \<bar>off\<bar> < 86400 \<and> lo + 2 * 86400 \<le> MaxInt64"
| "spaced lo off ((at, off') # tx) \<longleftrightarrow> \<bar>off\<bar> < 86400 \<and> lo + 2 * 86400 \<le> at \<and> spaced at off' tx"

lemma table_lookup_interval:
  assumes "spaced lo0 off0 tx" and "table_lookup lo0 off0 tx u = (off, lo, hi)"
  shows "\<bar>off\<bar> < 86400 \<and> lo0 \<le> lo \<and> lo + 2 * 86400 \<le> hi \<and> (lo0 \<le> u \<longrightarrow> lo \<le> u) \<and> (u < MaxInt64 \<longrightarrow> u < hi)
    \<and> (\<forall>v. lo \<le> v \<and> v < hi \<longrightarrow> table_lookup lo0 off0 tx v = (off, lo, hi))"
  using assms
proof (induction tx arbitrary: lo0 off0)
  case (Cons p tx)
  obtain at o' where p: "p = (at, o')" by force
  show ?case
  proof (cases "u < at")
    case False
    with Cons.prems p have "spaced at o' tx" "table_lookup at o' tx u = (off, lo, hi)" by simp_all
    from Cons.IH [OF this] Cons.prems(1) False p show ?thesis by auto
  qed (use Cons.prems p in auto)
qed auto

locale zone_table =
  fixes off :: int and tx :: "(int \<times> int) list"
  assumes spaced: "spaced MinInt64 off tx"

sublocale zone_table \<subseteq> table: zone "table_lookup MinInt64 off tx"
proof
  fix u o' lo hi v
  assume l: "table_lookup MinInt64 off tx u = (o', lo, hi)"
  note interval = table_lookup_interval [OF spaced l]
  show "hi - lo \<ge> 2 * 86400" using interval by linarith
  show "lo \<le> v \<Longrightarrow> v < hi \<Longrightarrow> table_lookup MinInt64 off tx v = (o', lo, hi)" using interval by blast
  show "lo \<le> u \<and> u < hi" if "\<bar>u\<bar> < 2 ^ 62"
    using interval that by (auto simp: MinInt64_def MaxInt64_def)
next
  fix u
  show "\<bar>fst (table_lookup MinInt64 off tx u)\<bar> < 86400"
    using table_lookup_interval [OF spaced, of u] by (cases "table_lookup MinInt64 off tx u") auto
qed

text \<open>init: the location of Europe/Berlin, or UTC+1 where the database has none.\<close>

definition berlinLocation :: "error + lookup \<Rightarrow> lookup" where
  "berlinLocation loaded = (case loaded of Inl err \<Rightarrow> FixedZone 3600 | Inr l \<Rightarrow> l)"

interpretation fallback: zone "berlinLocation (Inl err)" for err
  by unfold_locales (auto simp: berlinLocation_def FixedZone_def MinInt64_def MaxInt64_def)

text \<open>The transitions of Berlin in 2024 and 2025.\<close>

definition berlin_2024 :: "(int \<times> int) list" where
  "berlin_2024 = [(1711846800, 7200), (1729990800, 3600), (1743296400, 7200), (1761440400, 3600)]"

interpretation berlin: zone_table 3600 berlin_2024
  by unfold_locales (simp add: berlin_2024_def MinInt64_def MaxInt64_def)

section \<open>MarshalJSON\<close>

text \<open>The zero time.Time is the start of year 1.\<close>

definition time_unix :: "lookup \<Rightarrow> BerlinTime \<Rightarrow> int" where
  "time_unix location bt =
     (case bt of
        None \<Rightarrow> -62135596800
      | Some t \<Rightarrow> (case Offset t of None \<Rightarrow> date_local location (date_unix t) | Some z \<Rightarrow> date_unix t - z))"

definition BerlinTime_MarshalJSON :: "lookup \<Rightarrow> BerlinTime \<Rightarrow> json" where
  "BerlinTime_MarshalJSON location bt =
     (let u = time_unix location bt in JStr (date_text (u + fst (location u))))"

lemma day_number_bound:
  assumes "y < 10000" and "m \<in> {1..12}" and "d \<in> {1..daysIn m y}"
  shows "0 \<le> day_number y m d \<and> day_number y m d < 4000000"
proof -
  have "days_before_month m y + (d - 1) < 366"
    using year_length [of m y] assms(2,3) by (auto split: if_splits)
  moreover have "cycle_days (y mod 400) \<le> 366 * 400"
    using conjunct2 [OF cycle_days_bounds [of "y mod 400"]] by (rule order_trans) simp
  moreover have "int y div 400 < 25" "0 \<le> int y div 400" using assms(1) by (simp_all add: zdiv_int)
  ultimately show ?thesis
    by (simp add: day_number_def days_before_year_def nat_mod_distrib)
qed

lemma date_unix_bound: "valid_civil t \<Longrightarrow> \<bar>date_unix t\<bar> < 2 ^ 61"
  using day_number_bound [of "Yr t" "Mon t" "Dy t"] by (auto simp: date_unix_def valid_civil_def abs_if)

text \<open>
  C28: the timestamps of the API survive decoding and encoding. A date and time of day in the wire format
  decodes to those very fields in the location of Berlin, and if the clocks of the location ever showed
  that time, encoding gives the text back, whatever changes of offset lie around it; with the fixed zone
  that init falls back to it always does. Whatever text is accepted, in any of the four layouts, denotes
  a day that its month has (leap years included) and a time of day.
\<close>

theorem BerlinTime_roundtrip:
  assumes "zone location" and "valid_civil t" and "Nano t = 0" and "Offset t = None"
    and "u + fst (location u) = date_unix t"
  shows "dec_BerlinTime (JStr (wire_time t)) old = Ok (Some t)
    \<and> BerlinTime_MarshalJSON location (Some t) = JStr (wire_time t)
    \<and> BerlinTime_MarshalJSON (berlinLocation (Inl err)) (Some t) = JStr (wire_time t)
    \<and> (\<forall>s t'. dec_BerlinTime (JStr s) old = Ok (Some t') \<longrightarrow> valid_civil t')"
proof -
  have marshal: "BerlinTime_MarshalJSON l (Some t) = JStr (wire_time t)" if "zone l" "v + fst (l v) = date_unix t" for l v
    using zone.date_local_exists [OF that(1) date_unix_bound [OF assms(2)] that(2)] assms(2,4)
    by (simp add: BerlinTime_MarshalJSON_def time_unix_def date_text_unix Let_def)
  have "(date_unix t - 3600) + fst (berlinLocation (Inl err) (date_unix t - 3600)) = date_unix t"
    by (simp add: berlinLocation_def FixedZone_def)
  from marshal [OF assms(1,5)] marshal [OF fallback.zone_axioms this] read_wire_time [OF assms(2-4)] first_format_valid
  show ?thesis by (auto split: option.splits)
qed

theorem BerlinTime_roundtrip_witness:
  "BerlinTime_MarshalJSON (table_lookup MinInt64 3600 berlin_2024)
     (Some \<lparr>Yr = 2024, Mon = 3, Dy = 31, Hr = 3, Mi = 0, Sc = 0, Nano = 0, Offset = None\<rparr>) = JStr ''2024-03-31 03:00:00''
   \<and> (\<nexists>t. dec_BerlinTime (JStr ''2023-02-29 23:59:01'') None = Ok (Some t))"
proof -
  let ?t = "\<lparr>Yr = 2024, Mon = 3, Dy = 31, Hr = 3, Mi = 0, Sc = 0, Nano = 0, Offset = None\<rparr>"
  have "valid_civil ?t" "wire_time ?t = ''2024-03-31 03:00:00''" by code_simp+
  moreover have "1711846800 + fst (table_lookup MinInt64 3600 berlin_2024 1711846800) = date_unix ?t" by code_simp
  moreover have "first_format berlin_formats ''2023-02-29 23:59:01'' = None" by code_simp
  ultimately show ?thesis
    using BerlinTime_roundtrip [OF berlin.table.zone_axioms, of ?t 1711846800 None] by auto
qed

text \<open>
  The change of the clocks: a time that they skip is encoded an hour later, and of a time they show
  twice the first occurrence, which a layout with an offset can name, is encoded without
  its offset and decodes to the second one.
\<close>

lemma clock_changes:
  "BerlinTime_MarshalJSON (table_lookup MinInt64 3600 berlin_2024)
     (first_format berlin_formats ''2024-03-31 02:30:00'') = JStr ''2024-03-31 03:30:00''"
  "BerlinTime_MarshalJSON (table_lookup MinInt64 3600 berlin_2024)
     (first_format berlin_formats ''2024-10-27T02:30:00+02:00'') = JStr ''2024-10-27 02:30:00''"
  "time_unix (table_lookup MinInt64 3600 berlin_2024) (first_format berlin_formats ''2024-10-27 02:30:00'')
     = time_unix (table_lookup MinInt64 3600 berlin_2024) (first_format berlin_formats ''2024-10-27T02:30:00+02:00'') + 3600"
  "BerlinTime_MarshalJSON (table_lookup MinInt64 3600 berlin_2024) None = JStr ''0001-01-01 01:00:00''"
  by code_simp+

end
