(* ===== verification/Spec2Isabelle.thy ===== *)
theory Spec2Isabelle
  imports ResponseProps UrlConcat FirewallProps SpecHandlerProps RateLimits Reads Prices BerlinZone
begin

text \<open>
  A verification development for hrobot-go, the Go client of the Hetzner Robot web service.

  \<^bold>\<open>The program.\<close> A Client (src/client.go) holds a base URL, credentials and limits. Its request
  methods go through doRequest, which checks credentials and base URL, sends at most three attempts
  and sleeps between them, and through handleResponse, which reads a bounded body, turns every
  status outside 2xx into an error (src/errors.go), removes the envelope of the service and decodes the
  rest. Each service (firewall.go, boot.go, storagebox.go, vswitch.go, subnet.go, ip.go, traffic.go,
  rdns.go, key.go, failover.go, reset.go, server.go, wol.go) builds paths and forms, calls a request method and
  returns the decoded value; two of them also poll (waitForCondition in src/utils.go).
  src/internal/urlencode writes the bracketed form bodies of firewalls, and src/internal/spectest checks
  bodies in the tests of the package. src/types.go has the wire types with decoders of their own.

  \<^bold>\<open>How it is modelled.\<close> An operation is a function from a client and a world to a result, a client and
  a world. The world (World) has the clock, the instant at which the context is cancelled, the network as
  an arbitrary function from the requests sent so far to an answer, and the trace of what happened:
  requests, answers, closed bodies, sleeps, log records. A result is Ok, Err with a tree of errors, or
  Panic. Go's sized integers are integers with an explicit wrap-around (wrap64) or words, strings and
  bodies are lists of bytes, maps are association lists with distinct keys, a pointer that may be nil is
  an option, and a struct is a record whose field names carry a prefix where two structs share one.

  \<^bold>\<open>The standard library\<close>, as far as the client uses it, one theory per package:
  \<^item> Prelude and GoStrconv: wrap-around, Join, splitting, Itoa, Atoi, ParseUint, TrimSpace, Cut.
  \<^item> GoJson: tokens, a parser with an explicit stack, decoders for structs, slices, maps and pointers.
  \<^item> GoUrl, UrlParse: escaping, url.Values, ParseQuery, url.Parse. The locale form_codec is the contract of
    escaping that makes a form parse back; key_codec (Forms) extends it to escaped keys.
  \<^item> NetIP: net.IP with printing and parsing of both address families, which are inverse.
  \<^item> GoTime: time.Parse for the four layouts of BerlinTime. BerlinZone: the calendar, time.Date and
    Time.In for a location given by its lookup; the locale zone has the laws of a location, and tables of
    transitions (zone_table, by a sublocale) and the fixed zone of the fallback satisfy them.
  \<^item> GoFloat: float64 values of decimal literals, rounded to nearest, and their conversion to integers.

  \<^bold>\<open>The client.\<close>
  \<^item> Errors, ErrorBody (errors.go): error values, constructors, predicates, the error envelope.
  \<^item> Client (client.go): configuration and options, retryAfter, shouldRetry, attempt_loop and doRequest,
    readBodyLimited, unwrapResponse, handleResponse, the seven request methods.
  \<^item> RetryLoop: one attempt as a function with four outcomes, and what a whole run of the loop leaves in the
    trace. ClientCalls: the locale api_call, the contract of every call (configuration kept, own
    requests only, a bound on their number, bodies closed), with an interpretation for each request
    method and closure under sequencing. ClientProps and ResponseProps state the properties of the two halves;
    UrlConcat shows that a validated base URL and an escaped path concatenate to the intended URL.
  \<^item> RateLimits: the locale oblivious of calls that do not look at the stored rate limit, its closure under
    the ways calls are built, and so for every operation; LastRateLimit after an exchange.
  \<^item> Polling (utils.go): encodeForm and waitForCondition, at most 30 polls: the five ways in which a run of
    polls can end, and that a condition that stays false ends in the timeout.

  \<^bold>\<open>The services.\<close> Endpoints has the locale endpoint: a call that is one exchange with a fixed
  method, path and body. It extends to api_call by a sublocale, it is closed under checks before the call
  (guarded) and work on its result (then_local), and every operation of every service is an
  interpretation of it, which records the documented method, path and body of the operation. Its extension
  live_endpoint adds that the request is sent when nothing stands in the way (sendable: valid credentials
  and URL, no cancellation), so that the properties below are not met by sending nothing. The theory also
  shows what a call returns when its first answer is final, and what polling a resource does against a
  server that keeps answering in one way.
  Forms computes what a server reads in a form from the calls of Set and Add that built it (form_simps).
  \<^item> UrlEncode (urlencode), FirewallRules, FirewallForms, FirewallService (firewall.go), with the properties in
    FirewallProps (drift detection, equivalence of rulesets, round trip of the body) and
    FirewallServiceProps (status changes, the rule limit, waiting). The locale counter states what the maps of
    occurrences in the matching loops are used for.
  \<^item> Boot, StorageBox, VSwitches, Subnets, IPResources, Traffic, Rdns, Keys, Failovers, Servers (server.go,
    reset.go, wol.go): one theory per source file. ServiceProps has their properties: required
    options, partial updates, addresses in paths, bracketed bodies, waiting for a vSwitch, resets.
  \<^item> TrafficSizes, BerlinZone, Prices, Ports (types.go): quotas, timestamps, amounts of money, port ranges.
  \<^item> SpecTest, SpecHandler (spectest): the hand-written form checks, the loading of the OpenAPI document and
    the handler around a fixture, with the recorder of httptest and the writer of the server as state
    machines. SpecHandlerProps: the handler is transparent (a simulation between the two machines),
    and it reports exactly the empty server lists among the bracketed bodies of the services.
  \<^item> ServiceCalls: all operations as one family, and sessions of arbitrarily many of them, with the
    contract of the client for a whole session by rule induction; the operations that are always refused.
  \<^item> Reads: the locale read_call of calls that send only GET requests without a body, and programs that
    run nothing but reading operations.

  \<^bold>\<open>Bounds and fuel.\<close> The retry loop counts to maxRetries = 3 and the polling loop to maxPolls = 30, as in
  the code. Reading a ruleset back from a form (read_ruleset) looks at as many rules as the form has keys,
  which is enough because every rule has at least one key (enough_keys), and month_up (BerlinZone) counts
  the months of a year. No other function has fuel: the parsers end by the length of their text, the port
  parser by the number of commas.

  \<^bold>\<open>Parameters and simplifications.\<close> http.ParseTime is the field parse_time of the world, the choice of a
  select with two ready channels is select_done, the error of a cancelled context is ctx_err. The
  time zone database is an argument (lookup) with the laws of the locale zone. What kin-openapi does is
  the record kin, and http.DetectContentType the argument sniff of the handler. The text of errors of the
  standard library is abbreviated. A float64 outside the range of int converts as on amd64.
  Instants are unbounded integers of nanoseconds, but the seconds of time.Unix wrap around (time_Unix).

  \<^bold>\<open>Not modelled.\<close> The HTTP transport and logging below the trace, and so the options WithHTTPClient and
  WithLogger; the mutex of the rate limit (operations run one at a time; RateLimits shows that they do not
  depend on it); the service structs and their constructors, which only hold the client; the interim
  answers (1xx) and the framing of the test server, apart from the limit that a declared Content-Length
  sets to the body.
\<close>

end
